theory Spec2Isabelle
  imports Main "HOL-Library.Word"
begin

section \<open>JavaScript values as the parser sees them\<close>

text \<open>
  \<^verbatim>\<open>parseBimJson(json: any, ...)\<close> traverses a dynamic value, normally the result of
  \<^verbatim>\<open>JSON.parse\<close>. Such a value is \<^verbatim>\<open>null\<close>, a boolean, a number, a string, an array or a
  plain object; reading a property that does not exist gives \<^verbatim>\<open>undefined\<close>.

  \<^item> Numbers are modelled by integers: the parser only tests a number for being zero
    (truthiness) and otherwise copies it.
  \<^item> Strings are \<open>string\<close>: a character has a code from 0 to 255 and stands for the
    code unit of that number, so that the strings of the model are those of the code
    units U+0000 to U+00FF. The parser only compares strings with ASCII literals,
    tests them for emptiness and lower-cases them.
  \<^item> An object is the list of its entries, read with \<open>map_of\<close> (keys of an object are
    unique; with a repeated key the first entry is the effective one).
\<close>

datatype jsval =
    JUndefined
  | JNull
  | JBool bool
  | JNum int
  | JStr string
  | JArr "jsval list"
  | JObj "(string \<times> jsval) list"

text \<open>
  Everything that can be thrown. \<open>TomParserError code cause\<close> is the class of
  \<^verbatim>\<open>types/index.js\<close> (its human-readable message is not modelled); the others are the
  host's errors: \<open>TypeError\<close> (property read on \<^verbatim>\<open>null\<close>/\<^verbatim>\<open>undefined\<close>, call of a
  non-function, failed conversion to a primitive), \<open>RangeError code\<close>,
  \<open>SyntaxError\<close> (from \<^verbatim>\<open>JSON.parse\<close>) and \<open>ErrnoException code\<close> (from the file system,
  e.g. \<^verbatim>\<open>ENOENT\<close>).
\<close>

datatype js_error =
    TomParserError string "js_error option"
  | TypeError
  | RangeError string
  | SyntaxError
  | ErrnoException string

definition FILE_NOT_FOUND :: string where "FILE_NOT_FOUND = ''FILE_NOT_FOUND''"
definition INVALID_JSON :: string where "INVALID_JSON = ''INVALID_JSON''"
definition MISSING_REQUIRED_FIELD :: string where
  "MISSING_REQUIRED_FIELD = ''MISSING_REQUIRED_FIELD''"

type_synonym 'a result = "js_error + 'a"

text \<open>Sequencing of two computations that may throw: the first exception wins.\<close>

definition bindE :: "'a result \<Rightarrow> ('a \<Rightarrow> 'b result) \<Rightarrow> 'b result" where
  "bindE m f = (case m of Inl e \<Rightarrow> Inl e | Inr x \<Rightarrow> f x)"

text \<open>\<^verbatim>\<open>xs.map(f)\<close> and \<^verbatim>\<open>xs.filter(p)\<close> with callbacks that may throw: the elements are
  visited from left to right and the first exception ends the traversal.\<close>

fun mapE :: "('a \<Rightarrow> 'b result) \<Rightarrow> 'a list \<Rightarrow> 'b list result" where
  "mapE f [] = Inr []"
| "mapE f (x # xs) = bindE (f x) (\<lambda>y. bindE (mapE f xs) (\<lambda>ys. Inr (y # ys)))"

fun filterE :: "('a \<Rightarrow> bool result) \<Rightarrow> 'a list \<Rightarrow> 'a list result" where
  "filterE p [] = Inr []"
| "filterE p (x # xs) =
     bindE (p x) (\<lambda>b. bindE (filterE p xs) (\<lambda>ys. Inr (if b then x # ys else ys)))"

text \<open>Truthiness (\<^verbatim>\<open>!v\<close>, \<^verbatim>\<open>if (v)\<close>, \<^verbatim>\<open>a && b\<close>).\<close>

fun truthy :: "jsval \<Rightarrow> bool" where
  "truthy JUndefined = False"
| "truthy JNull = False"
| "truthy (JBool b) = b"
| "truthy (JNum n) = (n \<noteq> 0)"
| "truthy (JStr s) = (s \<noteq> [])"
| "truthy (JArr xs) = True"
| "truthy (JObj kvs) = True"

fun nullish :: "jsval \<Rightarrow> bool" where
  "nullish JUndefined = True"
| "nullish JNull = True"
| "nullish v = False"

text \<open>\<^verbatim>\<open>a ?? b\<close>\<close>

definition coalesce :: "jsval \<Rightarrow> jsval \<Rightarrow> jsval" where
  "coalesce a b = (if nullish a then b else a)"

text \<open>
  \<^verbatim>\<open>v.k\<close>: a \<open>TypeError\<close> on \<^verbatim>\<open>undefined\<close> and \<^verbatim>\<open>null\<close>, the own property of an object,
  and \<^verbatim>\<open>undefined\<close> otherwise. \<open>get\<close> is used with the property names the parser reads
  (\<^verbatim>\<open>model\<close>, \<^verbatim>\<open>name\<close>, \<^verbatim>\<open>tables\<close>, \<^verbatim>\<open>isHidden\<close>, ...); none of them is a member of a
  built-in prototype, so nothing is inherited.
\<close>

fun get :: "jsval \<Rightarrow> string \<Rightarrow> jsval result" where
  "get JUndefined k = Inl TypeError"
| "get JNull k = Inl TypeError"
| "get (JObj kvs) k = Inr (case map_of kvs k of None \<Rightarrow> JUndefined | Some v \<Rightarrow> v)"
| "get v k = Inr JUndefined"

text \<open>\<^verbatim>\<open>v?.k\<close>\<close>

definition getOpt :: "jsval \<Rightarrow> string \<Rightarrow> jsval result" where
  "getOpt v k = (if nullish v then Inr JUndefined else get v k)"

text \<open>\<^verbatim>\<open>Array.isArray(v)\<close> and the elements of an array.\<close>

fun isArray :: "jsval \<Rightarrow> bool" where
  "isArray (JArr xs) = True"
| "isArray v = False"

fun elements :: "jsval \<Rightarrow> jsval list" where
  "elements (JArr xs) = xs"
| "elements v = []"

subsection \<open>Conversion to a property key\<close>

text \<open>
  \<^verbatim>\<open>typeMap[dataType]\<close> converts \<^verbatim>\<open>dataType\<close> to a string first. A number is printed in
  decimal (which is what JavaScript prints for an integer below \<open>10\<^sup>2\<^sup>1\<close>), an array is the comma-separated join of its elements (\<^verbatim>\<open>null\<close> and
  \<^verbatim>\<open>undefined\<close> elements print as the empty string), a plain object prints through
  \<^verbatim>\<open>Object.prototype.toString\<close> as \<^verbatim>\<open>[object Object]\<close>, unless it has an own property
  \<^verbatim>\<open>toString\<close>: that one is not callable (no JSON value is), \<^verbatim>\<open>valueOf\<close> does not give
  a primitive either, and the conversion throws a \<open>TypeError\<close>.
\<close>

definition digitChar :: "nat \<Rightarrow> char" where
  "digitChar d = char_of (48 + d)"

function natToString :: "nat \<Rightarrow> string" where
  "natToString n = (if n < 10 then [digitChar n] else natToString (n div 10) @ [digitChar (n mod 10)])"
  by pat_completeness auto
termination
  by (relation "measure id") auto

definition numberToString :: "int \<Rightarrow> string" where
  "numberToString n = (if n < 0 then CHR ''-'' # natToString (nat (- n)) else natToString (nat n))"

fun toStringJs :: "jsval \<Rightarrow> string result"
  and joinJs :: "jsval list \<Rightarrow> string result" where
  "toStringJs JUndefined = Inr ''undefined''"
| "toStringJs JNull = Inr ''null''"
| "toStringJs (JBool b) = Inr (if b then ''true'' else ''false'')"
| "toStringJs (JNum n) = Inr (numberToString n)"
| "toStringJs (JStr s) = Inr s"
| "toStringJs (JArr xs) = joinJs xs"
| "toStringJs (JObj kvs) =
     (case map_of kvs ''toString'' of None \<Rightarrow> Inr ''[object Object]'' | Some m \<Rightarrow> Inl TypeError)"
| "joinJs [] = Inr []"
| "joinJs [x] = (if nullish x then Inr [] else toStringJs x)"
| "joinJs (x # y # ys) =
     bindE (if nullish x then Inr [] else toStringJs x)
       (\<lambda>s. bindE (joinJs (y # ys)) (\<lambda>r. Inr (s @ '','' @ r)))"

section \<open>Enumerations (\<^verbatim>\<open>types/index.js\<close>)\<close>

datatype DataType =
  Int64 | Double | Boolean | String | DateTime | Decimal | Binary | Table | Variant | Unknown

datatype PartitionSourceType = Query | M | Calculated | None'

datatype DataView = Full | Sample

datatype RelationshipCardinality = OneToOne | OneToMany | ManyToOne

datatype CrossFilteringBehavior = BothDirections | OneDirection | None'

section \<open>Enum mappers\<close>

text \<open>
  \<^verbatim>\<open>typeMap\<close> is an object literal, so \<^verbatim>\<open>typeMap[k]\<close> finds the twelve own entries and, for
  any other key, what a plain object inherits from \<^verbatim>\<open>Object.prototype\<close>: a function
  for \<^verbatim>\<open>constructor\<close>, \<^verbatim>\<open>toString\<close>, ..., the prototype itself for \<^verbatim>\<open>__proto__\<close>. None of
  these is \<^verbatim>\<open>null\<close> or \<^verbatim>\<open>undefined\<close>, so \<^verbatim>\<open>??\<close> does not replace them.
  \<open>Inherited k\<close> stands for the value of \<^verbatim>\<open>Object.prototype[k]\<close>.
\<close>

datatype typeMapValue = Member DataType | Inherited string

definition typeMap :: "(string \<times> DataType) list" where
  "typeMap =
    [(''Int64'', DataType.Int64),
     (''Int32'', DataType.Int64),
     (''Double'', DataType.Double),
     (''Single'', DataType.Double),
     (''Boolean'', DataType.Boolean),
     (''String'', DataType.String),
     (''DateTime'', DataType.DateTime),
     (''DateTimeOffset'', DataType.DateTime),
     (''Decimal'', DataType.Decimal),
     (''Binary'', DataType.Binary),
     (''Table'', DataType.Table),
     (''Variant'', DataType.Variant)]"

definition objectPrototypeKeys :: "string list" where
  "objectPrototypeKeys =
    [''constructor'', ''__defineGetter__'', ''__defineSetter__'', ''hasOwnProperty'',
     ''__lookupGetter__'', ''__lookupSetter__'', ''isPrototypeOf'', ''propertyIsEnumerable'',
     ''toString'', ''valueOf'', ''__proto__'', ''toLocaleString'']"

definition typeMapGet :: "string \<Rightarrow> typeMapValue option" where
  "typeMapGet k =
     (case map_of typeMap k of
        Some d \<Rightarrow> Some (Member d)
      | None \<Rightarrow> if k \<in> set objectPrototypeKeys then Some (Inherited k) else None)"

definition mapDataType :: "jsval \<Rightarrow> typeMapValue result" where
  "mapDataType dataType =
     (if \<not> truthy dataType then Inr (Member DataType.Unknown)
      else bindE (toStringJs dataType)
             (\<lambda>k. Inr (case typeMapGet k of None \<Rightarrow> Member DataType.Unknown | Some v \<Rightarrow> v)))"

definition mapPartitionSourceType :: "jsval \<Rightarrow> PartitionSourceType result" where
  "mapPartitionSourceType source =
     (if \<not> truthy source then Inr PartitionSourceType.None'
      else bindE (get source ''type'') (\<lambda>ty.
        if ty = JStr ''m'' then Inr PartitionSourceType.M
        else bindE (get source ''expression'') (\<lambda>expression.
          if truthy expression then Inr PartitionSourceType.Calculated
          else bindE (get source ''query'') (\<lambda>query.
            if truthy query then Inr PartitionSourceType.Query
            else Inr PartitionSourceType.None'))))"

definition mapCardinality :: "jsval \<Rightarrow> jsval \<Rightarrow> jsval \<Rightarrow> RelationshipCardinality" where
  "mapCardinality crossFilterDirection fromCard' toCard' =
     (if fromCard' = JStr ''1'' \<and> toCard' = JStr ''1'' then OneToOne
      else if fromCard' = JStr ''1'' \<and> toCard' = JStr ''*'' then OneToMany
      else if fromCard' = JStr ''*'' \<and> toCard' = JStr ''1'' then ManyToOne
      else OneToMany)"

definition mapCrossFilteringBehavior :: "jsval \<Rightarrow> CrossFilteringBehavior" where
  "mapCrossFilteringBehavior crossFilterDirection =
     (if crossFilterDirection = JStr ''Both'' then BothDirections
      else if crossFilterDirection = JStr ''OneDirection'' then CrossFilteringBehavior.OneDirection
      else CrossFilteringBehavior.None')"

section \<open>Produced entities (\<^verbatim>\<open>types/index.d.ts\<close>)\<close>

text \<open>
  Every field holds what the parser stores there: a raw value copied from the
  document is a \<open>jsval\<close> (possibly \<open>JUndefined\<close>), whatever its TypeScript type says.
  A field of type \<open>_ option\<close> is a property that the parser assigns only under a
  condition: \<open>None\<close> means that the object has no such property.
\<close>

record Annotation =
  name :: jsval
  "value" :: jsval

record Culture =
  name :: jsval
  annotations :: "Annotation list option"

record DataModelSchema =
  name :: jsval
  compatibilityLevel :: jsval
  cultures :: "Culture list"
  annotations :: "Annotation list"

record Column =
  name :: jsval
  dataType :: typeMapValue
  isHidden :: jsval
  description :: jsval
  expression :: "jsval option"
  formatString :: "jsval option"
  summarization :: "jsval option"

record Partition =
  name :: jsval
  sourceType :: PartitionSourceType
  description :: jsval
  expression :: "jsval option"
  query :: "jsval option"
  dataView :: "DataView option"

record Measure =
  name :: jsval
  expression :: jsval
  formatString :: jsval
  displayFolder :: jsval
  isHidden :: jsval
  description :: jsval

record Table =
  name :: jsval
  description :: jsval
  isHidden :: jsval
  columns :: "Column list"
  partitions :: "Partition list"
  measures :: "Measure list"

record Relationship =
  name :: jsval
  fromTable :: jsval
  toTable :: jsval
  fromColumn :: jsval
  toColumn :: jsval
  cardinality :: RelationshipCardinality
  crossFilteringBehavior :: CrossFilteringBehavior
  isActive :: jsval
  isReferentialIntegrityEnforced :: jsval

record TabularModel =
  model :: DataModelSchema
  tables :: "Table list"
  relationships :: "Relationship list"

section \<open>Entity normalizers (\<^verbatim>\<open>parsers/bim-parser.js\<close>)\<close>

definition parseAnnotation :: "jsval \<Rightarrow> Annotation result" where
  "parseAnnotation a =
     bindE (get a ''name'') (\<lambda>n.
     bindE (get a ''value'') (\<lambda>v.
     Inr \<lparr>Annotation.name = coalesce n (JStr ''''),
          Annotation.value = coalesce v (JStr '''')\<rparr>))"

definition parseAnnotations :: "jsval \<Rightarrow> Annotation list result" where
  "parseAnnotations annotationsJson =
     (if \<not> isArray annotationsJson then Inr []
      else mapE parseAnnotation (elements annotationsJson))"

definition parseCulture :: "bool \<Rightarrow> jsval \<Rightarrow> Culture result" where
  "parseCulture includeAnnotations c =
     bindE (get c ''name'') (\<lambda>n.
     bindE (if includeAnnotations
            then bindE (get c ''annotations'') (\<lambda>a.
                 bindE (parseAnnotations a) (\<lambda>as. Inr (Some as)))
            else Inr None) (\<lambda>anns.
     Inr \<lparr>Culture.name = n, Culture.annotations = anns\<rparr>))"

definition parseDataModelSchema :: "jsval \<Rightarrow> bool \<Rightarrow> DataModelSchema result" where
  "parseDataModelSchema modelJson includeAnnotations =
     bindE (get modelJson ''name'') (\<lambda>n.
     bindE (get modelJson ''compatibilityLevel'') (\<lambda>level.
     let schema = \<lparr>DataModelSchema.name = coalesce n (JStr ''Model''),
                    DataModelSchema.compatibilityLevel = coalesce level (JNum 0),
                    DataModelSchema.cultures = [],
                    DataModelSchema.annotations = []\<rparr> in
     bindE (get modelJson ''cultures'') (\<lambda>cs.
     bindE (if truthy cs \<and> isArray cs
            then bindE (mapE (parseCulture includeAnnotations) (elements cs)) (\<lambda>cultures'.
                 Inr (schema\<lparr>DataModelSchema.cultures := cultures'\<rparr>))
            else Inr schema) (\<lambda>schema.
     bindE (get modelJson ''annotations'') (\<lambda>as.
     if truthy as \<and> includeAnnotations
     then bindE (parseAnnotations as) (\<lambda>annotations'.
          Inr (schema\<lparr>DataModelSchema.annotations := annotations'\<rparr>))
     else Inr schema)))))"

definition parseColumn :: "jsval \<Rightarrow> Column result" where
  "parseColumn colJson =
     bindE (get colJson ''name'') (\<lambda>n.
     bindE (get colJson ''dataType'') (\<lambda>rawType.
     bindE (mapDataType rawType) (\<lambda>ty.
     bindE (get colJson ''isHidden'') (\<lambda>hidden.
     bindE (get colJson ''description'') (\<lambda>descr.
     let column = \<lparr>Column.name = coalesce n (JStr ''Column''),
                    Column.dataType = ty,
                    Column.isHidden = hidden,
                    Column.description = descr,
                    Column.expression = None,
                    Column.formatString = None,
                    Column.summarization = None\<rparr> in
     bindE (get colJson ''expression'') (\<lambda>e.
     bindE (if truthy e then Inr (column\<lparr>Column.expression := Some e\<rparr>)
            else bindE (get colJson ''calculatedColumn'') (\<lambda>cc.
                 bindE (getOpt cc ''expression'') (\<lambda>ce.
                 if truthy ce then Inr (column\<lparr>Column.expression := Some ce\<rparr>)
                 else Inr column))) (\<lambda>column.
     bindE (get colJson ''formatString'') (\<lambda>fs.
     let column = (if truthy fs then column\<lparr>Column.formatString := Some fs\<rparr> else column) in
     bindE (get colJson ''summarizeBy'') (\<lambda>sb.
     Inr (if truthy sb then column\<lparr>Column.summarization := Some sb\<rparr> else column))))))))))"

text \<open>The callback of the three hidden-object filters: \<^verbatim>\<open>!x.isHidden || includeHidden\<close>.\<close>

definition keepItem :: "bool \<Rightarrow> jsval \<Rightarrow> bool result" where
  "keepItem includeHidden x =
     bindE (get x ''isHidden'') (\<lambda>h. Inr (\<not> truthy h \<or> includeHidden))"

definition parseColumns :: "jsval \<Rightarrow> bool \<Rightarrow> Column list result" where
  "parseColumns columnsJson includeHidden =
     (if \<not> isArray columnsJson then Inr []
      else bindE (filterE (keepItem includeHidden) (elements columnsJson))
             (mapE parseColumn))"

definition parsePartition :: "jsval \<Rightarrow> Partition result" where
  "parsePartition partitionJson =
     bindE (get partitionJson ''name'') (\<lambda>n.
     bindE (get partitionJson ''source'') (\<lambda>source.
     bindE (mapPartitionSourceType source) (\<lambda>ty.
     bindE (get partitionJson ''description'') (\<lambda>descr.
     let partition = \<lparr>Partition.name = coalesce n (JStr ''Partition''),
                       Partition.sourceType = ty,
                       Partition.description = descr,
                       Partition.expression = None,
                       Partition.query = None,
                       Partition.dataView = None\<rparr> in
     if truthy source
     then bindE (get source ''expression'') (\<lambda>e.
          let partition =
            (if truthy e then partition\<lparr>Partition.expression := Some e\<rparr> else partition) in
          bindE (get source ''query'') (\<lambda>q.
          let partition =
            (if truthy q then partition\<lparr>Partition.query := Some q\<rparr> else partition) in
          bindE (get source ''dataView'') (\<lambda>dv.
          Inr (if truthy dv
               then partition\<lparr>Partition.dataView :=
                      Some (if dv = JStr ''Sample'' then DataView.Sample else DataView.Full)\<rparr>
               else partition))))
     else Inr partition))))"

definition parsePartitions :: "jsval \<Rightarrow> Partition list result" where
  "parsePartitions partitionsJson =
     (if \<not> isArray partitionsJson then Inr []
      else mapE parsePartition (elements partitionsJson))"

definition parseMeasure :: "jsval \<Rightarrow> Measure result" where
  "parseMeasure measureJson =
     bindE (get measureJson ''name'') (\<lambda>n.
     bindE (get measureJson ''expression'') (\<lambda>e.
     bindE (get measureJson ''formatString'') (\<lambda>fs.
     bindE (get measureJson ''displayFolder'') (\<lambda>folder.
     bindE (get measureJson ''isHidden'') (\<lambda>hidden.
     bindE (get measureJson ''description'') (\<lambda>descr.
     Inr \<lparr>Measure.name = coalesce n (JStr ''Measure''),
          Measure.expression = coalesce e (JStr ''''),
          Measure.formatString = fs,
          Measure.displayFolder = folder,
          Measure.isHidden = hidden,
          Measure.description = descr\<rparr>))))))"

definition parseMeasures :: "jsval \<Rightarrow> bool \<Rightarrow> Measure list result" where
  "parseMeasures measuresJson includeHidden =
     (if \<not> isArray measuresJson then Inr []
      else bindE (filterE (keepItem includeHidden) (elements measuresJson))
             (mapE parseMeasure))"

definition parseTable :: "jsval \<Rightarrow> bool \<Rightarrow> Table result" where
  "parseTable tableJson includeHidden =
     bindE (get tableJson ''name'') (\<lambda>n.
     bindE (get tableJson ''description'') (\<lambda>descr.
     bindE (get tableJson ''isHidden'') (\<lambda>hidden.
     bindE (get tableJson ''columns'') (\<lambda>cj.
     bindE (parseColumns (coalesce cj (JArr [])) includeHidden) (\<lambda>cols.
     bindE (get tableJson ''partitions'') (\<lambda>pj.
     bindE (parsePartitions (coalesce pj (JArr []))) (\<lambda>parts.
     bindE (get tableJson ''measures'') (\<lambda>mj.
     bindE (parseMeasures (coalesce mj (JArr [])) includeHidden) (\<lambda>meas.
     Inr \<lparr>Table.name = coalesce n (JStr ''Table''),
          Table.description = descr,
          Table.isHidden = hidden,
          Table.columns = cols,
          Table.partitions = parts,
          Table.measures = meas\<rparr>)))))))))"

definition parseTables :: "jsval \<Rightarrow> bool \<Rightarrow> Table list result" where
  "parseTables tablesJson includeHidden =
     (if \<not> isArray tablesJson then Inr []
      else bindE (filterE (keepItem includeHidden) (elements tablesJson))
             (mapE (\<lambda>tableJson. parseTable tableJson includeHidden)))"

subsection \<open>Relationships\<close>

text \<open>
  \<^verbatim>\<open>s.toLowerCase()\<close>. A character of \<open>string\<close> has a code from 0 to 255 and stands for the
  code unit U+0000 to U+00FF of that number. On these code units
  \<^verbatim>\<open>String.prototype.toLowerCase\<close> works unit by unit: it maps the letters A to Z
  (U+0041 to U+005A) and the letters U+00C0 to U+00DE, without the multiplication sign
  U+00D7, to the code unit 32 places further, and keeps every other code unit.
  The call \<^verbatim>\<open>v.toLowerCase()\<close> on a value that is not a string throws: \<^verbatim>\<open>undefined\<close> and
  \<^verbatim>\<open>null\<close> have no properties, and for every other JSON value \<^verbatim>\<open>v.toLowerCase\<close> is not a
  function.
\<close>

definition upperLetters :: string where
  "upperLetters = ''ABCDEFGHIJKLMNOPQRSTUVWXYZ'' @
     [CHR 0xC0, CHR 0xC1, CHR 0xC2, CHR 0xC3, CHR 0xC4, CHR 0xC5, CHR 0xC6, CHR 0xC7,
      CHR 0xC8, CHR 0xC9, CHR 0xCA, CHR 0xCB, CHR 0xCC, CHR 0xCD, CHR 0xCE, CHR 0xCF,
      CHR 0xD0, CHR 0xD1, CHR 0xD2, CHR 0xD3, CHR 0xD4, CHR 0xD5, CHR 0xD6,
      CHR 0xD8, CHR 0xD9, CHR 0xDA, CHR 0xDB, CHR 0xDC, CHR 0xDD, CHR 0xDE]"

definition lowerLetters :: string where
  "lowerLetters = ''abcdefghijklmnopqrstuvwxyz'' @
     [CHR 0xE0, CHR 0xE1, CHR 0xE2, CHR 0xE3, CHR 0xE4, CHR 0xE5, CHR 0xE6, CHR 0xE7,
      CHR 0xE8, CHR 0xE9, CHR 0xEA, CHR 0xEB, CHR 0xEC, CHR 0xED, CHR 0xEE, CHR 0xEF,
      CHR 0xF0, CHR 0xF1, CHR 0xF2, CHR 0xF3, CHR 0xF4, CHR 0xF5, CHR 0xF6,
      CHR 0xF8, CHR 0xF9, CHR 0xFA, CHR 0xFB, CHR 0xFC, CHR 0xFD, CHR 0xFE]"

definition lowerChar :: "char \<Rightarrow> char" where
  "lowerChar c =
     (case map_of (zip upperLetters lowerLetters) c of
        None \<Rightarrow> c
      | Some l \<Rightarrow> l)"

definition toLowerCase :: "string \<Rightarrow> string" where
  "toLowerCase s = map lowerChar s"

fun callToLowerCase :: "jsval \<Rightarrow> string result" where
  "callToLowerCase (JStr s) = Inr (toLowerCase s)"
| "callToLowerCase v = Inl TypeError"

text \<open>\<^verbatim>\<open>new Map(entries)\<close>: the entries are set from left to right, so a later entry
  with the same key replaces an earlier one.\<close>

definition newMap :: "('k \<times> 'v) list \<Rightarrow> ('k \<rightharpoonup> 'v)" where
  "newMap entries = foldl (\<lambda>m (k, v). m(k \<mapsto> v)) Map.empty entries"

definition parseRelationship :: "jsval \<Rightarrow> (string \<rightharpoonup> Table) \<Rightarrow> Relationship result" where
  "parseRelationship relJson tableMap =
     bindE (get relJson ''fromTable'') (\<lambda>ft.
     let fromTableName = coalesce ft (JStr '''') in
     bindE (get relJson ''toTable'') (\<lambda>tt.
     let toTableName = coalesce tt (JStr '''') in
     bindE (callToLowerCase fromTableName) (\<lambda>fromKey.
     let fromTable' = tableMap fromKey in
     bindE (callToLowerCase toTableName) (\<lambda>toKey.
     let toTable' = tableMap toKey in
     bindE (get relJson ''name'') (\<lambda>n.
     bindE (get relJson ''fromColumn'') (\<lambda>fc.
     bindE (get relJson ''toColumn'') (\<lambda>tc.
     bindE (get relJson ''crossFilterDirection'') (\<lambda>dir.
     bindE (get relJson ''fromCardinality'') (\<lambda>fcard.
     bindE (get relJson ''toCardinality'') (\<lambda>tcard.
     bindE (get relJson ''isActive'') (\<lambda>active.
     bindE (get relJson ''isReferentialIntegrityEnforced'') (\<lambda>enforced.
     Inr \<lparr>Relationship.name = n,
          Relationship.fromTable = fromTableName,
          Relationship.toTable = toTableName,
          Relationship.fromColumn = coalesce fc (JStr ''''),
          Relationship.toColumn = coalesce tc (JStr ''''),
          Relationship.cardinality = mapCardinality dir fcard tcard,
          Relationship.crossFilteringBehavior = mapCrossFilteringBehavior dir,
          Relationship.isActive = coalesce active (JBool True),
          Relationship.isReferentialIntegrityEnforced = enforced\<rparr>))))))))))))"

text \<open>The entries \<^verbatim>\<open>tables.map(t => [t.name.toLowerCase(), t])\<close> of the name index.\<close>

definition tableEntries :: "Table list \<Rightarrow> (string \<times> Table) list result" where
  "tableEntries tabs = mapE (\<lambda>t. bindE (callToLowerCase (Table.name t)) (\<lambda>k. Inr (k, t))) tabs"

definition parseRelationships :: "jsval \<Rightarrow> Table list \<Rightarrow> Relationship list result" where
  "parseRelationships relationshipsJson tabs =
     (if \<not> isArray relationshipsJson then Inr []
      else bindE (tableEntries tabs) (\<lambda>entries.
           let tableMap = newMap entries in
           mapE (\<lambda>relJson. parseRelationship relJson tableMap) (elements relationshipsJson)))"

section \<open>Model assembler\<close>

record ParseOptions =
  includeAnnotations :: "bool option"
  includeHiddenObjects :: "bool option"

text \<open>\<^verbatim>\<open>options?.field ?? true\<close>\<close>

definition optionOrTrue :: "ParseOptions option \<Rightarrow> (ParseOptions \<Rightarrow> bool option) \<Rightarrow> bool" where
  "optionOrTrue opts field =
     (case opts of None \<Rightarrow> True
      | Some os \<Rightarrow> (case field os of None \<Rightarrow> True | Some b \<Rightarrow> b))"

definition parseBimJson :: "jsval \<Rightarrow> ParseOptions option \<Rightarrow> TabularModel result" where
  "parseBimJson json opts =
     (let includeAnnotations' = optionOrTrue opts includeAnnotations;
          includeHidden = optionOrTrue opts includeHiddenObjects in
      bindE (get json ''model'') (\<lambda>m.
      if \<not> truthy m then Inl (TomParserError MISSING_REQUIRED_FIELD None)
      else bindE (parseDataModelSchema m includeAnnotations') (\<lambda>schema.
           bindE (get m ''tables'') (\<lambda>tj.
           bindE (parseTables (coalesce tj (JArr [])) includeHidden) (\<lambda>tabs.
           bindE (get m ''relationships'') (\<lambda>rj.
           bindE (parseRelationships (coalesce rj (JArr [])) tabs) (\<lambda>rels.
           Inr \<lparr>TabularModel.model = schema,
                TabularModel.tables = tabs,
                TabularModel.relationships = rels\<rparr>)))))))"

section \<open>Encoding detector and document loader\<close>

text \<open>
  A \<^verbatim>\<open>Buffer\<close> is a list of bytes and a JavaScript string is the list of its UTF-16 code
  units. Of the host's \<^verbatim>\<open>Buffer\<close> operations,
  \<^item> \<^verbatim>\<open>buf.toString('utf16le')\<close> reads one code unit from every two bytes, low byte
    first, and ignores a last odd byte;
  \<^item> \<^verbatim>\<open>buf.swap16()\<close> exchanges the bytes of every pair, and throws a \<open>RangeError\<close> with
    code \<^verbatim>\<open>ERR_INVALID_BUFFER_SIZE\<close> when the length of the buffer is not a multiple of 2;
  \<^item> \<^verbatim>\<open>buf.toString('utf-8')\<close> never throws; the decoder itself is a parameter \<open>utf8\<close> of
    the model;
  \<^item> \<^verbatim>\<open>s.slice(1)\<close> drops the first code unit of a string.
\<close>

type_synonym byte = "8 word"

type_synonym js_string = "16 word list"

fun utf16le :: "byte list \<Rightarrow> js_string" where
  "utf16le (lo # hi # bs) = (ucast lo + 256 * ucast hi) # utf16le bs"
| "utf16le bs = []"

fun swapPairs :: "byte list \<Rightarrow> byte list" where
  "swapPairs (a # b # bs) = b # a # swapPairs bs"
| "swapPairs bs = bs"

definition swap16 :: "byte list \<Rightarrow> byte list result" where
  "swap16 buffer =
     (if length buffer mod 2 \<noteq> 0 then Inl (RangeError ''ERR_INVALID_BUFFER_SIZE'')
      else Inr (swapPairs buffer))"

definition detectAndDecodeBom :: "(byte list \<Rightarrow> js_string) \<Rightarrow> byte list \<Rightarrow> js_string result" where
  "detectAndDecodeBom utf8 buffer =
     (if length buffer \<ge> 3 \<and> buffer ! 0 = 0xEF \<and> buffer ! 1 = 0xBB \<and> buffer ! 2 = 0xBF
      then Inr (drop 1 (utf8 buffer))
      else if length buffer \<ge> 2 \<and> buffer ! 0 = 0xFF \<and> buffer ! 1 = 0xFE
      then Inr (drop 1 (utf16le buffer))
      else if length buffer \<ge> 2 \<and> buffer ! 0 = 0xFE \<and> buffer ! 1 = 0xFF
      then bindE (swap16 buffer) (\<lambda>swapped. Inr (drop 1 (utf16le swapped)))
      else if length buffer \<ge> 4 \<and> buffer ! 1 = 0x00 \<and> buffer ! 3 = 0x00 \<and>
              (let hasZeroAtEven = (buffer ! 0 \<noteq> 0x00) in
               hasZeroAtEven \<or> (length buffer > 10 \<and> buffer ! 2 = 0x00 \<and> buffer ! 4 = 0x00))
      then Inr (utf16le buffer)
      else Inr (utf8 buffer))"

text \<open>
  \<^verbatim>\<open>error.code\<close> and \<^verbatim>\<open>error instanceof TomParserError\<close>, as the \<^verbatim>\<open>catch\<close> block of
  \<^verbatim>\<open>parseBimFile\<close> reads them.
\<close>

fun errorCode :: "js_error \<Rightarrow> string option" where
  "errorCode (TomParserError code cause) = Some code"
| "errorCode (RangeError code) = Some code"
| "errorCode (ErrnoException code) = Some code"
| "errorCode TypeError = None"
| "errorCode SyntaxError = None"

fun isTomParserError :: "js_error \<Rightarrow> bool" where
  "isTomParserError (TomParserError code cause) = True"
| "isTomParserError e = False"

text \<open>
  The \<^verbatim>\<open>try\<close> block of \<^verbatim>\<open>parseBimFile\<close>. The byte read \<^verbatim>\<open>fs.readFile\<close> and the
  deserializer \<^verbatim>\<open>JSON.parse\<close> are external: they are the parameters \<open>readFile\<close> and
  \<open>jsonParse\<close>, which return a value or throw. A rejected promise is a thrown error.
\<close>

definition parseBimFile_try ::
  "(string \<Rightarrow> byte list result) \<Rightarrow> (byte list \<Rightarrow> js_string) \<Rightarrow> (js_string \<Rightarrow> jsval result) \<Rightarrow>
   string \<Rightarrow> ParseOptions option \<Rightarrow> TabularModel result" where
  "parseBimFile_try readFile utf8 jsonParse filePath opts =
     bindE (readFile filePath) (\<lambda>buffer.
     bindE (detectAndDecodeBom utf8 buffer) (\<lambda>content.
     bindE (jsonParse content) (\<lambda>json.
     parseBimJson json opts)))"

definition parseBimFile ::
  "(string \<Rightarrow> byte list result) \<Rightarrow> (byte list \<Rightarrow> js_string) \<Rightarrow> (js_string \<Rightarrow> jsval result) \<Rightarrow>
   string \<Rightarrow> ParseOptions option \<Rightarrow> TabularModel result" where
  "parseBimFile readFile utf8 jsonParse filePath opts =
     (case parseBimFile_try readFile utf8 jsonParse filePath opts of
        Inr r \<Rightarrow> Inr r
      | Inl error \<Rightarrow>
          if isTomParserError error then Inl error
          else if errorCode error = Some ''ENOENT''
          then Inl (TomParserError FILE_NOT_FOUND (Some error))
          else if error = SyntaxError
          then Inl (TomParserError INVALID_JSON (Some error))
          else Inl (TomParserError ''UNKNOWN'' (Some error)))"

section \<open>The assembler over an explicit store\<close>

text \<open>
  The model above computes with values; it cannot say whether the parser writes to the
  document it is given. This second model of \<^verbatim>\<open>parseBimJson\<close> makes the store explicit:
  an object or array is a cell of the store, a value refers to it by its address, an
  object or array literal (and the result of \<^verbatim>\<open>map\<close>, \<^verbatim>\<open>filter\<close> and \<^verbatim>\<open>new Map\<close>) allocates a
  new cell, and an assignment \<^verbatim>\<open>o.k = v\<close> updates the cell of \<^verbatim>\<open>o\<close>. Every function below
  follows its source statement by statement; an enum member is the string of
  \<^verbatim>\<open>types/index.js\<close>.

  \<open>HInherited k\<close> is the built-in \<^verbatim>\<open>Object.prototype[k]\<close>, which lives outside the
  modelled store; only \<^verbatim>\<open>mapDataType\<close> produces it and nothing reads its properties.
\<close>

datatype hval =
    HUndefined
  | HNull
  | HBool bool
  | HNum int
  | HStr string
  | HRef nat
  | HInherited string

datatype hobj =
    HObject "(string \<times> hval) list"
  | HArray "hval list"
  | HMap "(string \<times> hval) list"

type_synonym store = "hobj list"

type_synonym 'a action = "store \<Rightarrow> 'a result \<times> store"

definition returnS :: "'a \<Rightarrow> 'a action" where
  "returnS x = (\<lambda>s. (Inr x, s))"

definition throwS :: "js_error \<Rightarrow> 'a action" where
  "throwS e = (\<lambda>s. (Inl e, s))"

definition bindS :: "'a action \<Rightarrow> ('a \<Rightarrow> 'b action) \<Rightarrow> 'b action" where
  "bindS m f = (\<lambda>s. case m s of (Inl e, s') \<Rightarrow> (Inl e, s') | (Inr x, s') \<Rightarrow> f x s')"

text \<open>Reading the store without changing it, and creating a new cell.\<close>

definition readS :: "(store \<Rightarrow> 'a) \<Rightarrow> 'a action" where
  "readS f = (\<lambda>s. (Inr (f s), s))"

definition allocS :: "hobj \<Rightarrow> hval action" where
  "allocS cell = (\<lambda>s. (Inr (HRef (length s)), s @ [cell]))"

fun truthyS :: "hval \<Rightarrow> bool" where
  "truthyS HUndefined = False"
| "truthyS HNull = False"
| "truthyS (HBool b) = b"
| "truthyS (HNum n) = (n \<noteq> 0)"
| "truthyS (HStr s) = (s \<noteq> [])"
| "truthyS (HRef a) = True"
| "truthyS (HInherited k) = True"

fun nullishS :: "hval \<Rightarrow> bool" where
  "nullishS HUndefined = True"
| "nullishS HNull = True"
| "nullishS v = False"

definition coalesceS :: "hval \<Rightarrow> hval \<Rightarrow> hval" where
  "coalesceS a b = (if nullishS a then b else a)"

text \<open>\<^verbatim>\<open>v.k\<close>: as \<open>get\<close>, with the own properties of an object read from its cell.\<close>

definition propOf :: "store \<Rightarrow> hval \<Rightarrow> string \<Rightarrow> hval" where
  "propOf s v k =
     (case v of
        HRef a \<Rightarrow>
          (if a < length s
           then (case s ! a of
                   HObject kvs \<Rightarrow> (case map_of kvs k of None \<Rightarrow> HUndefined | Some x \<Rightarrow> x)
                 | HArray xs \<Rightarrow> HUndefined
                 | HMap es \<Rightarrow> HUndefined)
           else HUndefined)
      | _ \<Rightarrow> HUndefined)"

definition getS :: "hval \<Rightarrow> string \<Rightarrow> hval action" where
  "getS v k = (if nullishS v then throwS TypeError else readS (\<lambda>s. propOf s v k))"

definition getOptS :: "hval \<Rightarrow> string \<Rightarrow> hval action" where
  "getOptS v k = (if nullishS v then returnS HUndefined else getS v k)"

text \<open>
  \<^verbatim>\<open>o.k = v\<close>: the only operation that changes an existing cell. A new property is
  added after the existing ones. Assigning to a property of a primitive throws (the
  module is strict code); the parser assigns only to objects it has just created.
\<close>

fun setProp :: "(string \<times> hval) list \<Rightarrow> string \<Rightarrow> hval \<Rightarrow> (string \<times> hval) list" where
  "setProp [] k v = [(k, v)]"
| "setProp ((k', v') # kvs) k v =
     (if k' = k then (k', v) # kvs else (k', v') # setProp kvs k v)"

definition setS :: "hval \<Rightarrow> string \<Rightarrow> hval \<Rightarrow> unit action" where
  "setS target k v =
     (\<lambda>s. case target of
        HRef a \<Rightarrow>
          (if a < length s
           then (case s ! a of
                   HObject kvs \<Rightarrow> (Inr (), s[a := HObject (setProp kvs k v)])
                 | HArray xs \<Rightarrow> (Inr (), s)
                 | HMap es \<Rightarrow> (Inr (), s))
           else (Inr (), s))
      | _ \<Rightarrow> (Inl TypeError, s))"

text \<open>\<^verbatim>\<open>Array.isArray(v)\<close> and the items of an array.\<close>

definition arrayItems :: "store \<Rightarrow> hval \<Rightarrow> hval list option" where
  "arrayItems s v =
     (case v of
        HRef a \<Rightarrow>
          (if a < length s
           then (case s ! a of
                   HArray xs \<Rightarrow> Some xs
                 | HObject kvs \<Rightarrow> None
                 | HMap es \<Rightarrow> None)
           else None)
      | _ \<Rightarrow> None)"

text \<open>The items that \<^verbatim>\<open>v.map(f)\<close> traverses; on a value that is not an array,
  \<^verbatim>\<open>v.map\<close> is not a function.\<close>

definition itemsOrThrowS :: "hval \<Rightarrow> hval list action" where
  "itemsOrThrowS v =
     bindS (readS (\<lambda>s. arrayItems s v)) (\<lambda>items.
     case items of None \<Rightarrow> throwS TypeError | Some xs \<Rightarrow> returnS xs)"

text \<open>The callbacks of \<^verbatim>\<open>map\<close> and \<^verbatim>\<open>filter\<close> run from left to right on the store.\<close>

fun mapS :: "('a \<Rightarrow> 'b action) \<Rightarrow> 'a list \<Rightarrow> 'b list action" where
  "mapS f [] = returnS []"
| "mapS f (x # xs) = bindS (f x) (\<lambda>y. bindS (mapS f xs) (\<lambda>ys. returnS (y # ys)))"

fun filterS :: "('a \<Rightarrow> bool action) \<Rightarrow> 'a list \<Rightarrow> 'a list action" where
  "filterS p [] = returnS []"
| "filterS p (x # xs) =
     bindS (p x) (\<lambda>b. bindS (filterS p xs) (\<lambda>ys. returnS (if b then x # ys else ys)))"

subsection \<open>Enum members as stored\<close>

fun dataTypeString :: "DataType \<Rightarrow> string" where
  "dataTypeString DataType.Int64 = ''Int64''"
| "dataTypeString DataType.Double = ''Double''"
| "dataTypeString DataType.Boolean = ''Boolean''"
| "dataTypeString DataType.String = ''String''"
| "dataTypeString DataType.DateTime = ''DateTime''"
| "dataTypeString DataType.Decimal = ''Decimal''"
| "dataTypeString DataType.Binary = ''Binary''"
| "dataTypeString DataType.Table = ''Table''"
| "dataTypeString DataType.Variant = ''Variant''"
| "dataTypeString DataType.Unknown = ''Unknown''"

fun partitionSourceTypeString :: "PartitionSourceType \<Rightarrow> string" where
  "partitionSourceTypeString PartitionSourceType.Query = ''query''"
| "partitionSourceTypeString PartitionSourceType.M = ''m''"
| "partitionSourceTypeString PartitionSourceType.Calculated = ''calculated''"
| "partitionSourceTypeString PartitionSourceType.None' = ''none''"

fun dataViewString :: "DataView \<Rightarrow> string" where
  "dataViewString DataView.Full = ''full''"
| "dataViewString DataView.Sample = ''sample''"

fun cardinalityString :: "RelationshipCardinality \<Rightarrow> string" where
  "cardinalityString OneToOne = ''1:1''"
| "cardinalityString OneToMany = ''1:*''"
| "cardinalityString ManyToOne = ''*:1''"

fun crossFilteringString :: "CrossFilteringBehavior \<Rightarrow> string" where
  "crossFilteringString BothDirections = ''bothDirections''"
| "crossFilteringString CrossFilteringBehavior.OneDirection = ''oneDirection''"
| "crossFilteringString CrossFilteringBehavior.None' = ''none''"

subsection \<open>Enum mappers on the store\<close>

text \<open>
  The conversion of \<^verbatim>\<open>dataType\<close> to a property key reads the store and does not change
  it (no value of a JSON document has a callable \<^verbatim>\<open>toString\<close>); it is the parameter
  \<open>keyOf\<close>.
\<close>

definition mapDataTypeS :: "(store \<Rightarrow> hval \<Rightarrow> string result) \<Rightarrow> hval \<Rightarrow> hval action" where
  "mapDataTypeS keyOf dataType' =
     (if \<not> truthyS dataType' then returnS (HStr (dataTypeString DataType.Unknown))
      else bindS (allocS (HObject (map (\<lambda>(k, d). (k, HStr (dataTypeString d))) typeMap))) (\<lambda>typeMap'.
           bindS (\<lambda>s. (keyOf s dataType', s)) (\<lambda>k.
           returnS (case typeMapGet k of
                      None \<Rightarrow> HStr (dataTypeString DataType.Unknown)
                    | Some (Member d) \<Rightarrow> HStr (dataTypeString d)
                    | Some (Inherited i) \<Rightarrow> HInherited i))))"

definition mapPartitionSourceTypeS :: "hval \<Rightarrow> hval action" where
  "mapPartitionSourceTypeS source =
     (if \<not> truthyS source then returnS (HStr (partitionSourceTypeString PartitionSourceType.None'))
      else bindS (getS source ''type'') (\<lambda>ty.
        if ty = HStr ''m'' then returnS (HStr (partitionSourceTypeString PartitionSourceType.M))
        else bindS (getS source ''expression'') (\<lambda>expression.
          if truthyS expression
          then returnS (HStr (partitionSourceTypeString PartitionSourceType.Calculated))
          else bindS (getS source ''query'') (\<lambda>query.
            if truthyS query
            then returnS (HStr (partitionSourceTypeString PartitionSourceType.Query))
            else returnS (HStr (partitionSourceTypeString PartitionSourceType.None'))))))"

definition mapCardinalityS :: "hval \<Rightarrow> hval \<Rightarrow> hval \<Rightarrow> hval" where
  "mapCardinalityS crossFilterDirection fromCard' toCard' =
     HStr (cardinalityString
       (if fromCard' = HStr ''1'' \<and> toCard' = HStr ''1'' then OneToOne
        else if fromCard' = HStr ''1'' \<and> toCard' = HStr ''*'' then OneToMany
        else if fromCard' = HStr ''*'' \<and> toCard' = HStr ''1'' then ManyToOne
        else OneToMany))"

definition mapCrossFilteringBehaviorS :: "hval \<Rightarrow> hval" where
  "mapCrossFilteringBehaviorS crossFilterDirection =
     HStr (crossFilteringString
       (if crossFilterDirection = HStr ''Both'' then BothDirections
        else if crossFilterDirection = HStr ''OneDirection''
        then CrossFilteringBehavior.OneDirection
        else CrossFilteringBehavior.None'))"

subsection \<open>Entity normalizers on the store\<close>

definition parseAnnotationS :: "hval \<Rightarrow> hval action" where
  "parseAnnotationS a =
     bindS (getS a ''name'') (\<lambda>n.
     bindS (getS a ''value'') (\<lambda>v.
     allocS (HObject [(''name'', coalesceS n (HStr '''')),
                      (''value'', coalesceS v (HStr ''''))])))"

definition parseAnnotationsS :: "hval \<Rightarrow> hval action" where
  "parseAnnotationsS annotationsJson =
     bindS (readS (\<lambda>s. arrayItems s annotationsJson)) (\<lambda>items.
     case items of
       None \<Rightarrow> allocS (HArray [])
     | Some xs \<Rightarrow> bindS (mapS parseAnnotationS xs) (\<lambda>ys. allocS (HArray ys)))"

definition parseCultureS :: "bool \<Rightarrow> hval \<Rightarrow> hval action" where
  "parseCultureS includeAnnotations' c =
     bindS (getS c ''name'') (\<lambda>n.
     bindS (if includeAnnotations'
            then bindS (getS c ''annotations'') parseAnnotationsS
            else returnS HUndefined) (\<lambda>anns.
     allocS (HObject [(''name'', n), (''annotations'', anns)])))"

definition parseDataModelSchemaS :: "hval \<Rightarrow> bool \<Rightarrow> hval action" where
  "parseDataModelSchemaS modelJson includeAnnotations' =
     bindS (getS modelJson ''name'') (\<lambda>n.
     bindS (getS modelJson ''compatibilityLevel'') (\<lambda>level.
     bindS (allocS (HArray [])) (\<lambda>noCultures.
     bindS (allocS (HArray [])) (\<lambda>noAnnotations.
     bindS (allocS (HObject [(''name'', coalesceS n (HStr ''Model'')),
                             (''compatibilityLevel'', coalesceS level (HNum 0)),
                             (''cultures'', noCultures),
                             (''annotations'', noAnnotations)])) (\<lambda>schema.
     bindS (getS modelJson ''cultures'') (\<lambda>cs.
     bindS (if truthyS cs
            then bindS (getS modelJson ''cultures'') (\<lambda>cs'.
                 bindS (readS (\<lambda>s. arrayItems s cs')) (\<lambda>items.
                 case items of
                   None \<Rightarrow> returnS ()
                 | Some is \<Rightarrow>
                     bindS (getS modelJson ''cultures'') (\<lambda>cs''.
                     bindS (itemsOrThrowS cs'') (\<lambda>xs.
                     bindS (mapS (parseCultureS includeAnnotations') xs) (\<lambda>ys.
                     bindS (allocS (HArray ys)) (\<lambda>cultures'.
                     setS schema ''cultures'' cultures'))))))
            else returnS ()) (\<lambda>u.
     bindS (getS modelJson ''annotations'') (\<lambda>as.
     bindS (if truthyS as \<and> includeAnnotations'
            then bindS (getS modelJson ''annotations'') (\<lambda>as'.
                 bindS (parseAnnotationsS as') (\<lambda>annotations'.
                 setS schema ''annotations'' annotations'))
            else returnS ()) (\<lambda>u.
     returnS schema)))))))))"

definition parseColumnS :: "(store \<Rightarrow> hval \<Rightarrow> string result) \<Rightarrow> hval \<Rightarrow> hval action" where
  "parseColumnS keyOf colJson =
     bindS (getS colJson ''name'') (\<lambda>n.
     bindS (getS colJson ''dataType'') (\<lambda>rawType.
     bindS (mapDataTypeS keyOf rawType) (\<lambda>ty.
     bindS (getS colJson ''isHidden'') (\<lambda>hidden.
     bindS (getS colJson ''description'') (\<lambda>descr.
     bindS (allocS (HObject [(''name'', coalesceS n (HStr ''Column'')),
                             (''dataType'', ty),
                             (''isHidden'', hidden),
                             (''description'', descr)])) (\<lambda>column.
     bindS (getS colJson ''expression'') (\<lambda>e.
     bindS (if truthyS e
            then bindS (getS colJson ''expression'') (setS column ''expression'')
            else bindS (getS colJson ''calculatedColumn'') (\<lambda>cc.
                 bindS (getOptS cc ''expression'') (\<lambda>ce.
                 if truthyS ce
                 then bindS (getS colJson ''calculatedColumn'') (\<lambda>cc'.
                      bindS (getS cc' ''expression'') (setS column ''expression''))
                 else returnS ()))) (\<lambda>u.
     bindS (getS colJson ''formatString'') (\<lambda>fs.
     bindS (if truthyS fs
            then bindS (getS colJson ''formatString'') (setS column ''formatString'')
            else returnS ()) (\<lambda>u.
     bindS (getS colJson ''summarizeBy'') (\<lambda>sb.
     bindS (if truthyS sb
            then bindS (getS colJson ''summarizeBy'') (setS column ''summarization'')
            else returnS ()) (\<lambda>u.
     returnS column))))))))))))"

definition keepItemS :: "bool \<Rightarrow> hval \<Rightarrow> bool action" where
  "keepItemS includeHidden x =
     bindS (getS x ''isHidden'') (\<lambda>h. returnS (\<not> truthyS h \<or> includeHidden))"

text \<open>\<^verbatim>\<open>xs.filter(keep).map(f)\<close>, or \<^verbatim>\<open>[]\<close> when \<^verbatim>\<open>xs\<close> is not an array: \<^verbatim>\<open>filter\<close> and \<^verbatim>\<open>map\<close>
  each return a new array.\<close>

definition filterMapS :: "bool \<Rightarrow> (hval \<Rightarrow> hval action) \<Rightarrow> hval \<Rightarrow> hval action" where
  "filterMapS includeHidden f itemsJson =
     bindS (readS (\<lambda>s. arrayItems s itemsJson)) (\<lambda>items.
     case items of
       None \<Rightarrow> allocS (HArray [])
     | Some xs \<Rightarrow>
         bindS (filterS (keepItemS includeHidden) xs) (\<lambda>kept.
         bindS (allocS (HArray kept)) (\<lambda>keptArray.
         bindS (mapS f kept) (\<lambda>ys.
         allocS (HArray ys)))))"

definition parseColumnsS ::
  "(store \<Rightarrow> hval \<Rightarrow> string result) \<Rightarrow> hval \<Rightarrow> bool \<Rightarrow> hval action" where
  "parseColumnsS keyOf columnsJson includeHidden =
     filterMapS includeHidden (parseColumnS keyOf) columnsJson"

text \<open>\<^verbatim>\<open>partitionJson.source.k\<close>\<close>

definition sourceFieldS :: "hval \<Rightarrow> string \<Rightarrow> hval action" where
  "sourceFieldS partitionJson k = bindS (getS partitionJson ''source'') (\<lambda>src. getS src k)"

definition parsePartitionS :: "hval \<Rightarrow> hval action" where
  "parsePartitionS partitionJson =
     bindS (getS partitionJson ''name'') (\<lambda>n.
     bindS (getS partitionJson ''source'') (\<lambda>source.
     bindS (mapPartitionSourceTypeS source) (\<lambda>ty.
     bindS (getS partitionJson ''description'') (\<lambda>descr.
     bindS (allocS (HObject [(''name'', coalesceS n (HStr ''Partition'')),
                             (''sourceType'', ty),
                             (''description'', descr)])) (\<lambda>partition.
     bindS (getS partitionJson ''source'') (\<lambda>src.
     bindS (if truthyS src
            then bindS (sourceFieldS partitionJson ''expression'') (\<lambda>e.
                 bindS (if truthyS e
                        then bindS (sourceFieldS partitionJson ''expression'')
                               (setS partition ''expression'')
                        else returnS ()) (\<lambda>u.
                 bindS (sourceFieldS partitionJson ''query'') (\<lambda>q.
                 bindS (if truthyS q
                        then bindS (sourceFieldS partitionJson ''query'') (setS partition ''query'')
                        else returnS ()) (\<lambda>u.
                 bindS (sourceFieldS partitionJson ''dataView'') (\<lambda>dv.
                 if truthyS dv
                 then bindS (sourceFieldS partitionJson ''dataView'') (\<lambda>dv'.
                      setS partition ''dataView''
                        (HStr (dataViewString
                           (if dv' = HStr ''Sample'' then DataView.Sample else DataView.Full))))
                 else returnS ())))))
            else returnS ()) (\<lambda>u.
     returnS partition)))))))"

definition parsePartitionsS :: "hval \<Rightarrow> hval action" where
  "parsePartitionsS partitionsJson =
     bindS (readS (\<lambda>s. arrayItems s partitionsJson)) (\<lambda>items.
     case items of
       None \<Rightarrow> allocS (HArray [])
     | Some xs \<Rightarrow> bindS (mapS parsePartitionS xs) (\<lambda>ys. allocS (HArray ys)))"

definition parseMeasureS :: "hval \<Rightarrow> hval action" where
  "parseMeasureS measureJson =
     bindS (getS measureJson ''name'') (\<lambda>n.
     bindS (getS measureJson ''expression'') (\<lambda>e.
     bindS (getS measureJson ''formatString'') (\<lambda>fs.
     bindS (getS measureJson ''displayFolder'') (\<lambda>folder.
     bindS (getS measureJson ''isHidden'') (\<lambda>hidden.
     bindS (getS measureJson ''description'') (\<lambda>descr.
     allocS (HObject [(''name'', coalesceS n (HStr ''Measure'')),
                      (''expression'', coalesceS e (HStr '''')),
                      (''formatString'', fs),
                      (''displayFolder'', folder),
                      (''isHidden'', hidden),
                      (''description'', descr)])))))))"

definition parseMeasuresS :: "hval \<Rightarrow> bool \<Rightarrow> hval action" where
  "parseMeasuresS measuresJson includeHidden =
     filterMapS includeHidden parseMeasureS measuresJson"

text \<open>\<^verbatim>\<open>x ?? []\<close>: the array literal is evaluated, and allocated, only when \<^verbatim>\<open>x\<close> is
  \<^verbatim>\<open>null\<close> or \<^verbatim>\<open>undefined\<close>.\<close>

definition orEmptyArrayS :: "hval \<Rightarrow> hval action" where
  "orEmptyArrayS x = (if nullishS x then allocS (HArray []) else returnS x)"

definition parseTableS ::
  "(store \<Rightarrow> hval \<Rightarrow> string result) \<Rightarrow> hval \<Rightarrow> bool \<Rightarrow> hval action" where
  "parseTableS keyOf tableJson includeHidden =
     bindS (getS tableJson ''name'') (\<lambda>n.
     bindS (getS tableJson ''description'') (\<lambda>descr.
     bindS (getS tableJson ''isHidden'') (\<lambda>hidden.
     bindS (getS tableJson ''columns'') (\<lambda>cj.
     bindS (orEmptyArrayS cj) (\<lambda>cj'.
     bindS (parseColumnsS keyOf cj' includeHidden) (\<lambda>cols.
     bindS (getS tableJson ''partitions'') (\<lambda>pj.
     bindS (orEmptyArrayS pj) (\<lambda>pj'.
     bindS (parsePartitionsS pj') (\<lambda>parts.
     bindS (getS tableJson ''measures'') (\<lambda>mj.
     bindS (orEmptyArrayS mj) (\<lambda>mj'.
     bindS (parseMeasuresS mj' includeHidden) (\<lambda>meas.
     allocS (HObject [(''name'', coalesceS n (HStr ''Table'')),
                      (''description'', descr),
                      (''isHidden'', hidden),
                      (''columns'', cols),
                      (''partitions'', parts),
                      (''measures'', meas)])))))))))))))"

definition parseTablesS ::
  "(store \<Rightarrow> hval \<Rightarrow> string result) \<Rightarrow> hval \<Rightarrow> bool \<Rightarrow> hval action" where
  "parseTablesS keyOf tablesJson includeHidden =
     filterMapS includeHidden (\<lambda>tableJson. parseTableS keyOf tableJson includeHidden) tablesJson"

text \<open>\<^verbatim>\<open>v.toLowerCase()\<close> and \<^verbatim>\<open>tableMap.get(k)\<close>.\<close>

fun callToLowerCaseS :: "hval \<Rightarrow> string action" where
  "callToLowerCaseS (HStr s) = returnS (toLowerCase s)"
| "callToLowerCaseS v = throwS TypeError"

definition mapGetS :: "hval \<Rightarrow> string \<Rightarrow> hval action" where
  "mapGetS tableMap k =
     readS (\<lambda>s. case tableMap of
                  HRef a \<Rightarrow>
                    (if a < length s
                     then (case s ! a of
                             HMap es \<Rightarrow> (case newMap es k of None \<Rightarrow> HUndefined | Some t \<Rightarrow> t)
                           | HObject kvs \<Rightarrow> HUndefined
                           | HArray xs \<Rightarrow> HUndefined)
                     else HUndefined)
                | _ \<Rightarrow> HUndefined)"

definition parseRelationshipS :: "hval \<Rightarrow> hval \<Rightarrow> hval action" where
  "parseRelationshipS relJson tableMap =
     bindS (getS relJson ''fromTable'') (\<lambda>ft.
     bindS (getS relJson ''toTable'') (\<lambda>tt.
     bindS (callToLowerCaseS (coalesceS ft (HStr ''''))) (\<lambda>fromKey.
     bindS (mapGetS tableMap fromKey) (\<lambda>fromTable'.
     bindS (callToLowerCaseS (coalesceS tt (HStr ''''))) (\<lambda>toKey.
     bindS (mapGetS tableMap toKey) (\<lambda>toTable'.
     bindS (getS relJson ''name'') (\<lambda>n.
     bindS (getS relJson ''fromColumn'') (\<lambda>fc.
     bindS (getS relJson ''toColumn'') (\<lambda>tc.
     bindS (getS relJson ''crossFilterDirection'') (\<lambda>dir.
     bindS (getS relJson ''fromCardinality'') (\<lambda>fcard.
     bindS (getS relJson ''toCardinality'') (\<lambda>tcard.
     bindS (getS relJson ''isActive'') (\<lambda>active.
     bindS (getS relJson ''isReferentialIntegrityEnforced'') (\<lambda>enforced.
     allocS (HObject [(''name'', n),
                      (''fromTable'', coalesceS ft (HStr '''')),
                      (''toTable'', coalesceS tt (HStr '''')),
                      (''fromColumn'', coalesceS fc (HStr '''')),
                      (''toColumn'', coalesceS tc (HStr '''')),
                      (''cardinality'', mapCardinalityS dir fcard tcard),
                      (''crossFilteringBehavior'', mapCrossFilteringBehaviorS dir),
                      (''isActive'', coalesceS active (HBool True)),
                      (''isReferentialIntegrityEnforced'', enforced)])))))))))))))))"

text \<open>One entry \<^verbatim>\<open>[t.name.toLowerCase(), t]\<close> of the name index: a new two-element array.\<close>

definition tableEntryS :: "hval \<Rightarrow> (hval \<times> string \<times> hval) action" where
  "tableEntryS t =
     bindS (getS t ''name'') (\<lambda>n.
     bindS (callToLowerCaseS n) (\<lambda>k.
     bindS (allocS (HArray [HStr k, t])) (\<lambda>entry.
     returnS (entry, k, t))))"

definition parseRelationshipsS :: "hval \<Rightarrow> hval \<Rightarrow> hval action" where
  "parseRelationshipsS relationshipsJson tabs =
     bindS (readS (\<lambda>s. arrayItems s relationshipsJson)) (\<lambda>items.
     case items of
       None \<Rightarrow> allocS (HArray [])
     | Some rels \<Rightarrow>
         bindS (itemsOrThrowS tabs) (\<lambda>ts.
         bindS (mapS tableEntryS ts) (\<lambda>entries.
         bindS (allocS (HArray (map fst entries))) (\<lambda>entryArray.
         bindS (allocS (HMap (map snd entries))) (\<lambda>tableMap.
         bindS (itemsOrThrowS relationshipsJson) (\<lambda>xs.
         bindS (mapS (\<lambda>relJson. parseRelationshipS relJson tableMap) xs) (\<lambda>ys.
         allocS (HArray ys))))))))"

definition parseBimJsonS ::
  "(store \<Rightarrow> hval \<Rightarrow> string result) \<Rightarrow> hval \<Rightarrow> ParseOptions option \<Rightarrow> hval action" where
  "parseBimJsonS keyOf json opts =
     (let includeAnnotations' = optionOrTrue opts includeAnnotations;
          includeHidden = optionOrTrue opts includeHiddenObjects in
      bindS (getS json ''model'') (\<lambda>m.
      if \<not> truthyS m then throwS (TomParserError MISSING_REQUIRED_FIELD None)
      else bindS (getS json ''model'') (\<lambda>m1.
           bindS (parseDataModelSchemaS m1 includeAnnotations') (\<lambda>schema.
           bindS (getS json ''model'') (\<lambda>m2.
           bindS (getS m2 ''tables'') (\<lambda>tj.
           bindS (orEmptyArrayS tj) (\<lambda>tj'.
           bindS (parseTablesS keyOf tj' includeHidden) (\<lambda>tabs.
           bindS (getS json ''model'') (\<lambda>m3.
           bindS (getS m3 ''relationships'') (\<lambda>rj.
           bindS (orEmptyArrayS rj) (\<lambda>rj'.
           bindS (parseRelationshipsS rj' tabs) (\<lambda>rels.
           allocS (HObject [(''model'', schema),
                            (''tables'', tabs),
                            (''relationships'', rels)])))))))))))))"

text \<open>
  The document that a value of the store denotes: the tree read through its addresses,
  down to a given depth. \<open>None\<close> when the tree is deeper, or when the value is not one
  of a JSON document.
\<close>

fun decodeS :: "nat \<Rightarrow> store \<Rightarrow> hval \<Rightarrow> jsval option" where
  "decodeS 0 s v = None"
| "decodeS (Suc d) s HUndefined = Some JUndefined"
| "decodeS (Suc d) s HNull = Some JNull"
| "decodeS (Suc d) s (HBool b) = Some (JBool b)"
| "decodeS (Suc d) s (HNum n) = Some (JNum n)"
| "decodeS (Suc d) s (HStr x) = Some (JStr x)"
| "decodeS (Suc d) s (HInherited k) = None"
| "decodeS (Suc d) s (HRef a) =
     (if a < length s
      then (case s ! a of
              HArray xs \<Rightarrow> map_option JArr (those (map (decodeS d s) xs))
            | HObject kvs \<Rightarrow>
                map_option JObj (those (map (\<lambda>(k, v). map_option (Pair k) (decodeS d s v)) kvs))
            | HMap es \<Rightarrow> None)
      else None)"

section \<open>Notions used to state the properties\<close>

subsection \<open>Fields and outcomes\<close>

text \<open>\<open>field v k\<close> is the value that \<^verbatim>\<open>v.k\<close> reads, and \<^verbatim>\<open>undefined\<close> where the read throws.\<close>

definition field :: "jsval \<Rightarrow> string \<Rightarrow> jsval" where
  "field v k = (case get v k of Inl e \<Rightarrow> JUndefined | Inr x \<Rightarrow> x)"

text \<open>A computation returns a value; a computation throws nothing but a \<open>TypeError\<close>.\<close>

definition succeeds :: "'a result \<Rightarrow> bool" where
  "succeeds r = (case r of Inl e \<Rightarrow> False | Inr x \<Rightarrow> True)"

definition throwsTypeErrorOnly :: "'a result \<Rightarrow> bool" where
  "throwsTypeErrorOnly r = (case r of Inl e \<Rightarrow> e = TypeError | Inr x \<Rightarrow> True)"

subsection \<open>Well-shaped documents\<close>

text \<open>
  A shape of the \<^verbatim>\<open>model\<close> node that is sufficient for \<^verbatim>\<open>parseBimJson\<close> to return. It only
  constrains what is there: a collection that is an array has no \<^verbatim>\<open>null\<close> item, the name
  of a table and the table references of a relationship are strings where they are
  given, and the data type of a column is not an array or an object. Absent fields and
  collections that are not arrays are unconstrained.
\<close>

fun isString :: "jsval \<Rightarrow> bool" where
  "isString (JStr s) = True"
| "isString v = False"

fun isPrimitive :: "jsval \<Rightarrow> bool" where
  "isPrimitive (JArr xs) = False"
| "isPrimitive (JObj kvs) = False"
| "isPrimitive v = True"

definition stringOrAbsent :: "jsval \<Rightarrow> bool" where
  "stringOrAbsent v = (nullish v \<or> isString v)"

definition itemsOk :: "(jsval \<Rightarrow> bool) \<Rightarrow> jsval \<Rightarrow> bool" where
  "itemsOk p v = (isArray v \<longrightarrow> list_all (\<lambda>x. \<not> nullish x \<and> p x) (elements v))"

definition anyItem :: "jsval \<Rightarrow> bool" where
  "anyItem x = True"

definition columnOk :: "jsval \<Rightarrow> bool" where
  "columnOk c = isPrimitive (field c ''dataType'')"

definition tableOk :: "jsval \<Rightarrow> bool" where
  "tableOk t =
     (stringOrAbsent (field t ''name'') \<and>
      itemsOk columnOk (field t ''columns'') \<and>
      itemsOk anyItem (field t ''partitions'') \<and>
      itemsOk anyItem (field t ''measures''))"

definition relationshipOk :: "jsval \<Rightarrow> bool" where
  "relationshipOk r =
     (stringOrAbsent (field r ''fromTable'') \<and> stringOrAbsent (field r ''toTable''))"

definition cultureOk :: "jsval \<Rightarrow> bool" where
  "cultureOk c = itemsOk anyItem (field c ''annotations'')"

definition modelOk :: "jsval \<Rightarrow> bool" where
  "modelOk m =
     (itemsOk cultureOk (field m ''cultures'') \<and>
      itemsOk anyItem (field m ''annotations'') \<and>
      itemsOk tableOk (field m ''tables'') \<and>
      itemsOk relationshipOk (field m ''relationships''))"

subsection \<open>Visible items and stored relationships\<close>

text \<open>An item is visible when its raw \<^verbatim>\<open>isHidden\<close> is not truthy.\<close>

definition visible :: "jsval \<Rightarrow> bool" where
  "visible x = (\<not> truthy (field x ''isHidden''))"


subsection \<open>Names that differ in case only\<close>






subsection \<open>Frame conditions on the store\<close>

text \<open>
  \<open>keeps n m Q\<close>: run from any store with at least \<open>n\<close> cells, the action \<open>m\<close> leaves the
  first \<open>n\<close> cells as they are, and a value it returns satisfies \<open>Q\<close>.
\<close>

definition keeps :: "nat \<Rightarrow> 'a action \<Rightarrow> ('a \<Rightarrow> bool) \<Rightarrow> bool" where
  "keeps n m Q \<longleftrightarrow>
     (\<forall>s r s'. n \<le> length s \<and> m s = (r, s') \<longrightarrow>
        n \<le> length s' \<and> take n s' = take n s \<and> (\<forall>x. r = Inr x \<longrightarrow> Q x))"

text \<open>An action that leaves every existing cell as it is and returns the address
  of a cell created during the action.\<close>

definition createsEntity :: "hval action \<Rightarrow> bool" where
  "createsEntity m \<longleftrightarrow>
     (\<forall>s r s'. m s = (r, s') \<longrightarrow>
        length s \<le> length s' \<and> take (length s) s' = s \<and>
        (\<forall>v. r = Inr v \<longrightarrow> (\<exists>a. v = HRef a \<and> length s \<le> a)))"

subsection \<open>Stores that differ by the place of the new cells\<close>

text \<open>
  A second call of the parser runs in a store that holds the cells of the first call,
  so that the cells it creates have other addresses. \<open>relocate n d\<close> moves an address
  that is not below \<open>n\<close> up by \<open>d\<close> and keeps every other value; \<open>relocateCell\<close> does so
  for the values that a cell holds.
\<close>

fun relocate :: "nat \<Rightarrow> nat \<Rightarrow> hval \<Rightarrow> hval" where
  "relocate n d (HRef a) = HRef (if a < n then a else a + d)"
| "relocate n d v = v"

fun relocateCell :: "nat \<Rightarrow> nat \<Rightarrow> hobj \<Rightarrow> hobj" where
  "relocateCell n d (HObject kvs) = HObject (map (\<lambda>(k, v). (k, relocate n d v)) kvs)"
| "relocateCell n d (HArray xs) = HArray (map (relocate n d) xs)"
| "relocateCell n d (HMap es) = HMap (map (\<lambda>(k, v). (k, relocate n d v)) es)"

text \<open>A store is closed when every address that one of its cells holds is the address
  of one of its cells.\<close>

fun refBelow :: "nat \<Rightarrow> hval \<Rightarrow> bool" where
  "refBelow n (HRef a) = (a < n)"
| "refBelow n v = True"

fun cellBelow :: "nat \<Rightarrow> hobj \<Rightarrow> bool" where
  "cellBelow n (HObject kvs) = list_all (\<lambda>(k, v). refBelow n v) kvs"
| "cellBelow n (HArray xs) = list_all (refBelow n) xs"
| "cellBelow n (HMap es) = list_all (\<lambda>(k, v). refBelow n v) es"

definition closedStore :: "store \<Rightarrow> bool" where
  "closedStore s = list_all (cellBelow (length s)) s"

text \<open>
  \<open>related s0 extra s t\<close>: both stores start with the closed store \<open>s0\<close>; after it, \<open>s\<close> has
  some new cells, and \<open>t\<close> has the cells \<open>extra\<close> followed by the same new cells, relocated.
  \<open>sim s0 extra m m' Q\<close>: run from related stores, \<open>m'\<close> has the outcome of \<open>m\<close>: the same
  exception or values related by \<open>Q\<close>, in stores that are related again.
\<close>

definition related :: "store \<Rightarrow> store \<Rightarrow> store \<Rightarrow> store \<Rightarrow> bool" where
  "related s0 extra s t \<longleftrightarrow>
     closedStore s0 \<and>
     (\<exists>new. s = s0 @ new \<and> t = s0 @ extra @ map (relocateCell (length s0) (length extra)) new)"

definition sim ::
  "store \<Rightarrow> store \<Rightarrow> 'a action \<Rightarrow> 'b action \<Rightarrow> ('a \<Rightarrow> 'b \<Rightarrow> bool) \<Rightarrow> bool" where
  "sim s0 extra m m' Q \<longleftrightarrow>
     (\<forall>s t r s'. related s0 extra s t \<and> m s = (r, s') \<longrightarrow>
        (\<exists>r' t'. m' t = (r', t') \<and> related s0 extra s' t' \<and>
           (case r of Inl e \<Rightarrow> r' = Inl e | Inr x \<Rightarrow> (\<exists>x'. r' = Inr x' \<and> Q x x'))))"

text \<open>The conversion to a property key does not depend on where the new cells are.\<close>

definition keyStable :: "(store \<Rightarrow> hval \<Rightarrow> string result) \<Rightarrow> bool" where
  "keyStable keyOf \<longleftrightarrow>
     (\<forall>s0 extra s t v. related s0 extra s t \<longrightarrow>
        keyOf t (relocate (length s0) (length extra) v) = keyOf s v)"

subsection \<open>Inputs of the examples\<close>


text \<open>A file system with the single file \<^verbatim>\<open>model.bim\<close> holding \<^verbatim>\<open>{}\<close>, a decoder for
  ASCII and a deserializer that knows the text \<^verbatim>\<open>{}\<close>.\<close>

definition oneFile :: "string \<Rightarrow> byte list result" where
  "oneFile p = (if p = ''model.bim'' then Inr [0x7B, 0x7D] else Inl (ErrnoException ''ENOENT''))"

definition asciiDecode :: "byte list \<Rightarrow> js_string" where
  "asciiDecode bs = map ucast bs"

definition parseBraces :: "js_string \<Rightarrow> jsval result" where
  "parseBraces s = (if s = [0x7B, 0x7D] then Inr (JObj []) else Inl SyntaxError)"

text \<open>The document \<^verbatim>\<open>{model: {name: "S", tables: [{name: "T", columns: [{name: "C",
  dataType: "Int64", formatString: "0"}]}]}}\<close>, as a store of six cells and as a tree.\<close>

definition sampleStore :: store where
  "sampleStore =
     [HObject [(''model'', HRef 1)],
      HObject [(''name'', HStr ''S''), (''tables'', HRef 2)],
      HArray [HRef 3],
      HObject [(''name'', HStr ''T''), (''columns'', HRef 4)],
      HArray [HRef 5],
      HObject [(''name'', HStr ''C''), (''dataType'', HStr ''Int64''), (''formatString'', HStr ''0'')]]"

definition sampleDocument :: jsval where
  "sampleDocument =
     JObj [(''model'',
       JObj [(''name'', JStr ''S''),
             (''tables'',
               JArr [JObj [(''name'', JStr ''T''),
                           (''columns'',
                             JArr [JObj [(''name'', JStr ''C''), (''dataType'', JStr ''Int64''),
                                         (''formatString'', JStr ''0'')]])]])])]"

text \<open>A key conversion for the examples: JavaScript's on primitive values.\<close>

definition primitiveKeyOf :: "store \<Rightarrow> hval \<Rightarrow> string result" where
  "primitiveKeyOf s v =
     (case v of
        HUndefined \<Rightarrow> Inr ''undefined''
      | HNull \<Rightarrow> Inr ''null''
      | HBool b \<Rightarrow> Inr (if b then ''true'' else ''false'')
      | HNum n \<Rightarrow> Inr (numberToString n)
      | HStr x \<Rightarrow> Inr x
      | HRef a \<Rightarrow> Inr ''[object Object]''
      | HInherited k \<Rightarrow> Inr ''[object Object]'')"

section \<open>Basic facts about the embedding\<close>

lemma bindE_Inr [simp]: "bindE (Inr x) f = f x"
  by (simp add: bindE_def)

lemma bindE_Inl [simp]: "bindE (Inl e) f = Inl e"
  by (simp add: bindE_def)

lemma bindE_eq_Inr: "bindE m f = Inr y \<longleftrightarrow> (\<exists>x. m = Inr x \<and> f x = Inr y)"
  by (cases m) simp_all

lemma get_nullish: "nullish v \<Longrightarrow> get v k = Inl TypeError"
  by (cases v) simp_all

lemma get_field: "\<not> nullish v \<Longrightarrow> get v k = Inr (field v k)"
  by (cases v) (simp_all add: field_def)

lemma get_Inr_iff: "get v k = Inr x \<longleftrightarrow> \<not> nullish v \<and> x = field v k"
  by (cases v) (auto simp: field_def)

lemma truthy_not_nullish: "truthy v \<Longrightarrow> \<not> nullish v"
  by (cases v) simp_all

lemma field_JObj: "field (JObj kvs) k = (case map_of kvs k of None \<Rightarrow> JUndefined | Some v \<Rightarrow> v)"
  by (simp add: field_def)

section \<open>Enum mappers: the claims\<close>

text \<open>
  Claim C6. The cardinality mapper maps the raw token pairs exactly:
  \<open>("1","1")\<close> to \<open>OneToOne\<close>, \<open>("1","*")\<close> to \<open>OneToMany\<close>, \<open>("*","1")\<close> to \<open>ManyToOne\<close>,
  and every other combination, \<open>("*","*")\<close> and missing tokens included, to the
  \<open>OneToMany\<close> default. The first argument (the cross-filter direction) is ignored.
\<close>

theorem mapCardinality_exact:
  "mapCardinality d (JStr ''1'') (JStr ''1'') = OneToOne \<and>
   mapCardinality d (JStr ''1'') (JStr ''*'') = OneToMany \<and>
   mapCardinality d (JStr ''*'') (JStr ''1'') = ManyToOne \<and>
   mapCardinality d (JStr ''*'') (JStr ''*'') = OneToMany \<and>
   mapCardinality d JUndefined t = OneToMany \<and>
   mapCardinality d f JUndefined = OneToMany \<and>
   ((f, t) \<noteq> (JStr ''1'', JStr ''1'') \<and> (f, t) \<noteq> (JStr ''*'', JStr ''1'')
      \<longrightarrow> mapCardinality d f t = OneToMany)"
  by (simp add: mapCardinality_def)

theorem mapCardinality_exact_witness:
  "(JNum 1, JStr ''many'') \<noteq> (JStr ''1'', JStr ''1'') \<and>
   (JNum 1, JStr ''many'') \<noteq> (JStr ''*'', JStr ''1'') \<and>
   mapCardinality (JStr ''Both'') (JNum 1) (JStr ''many'') = OneToMany \<and>
   mapCardinality (JStr ''Both'') (JStr ''*'') (JStr ''1'') = ManyToOne"
  using mapCardinality_exact [of "JStr ''Both''" "JStr ''many''" "JNum 1"] by simp

text \<open>
  What the data-type mapper does on string tokens and on an absent value: the twelve
  table entries map as listed, and a string that is neither a key of the table nor the
  name of a member of \<^verbatim>\<open>Object.prototype\<close> maps to \<open>Unknown\<close>, as do the empty string
  and \<^verbatim>\<open>undefined\<close>.
\<close>

lemma mapDataType_table:
  "mapDataType (JStr ''Int64'') = Inr (Member DataType.Int64)"
  "mapDataType (JStr ''Int32'') = Inr (Member DataType.Int64)"
  "mapDataType (JStr ''Double'') = Inr (Member DataType.Double)"
  "mapDataType (JStr ''Single'') = Inr (Member DataType.Double)"
  "mapDataType (JStr ''Boolean'') = Inr (Member DataType.Boolean)"
  "mapDataType (JStr ''String'') = Inr (Member DataType.String)"
  "mapDataType (JStr ''DateTime'') = Inr (Member DataType.DateTime)"
  "mapDataType (JStr ''DateTimeOffset'') = Inr (Member DataType.DateTime)"
  "mapDataType (JStr ''Decimal'') = Inr (Member DataType.Decimal)"
  "mapDataType (JStr ''Binary'') = Inr (Member DataType.Binary)"
  "mapDataType (JStr ''Table'') = Inr (Member DataType.Table)"
  "mapDataType (JStr ''Variant'') = Inr (Member DataType.Variant)"
  by (simp_all add: mapDataType_def typeMapGet_def typeMap_def)

lemma mapDataType_absent:
  "mapDataType JUndefined = Inr (Member DataType.Unknown)"
  "mapDataType JNull = Inr (Member DataType.Unknown)"
  "mapDataType (JStr '''') = Inr (Member DataType.Unknown)"
  by (simp_all add: mapDataType_def)

lemma mapDataType_other_string:
  assumes "s \<notin> fst ` set typeMap" and "s \<notin> set objectPrototypeKeys"
  shows "mapDataType (JStr s) = Inr (Member DataType.Unknown)"
proof -
  from assms(1) have "map_of typeMap s = None"
    by (simp add: map_of_eq_None_iff)
  with assms(2) show ?thesis
    by (simp add: mapDataType_def typeMapGet_def)
qed

text \<open>
  Claim C3. The data-type mapper is total and exhaustive: every token of the lookup
  table maps to its enum member, and every other token maps to \<open>Unknown\<close>.
  The code does not do that on the token \<^verbatim>\<open>constructor\<close> (nor on the name of any other
  member of \<^verbatim>\<open>Object.prototype\<close>): \<^verbatim>\<open>typeMap["constructor"]\<close> is the inherited function
  \<^verbatim>\<open>Object\<close>, which \<^verbatim>\<open>??\<close> does not replace, so the mapper returns it instead of
  \<open>Unknown\<close>.
\<close>

theorem mapDataType_constructor:
  "mapDataType (JStr ''constructor'') = Inr (Inherited ''constructor'') \<and>
   ''constructor'' \<notin> fst ` set typeMap \<and>
   mapDataType (JStr ''constructor'') \<noteq> Inr (Member DataType.Unknown)"
  by (simp add: mapDataType_def typeMapGet_def typeMap_def objectPrototypeKeys_def)

text \<open>
  Claim C5, as stated: a source whose \<^verbatim>\<open>expression\<close> field is present (and whose type is
  not \<^verbatim>\<open>"m"\<close>) yields \<open>Calculated\<close>. The source \<^verbatim>\<open>{expression: ""}\<close> has the field and
  yields \<open>None\<close>: the mapper tests the field for truthiness, not for presence.
\<close>

theorem mapPartitionSourceType_present_counterexample:
  "map_of [(''expression'', JStr '''')] ''expression'' \<noteq> None \<and>
   mapPartitionSourceType (JObj [(''expression'', JStr '''')]) = Inr PartitionSourceType.None' \<and>
   mapPartitionSourceType (JObj [(''expression'', JStr '''')]) \<noteq> Inr PartitionSourceType.Calculated"
  by (simp add: mapPartitionSourceType_def)

text \<open>
  Claim C5, amended. The partition source-type mapper never throws and satisfies: a
  falsy source (absent, \<^verbatim>\<open>null\<close>, \<^verbatim>\<open>false\<close>, \<^verbatim>\<open>0\<close>, \<^verbatim>\<open>""\<close>) yields \<open>None\<close>; a source with
  type equal to \<^verbatim>\<open>"m"\<close> yields \<open>M\<close> whatever its other fields are; otherwise a source
  whose \<^verbatim>\<open>expression\<close> is truthy yields \<open>Calculated\<close>; otherwise a source whose \<^verbatim>\<open>query\<close>
  is truthy yields \<open>Query\<close>; otherwise \<open>None\<close>.
\<close>

theorem mapPartitionSourceType_cases:
  "mapPartitionSourceType source =
     Inr (if \<not> truthy source then PartitionSourceType.None'
          else if field source ''type'' = JStr ''m'' then PartitionSourceType.M
          else if truthy (field source ''expression'') then PartitionSourceType.Calculated
          else if truthy (field source ''query'') then PartitionSourceType.Query
          else PartitionSourceType.None')"
proof (cases "truthy source")
  case False
  then show ?thesis by (simp add: mapPartitionSourceType_def)
next
  case True
  then have g: "\<And>k. get source k = Inr (field source k)"
    by (simp add: get_field truthy_not_nullish)
  from True show ?thesis
    by (simp add: mapPartitionSourceType_def g)
qed

theorem mapPartitionSourceType_cases_witness:
  "mapPartitionSourceType (JObj [(''type'', JStr ''m''), (''expression'', JStr ''let Source = 1'')])
     = Inr PartitionSourceType.M \<and>
   mapPartitionSourceType (JObj [(''expression'', JStr ''ROW(1)''), (''query'', JStr ''SELECT 1'')])
     = Inr PartitionSourceType.Calculated \<and>
   mapPartitionSourceType (JObj [(''expression'', JStr ''''), (''query'', JStr ''SELECT 1'')])
     = Inr PartitionSourceType.Query"
  using mapPartitionSourceType_cases
          [of "JObj [(''type'', JStr ''m''), (''expression'', JStr ''let Source = 1'')]"]
        mapPartitionSourceType_cases
          [of "JObj [(''expression'', JStr ''ROW(1)''), (''query'', JStr ''SELECT 1'')]"]
        mapPartitionSourceType_cases
          [of "JObj [(''expression'', JStr ''''), (''query'', JStr ''SELECT 1'')]"]
  by (simp add: field_JObj)

section \<open>The missing-model check\<close>

text \<open>
  Claim C10. \<^verbatim>\<open>parseBimJson\<close> treats a present-but-falsy \<^verbatim>\<open>model\<close> property exactly like a
  missing one: for every document whose \<^verbatim>\<open>model\<close> property holds \<^verbatim>\<open>null\<close>, \<^verbatim>\<open>false\<close>, \<^verbatim>\<open>0\<close> or
  the empty string, it fails with the \<^verbatim>\<open>MISSING_REQUIRED_FIELD\<close> error, although the
  property exists on the document.
\<close>

theorem parseBimJson_falsy_model:
  assumes "map_of kvs ''model'' = Some v"
    and "v = JNull \<or> v = JBool False \<or> v = JNum 0 \<or> v = JStr ''''"
  shows "parseBimJson (JObj kvs) opts = Inl (TomParserError MISSING_REQUIRED_FIELD None)"
  using assms by (auto simp: parseBimJson_def)

theorem parseBimJson_falsy_model_witness:
  "map_of [(''model'', JNum 0), (''name'', JStr ''x'')] ''model'' = Some (JNum 0) \<and>
   parseBimJson (JObj [(''model'', JNum 0), (''name'', JStr ''x'')])
     (Some \<lparr>includeAnnotations = None, includeHiddenObjects = Some False\<rparr>)
     = Inl (TomParserError MISSING_REQUIRED_FIELD None)"
  using parseBimJson_falsy_model
          [of "[(''model'', JNum 0), (''name'', JStr ''x'')]" "JNum 0"
              "Some \<lparr>includeAnnotations = None, includeHiddenObjects = Some False\<rparr>"]
  by simp

section \<open>Which exceptions the normalizers raise, and when they return\<close>

lemma succeeds_iff: "succeeds r \<longleftrightarrow> (\<exists>x. r = Inr x)"
  by (cases r) (simp_all add: succeeds_def)

lemma succeeds_Inr [simp]: "succeeds (Inr x)"
  by (simp add: succeeds_def)

lemma succeeds_Inl [simp]: "\<not> succeeds (Inl e)"
  by (simp add: succeeds_def)

lemma succeeds_bindE:
  assumes "succeeds m" and "\<And>x. m = Inr x \<Longrightarrow> succeeds (f x)"
  shows "succeeds (bindE m f)"
  using assms by (cases m) simp_all

lemma succeeds_mapE:
  assumes "\<And>x. x \<in> set xs \<Longrightarrow> succeeds (f x)"
  shows "succeeds (mapE f xs)"
  using assms
proof (induction xs)
  case Nil
  show ?case by simp
next
  case (Cons a as)
  then have "succeeds (f a)" and "succeeds (mapE f as)" by simp_all
  then show ?case by (auto simp: succeeds_iff)
qed

lemma te_Inr [simp]: "throwsTypeErrorOnly (Inr x)"
  by (simp add: throwsTypeErrorOnly_def)

lemma te_Inl [simp]: "throwsTypeErrorOnly (Inl e) \<longleftrightarrow> e = TypeError"
  by (simp add: throwsTypeErrorOnly_def)

lemma te_bindE:
  assumes "throwsTypeErrorOnly m" and "\<And>x. m = Inr x \<Longrightarrow> throwsTypeErrorOnly (f x)"
  shows "throwsTypeErrorOnly (bindE m f)"
  using assms by (cases m) simp_all

lemma te_mapE:
  assumes "\<And>x. x \<in> set xs \<Longrightarrow> throwsTypeErrorOnly (f x)"
  shows "throwsTypeErrorOnly (mapE f xs)"
  using assms
proof (induction xs)
  case Nil
  show ?case by simp
next
  case (Cons a as)
  then have "throwsTypeErrorOnly (f a)" and "throwsTypeErrorOnly (mapE f as)" by simp_all
  then show ?case by (auto intro!: te_bindE)
qed

lemma te_filterE:
  assumes "\<And>x. x \<in> set xs \<Longrightarrow> throwsTypeErrorOnly (p x)"
  shows "throwsTypeErrorOnly (filterE p xs)"
  using assms
proof (induction xs)
  case Nil
  show ?case by simp
next
  case (Cons a as)
  then have "throwsTypeErrorOnly (p a)" and "throwsTypeErrorOnly (filterE p as)" by simp_all
  then show ?case by (auto intro!: te_bindE)
qed

lemma te_get [simp]: "throwsTypeErrorOnly (get v k)"
  by (cases v) simp_all

lemma te_getOpt [simp]: "throwsTypeErrorOnly (getOpt v k)"
  by (simp add: getOpt_def)

lemma te_toStringJs:
  "throwsTypeErrorOnly (toStringJs v)" "throwsTypeErrorOnly (joinJs vs)"
  by (induction v and vs rule: toStringJs_joinJs.induct)
     (auto intro!: te_bindE split: option.splits)

lemma te_callToLowerCase [simp]: "throwsTypeErrorOnly (callToLowerCase v)"
  by (cases v) simp_all

lemma te_mapDataType: "throwsTypeErrorOnly (mapDataType v)"
  by (auto simp: mapDataType_def intro!: te_bindE te_toStringJs)

lemma te_mapPartitionSourceType: "throwsTypeErrorOnly (mapPartitionSourceType v)"
  by (auto simp: mapPartitionSourceType_def intro!: te_bindE)

lemma te_parseAnnotation: "throwsTypeErrorOnly (parseAnnotation a)"
  by (auto simp: parseAnnotation_def intro!: te_bindE)

lemma te_parseAnnotations: "throwsTypeErrorOnly (parseAnnotations v)"
  by (auto simp: parseAnnotations_def intro!: te_mapE te_parseAnnotation)

lemma te_parseCulture: "throwsTypeErrorOnly (parseCulture inc c)"
  by (auto simp: parseCulture_def intro!: te_bindE te_parseAnnotations)

lemma te_parseDataModelSchema: "throwsTypeErrorOnly (parseDataModelSchema m inc)"
  by (auto simp: parseDataModelSchema_def Let_def
           intro!: te_bindE te_mapE te_parseCulture te_parseAnnotations)

lemma te_parseColumn: "throwsTypeErrorOnly (parseColumn c)"
  by (auto simp: parseColumn_def Let_def intro!: te_bindE te_mapDataType)

lemma te_keepItem: "throwsTypeErrorOnly (keepItem h x)"
  by (auto simp: keepItem_def intro!: te_bindE)

lemma te_parseColumns: "throwsTypeErrorOnly (parseColumns v h)"
  by (auto simp: parseColumns_def intro!: te_bindE te_mapE te_filterE te_keepItem te_parseColumn)

lemma te_parsePartition: "throwsTypeErrorOnly (parsePartition p)"
  by (auto simp: parsePartition_def Let_def intro!: te_bindE te_mapPartitionSourceType)

lemma te_parsePartitions: "throwsTypeErrorOnly (parsePartitions v)"
  by (auto simp: parsePartitions_def intro!: te_mapE te_parsePartition)

lemma te_parseMeasure: "throwsTypeErrorOnly (parseMeasure m)"
  by (auto simp: parseMeasure_def intro!: te_bindE)

lemma te_parseMeasures: "throwsTypeErrorOnly (parseMeasures v h)"
  by (auto simp: parseMeasures_def intro!: te_bindE te_mapE te_filterE te_keepItem te_parseMeasure)

lemma te_parseTable: "throwsTypeErrorOnly (parseTable t h)"
  by (auto simp: parseTable_def
           intro!: te_bindE te_parseColumns te_parsePartitions te_parseMeasures)

lemma te_parseTables: "throwsTypeErrorOnly (parseTables v h)"
  by (auto simp: parseTables_def intro!: te_bindE te_mapE te_filterE te_keepItem te_parseTable)

lemma te_parseRelationship: "throwsTypeErrorOnly (parseRelationship r tm)"
  by (auto simp: parseRelationship_def Let_def intro!: te_bindE)

lemma te_tableEntries: "throwsTypeErrorOnly (tableEntries ts)"
  by (auto simp: tableEntries_def intro!: te_mapE te_bindE)

lemma te_parseRelationships: "throwsTypeErrorOnly (parseRelationships v ts)"
  by (auto simp: parseRelationships_def Let_def
           intro!: te_bindE te_mapE te_tableEntries te_parseRelationship)

text \<open>With a truthy \<^verbatim>\<open>model\<close>, everything \<^verbatim>\<open>parseBimJson\<close> can raise is a \<open>TypeError\<close>.\<close>

lemma te_parseBimJson_body:
  "throwsTypeErrorOnly
     (bindE (parseDataModelSchema m a) (\<lambda>schema.
      bindE (get m ''tables'') (\<lambda>tj.
      bindE (parseTables (coalesce tj (JArr [])) h) (\<lambda>tabs.
      bindE (get m ''relationships'') (\<lambda>rj.
      bindE (parseRelationships (coalesce rj (JArr [])) tabs) (\<lambda>rels.
      Inr \<lparr>TabularModel.model = schema,
           TabularModel.tables = tabs,
           TabularModel.relationships = rels\<rparr>))))))"
  by (auto intro!: te_bindE te_parseDataModelSchema te_parseTables te_parseRelationships)

section \<open>Documents on which the assembler returns\<close>

lemma itemsOk_coalesce_empty: "itemsOk p v \<Longrightarrow> itemsOk p (coalesce v (JArr []))"
  by (simp add: itemsOk_def coalesce_def)

lemma itemsOk_elem:
  "itemsOk p v \<Longrightarrow> isArray v \<Longrightarrow> x \<in> set (elements v) \<Longrightarrow> \<not> nullish x \<and> p x"
  by (simp add: itemsOk_def list_all_iff)

lemma filterE_Inr_subset: "filterE p xs = Inr ys \<Longrightarrow> set ys \<subseteq> set xs"
proof (induction xs arbitrary: ys)
  case Nil
  then show ?case by simp
next
  case (Cons a as)
  from Cons.prems obtain b zs where
    "p a = Inr b" and zs: "filterE p as = Inr zs" and ys: "ys = (if b then a # zs else zs)"
    by (auto simp: bindE_eq_Inr)
  from Cons.IH [OF zs] ys show ?case by auto
qed

lemma succeeds_filterE:
  assumes "\<And>x. x \<in> set xs \<Longrightarrow> succeeds (p x)"
  shows "succeeds (filterE p xs)"
  using assms
proof (induction xs)
  case Nil
  show ?case by simp
next
  case (Cons a as)
  then have "succeeds (p a)" and "succeeds (filterE p as)" by simp_all
  then show ?case by (auto simp: succeeds_iff)
qed

lemma succeeds_keepItem: "\<not> nullish x \<Longrightarrow> succeeds (keepItem h x)"
  by (simp add: keepItem_def get_field)

text \<open>A filter followed by a map, as in \<^verbatim>\<open>parseTables\<close>, \<^verbatim>\<open>parseColumns\<close> and
  \<^verbatim>\<open>parseMeasures\<close>.\<close>

lemma succeeds_filter_map:
  assumes "\<And>x. x \<in> set xs \<Longrightarrow> \<not> nullish x \<and> succeeds (f x)"
  shows "succeeds (bindE (filterE (keepItem h) xs) (mapE f))"
proof (rule succeeds_bindE)
  show "succeeds (filterE (keepItem h) xs)"
    using assms by (auto intro!: succeeds_filterE succeeds_keepItem)
next
  fix ys assume "filterE (keepItem h) xs = Inr ys"
  then have "set ys \<subseteq> set xs" by (rule filterE_Inr_subset)
  with assms show "succeeds (mapE f ys)"
    by (auto intro!: succeeds_mapE)
qed

lemma succeeds_toStringJs_primitive: "isPrimitive v \<Longrightarrow> succeeds (toStringJs v)"
  by (cases v) simp_all

lemma succeeds_mapDataType: "isPrimitive v \<Longrightarrow> succeeds (mapDataType v)"
  by (auto simp: mapDataType_def intro!: succeeds_bindE succeeds_toStringJs_primitive)

lemma succeeds_mapPartitionSourceType: "succeeds (mapPartitionSourceType v)"
proof (cases "truthy v")
  case False
  then show ?thesis by (simp add: mapPartitionSourceType_def)
next
  case True
  then have "\<And>k. get v k = Inr (field v k)"
    by (simp add: get_field truthy_not_nullish)
  with True show ?thesis by (simp add: mapPartitionSourceType_def)
qed

lemma succeeds_parseAnnotation: "\<not> nullish a \<Longrightarrow> succeeds (parseAnnotation a)"
  by (simp add: parseAnnotation_def get_field)

lemma succeeds_parseAnnotations: "itemsOk anyItem v \<Longrightarrow> succeeds (parseAnnotations v)"
  by (auto simp: parseAnnotations_def intro!: succeeds_mapE succeeds_parseAnnotation
           dest: itemsOk_elem)

lemma succeeds_parseCulture:
  "\<not> nullish c \<Longrightarrow> cultureOk c \<Longrightarrow> succeeds (parseCulture inc c)"
  using succeeds_parseAnnotations [of "field c ''annotations''"]
  by (auto simp: parseCulture_def get_field cultureOk_def succeeds_iff)

lemma succeeds_parseCultures:
  "itemsOk cultureOk v \<Longrightarrow> isArray v \<Longrightarrow> succeeds (mapE (parseCulture inc) (elements v))"
  by (auto intro!: succeeds_mapE succeeds_parseCulture dest: itemsOk_elem)

lemma succeeds_parseDataModelSchema:
  assumes "\<not> nullish m"
    and "itemsOk cultureOk (field m ''cultures'')"
    and "itemsOk anyItem (field m ''annotations'')"
  shows "succeeds (parseDataModelSchema m inc)"
  using assms(1) succeeds_parseCultures [OF assms(2), of inc]
    succeeds_parseAnnotations [OF assms(3)]
  by (auto simp: parseDataModelSchema_def get_field Let_def succeeds_iff)

lemma succeeds_parseColumn:
  assumes "\<not> nullish c" and "columnOk c"
  shows "succeeds (parseColumn c)"
proof -
  from assms(2) obtain ty where ty: "mapDataType (field c ''dataType'') = Inr ty"
    using succeeds_mapDataType [of "field c ''dataType''"]
    by (auto simp: columnOk_def succeeds_iff)
  have cc: "succeeds (getOpt (field c ''calculatedColumn'') k)" for k
    by (simp add: getOpt_def get_field)
  then obtain ce where "getOpt (field c ''calculatedColumn'') ''expression'' = Inr ce"
    by (auto simp: succeeds_iff)
  with assms(1) ty show ?thesis
    by (simp add: parseColumn_def get_field Let_def)
qed

lemma succeeds_parseColumns: "itemsOk columnOk v \<Longrightarrow> succeeds (parseColumns v h)"
  by (auto simp: parseColumns_def
           intro!: succeeds_filter_map succeeds_parseColumn dest: itemsOk_elem)

lemma succeeds_parsePartition:
  assumes "\<not> nullish p"
  shows "succeeds (parsePartition p)"
proof -
  obtain ty where ty: "mapPartitionSourceType (field p ''source'') = Inr ty"
    using succeeds_mapPartitionSourceType [of "field p ''source''"]
    by (auto simp: succeeds_iff)
  have "truthy (field p ''source'') \<Longrightarrow> get (field p ''source'') k = Inr (field (field p ''source'') k)"
    for k
    by (simp add: get_field truthy_not_nullish)
  with assms ty show ?thesis
    by (simp add: parsePartition_def get_field Let_def)
qed

lemma succeeds_parsePartitions: "itemsOk anyItem v \<Longrightarrow> succeeds (parsePartitions v)"
  by (auto simp: parsePartitions_def intro!: succeeds_mapE succeeds_parsePartition
           dest: itemsOk_elem)

lemma succeeds_parseMeasure: "\<not> nullish m \<Longrightarrow> succeeds (parseMeasure m)"
  by (simp add: parseMeasure_def get_field)

lemma succeeds_parseMeasures: "itemsOk anyItem v \<Longrightarrow> succeeds (parseMeasures v h)"
  by (auto simp: parseMeasures_def
           intro!: succeeds_filter_map succeeds_parseMeasure dest: itemsOk_elem)

lemma parseTable_name:
  "parseTable t h = Inr T \<Longrightarrow> Table.name T = coalesce (field t ''name'') (JStr ''Table'')"
  by (auto simp: parseTable_def bindE_eq_Inr get_Inr_iff)

lemma succeeds_parseTable:
  assumes "\<not> nullish t" and "tableOk t"
  shows "succeeds (parseTable t h)"
proof -
  from assms(2) have
    "succeeds (parseColumns (coalesce (field t ''columns'') (JArr [])) h)"
    "succeeds (parsePartitions (coalesce (field t ''partitions'') (JArr [])))"
    "succeeds (parseMeasures (coalesce (field t ''measures'') (JArr [])) h)"
    by (simp_all add: tableOk_def itemsOk_coalesce_empty
          succeeds_parseColumns succeeds_parsePartitions succeeds_parseMeasures)
  with assms(1) show ?thesis
    by (auto simp: parseTable_def get_field succeeds_iff)
qed

lemma coalesce_string: "stringOrAbsent v \<Longrightarrow> isString (coalesce v (JStr s))"
  by (cases v) (simp_all add: stringOrAbsent_def coalesce_def)

lemma mapE_Inr_elem:
  "mapE f xs = Inr ys \<Longrightarrow> y \<in> set ys \<Longrightarrow> \<exists>x \<in> set xs. f x = Inr y"
proof (induction xs arbitrary: ys)
  case Nil
  then show ?case by simp
next
  case (Cons a as)
  from Cons.prems(1) obtain b bs where
    b: "f a = Inr b" and bs: "mapE f as = Inr bs" and ys: "ys = b # bs"
    by (auto simp: bindE_eq_Inr)
  show ?case
  proof (cases "y = b")
    case True
    with b show ?thesis by auto
  next
    case False
    with Cons.prems(2) ys have "y \<in> set bs" by simp
    from Cons.IH [OF bs this] show ?thesis by auto
  qed
qed

lemma parseTables_names:
  assumes "itemsOk tableOk v" and "parseTables v h = Inr ts" and "T \<in> set ts"
  shows "isString (Table.name T)"
proof (cases "isArray v")
  case False
  with assms(2,3) show ?thesis by (simp add: parseTables_def)
next
  case True
  with assms(2) obtain ys where
    ys: "filterE (keepItem h) (elements v) = Inr ys"
    and ts: "mapE (\<lambda>t. parseTable t h) ys = Inr ts"
    by (auto simp: parseTables_def bindE_eq_Inr)
  from mapE_Inr_elem [OF ts assms(3)] obtain t where
    t: "t \<in> set ys" and T: "parseTable t h = Inr T" by auto
  from t filterE_Inr_subset [OF ys] have "t \<in> set (elements v)" by auto
  with assms(1) True have "tableOk t" by (auto dest: itemsOk_elem)
  then have "stringOrAbsent (field t ''name'')" by (simp add: tableOk_def)
  with parseTable_name [OF T] show ?thesis by (simp add: coalesce_string)
qed

lemma succeeds_parseTables: "itemsOk tableOk v \<Longrightarrow> succeeds (parseTables v h)"
  by (auto simp: parseTables_def
           intro!: succeeds_filter_map succeeds_parseTable dest: itemsOk_elem)

lemma succeeds_callToLowerCase: "isString v \<Longrightarrow> succeeds (callToLowerCase v)"
  by (cases v) simp_all

lemma succeeds_tableEntries:
  assumes "\<And>T. T \<in> set ts \<Longrightarrow> isString (Table.name T)"
  shows "succeeds (tableEntries ts)"
  unfolding tableEntries_def
proof (rule succeeds_mapE)
  fix T assume "T \<in> set ts"
  then have "succeeds (callToLowerCase (Table.name T))"
    by (simp add: assms succeeds_callToLowerCase)
  then show "succeeds (bindE (callToLowerCase (Table.name T)) (\<lambda>k. Inr (k, T)))"
    by (auto simp: succeeds_iff)
qed

lemma succeeds_parseRelationship:
  assumes "\<not> nullish r" and "relationshipOk r"
  shows "succeeds (parseRelationship r tm)"
proof -
  from assms(2) obtain fk tk where
    "callToLowerCase (coalesce (field r ''fromTable'') (JStr '''')) = Inr fk"
    "callToLowerCase (coalesce (field r ''toTable'') (JStr '''')) = Inr tk"
    using succeeds_callToLowerCase [OF coalesce_string, of "field r ''fromTable''" "''''"]
      succeeds_callToLowerCase [OF coalesce_string, of "field r ''toTable''" "''''"]
    by (auto simp: relationshipOk_def succeeds_iff)
  with assms(1) show ?thesis
    by (simp add: parseRelationship_def get_field Let_def)
qed

lemma succeeds_parseRelationships:
  assumes "itemsOk relationshipOk v" and "\<And>T. T \<in> set ts \<Longrightarrow> isString (Table.name T)"
  shows "succeeds (parseRelationships v ts)"
proof (cases "isArray v")
  case False
  then show ?thesis by (simp add: parseRelationships_def)
next
  case True
  from succeeds_tableEntries [OF assms(2)] obtain es where "tableEntries ts = Inr es"
    by (auto simp: succeeds_iff)
  moreover have "succeeds (mapE (\<lambda>r. parseRelationship r tm) (elements v))" for tm
    using assms(1) True
    by (auto intro!: succeeds_mapE succeeds_parseRelationship dest: itemsOk_elem)
  ultimately show ?thesis using True
    by (simp add: parseRelationships_def Let_def)
qed

lemma succeeds_parseBimJson:
  assumes "truthy (field json ''model'')" and "modelOk (field json ''model'')"
  shows "succeeds (parseBimJson json opts)"
proof (cases "nullish json")
  case True
  then have "field json ''model'' = JUndefined"
    by (simp add: field_def get_nullish)
  with assms(1) show ?thesis by simp
next
  case False
  define m where "m = field json ''model''"
  have m: "\<not> nullish m" using assms(1) by (simp add: m_def truthy_not_nullish)
  from assms(2) have ok:
    "itemsOk cultureOk (field m ''cultures'')" "itemsOk anyItem (field m ''annotations'')"
    "itemsOk tableOk (coalesce (field m ''tables'') (JArr []))"
    "itemsOk relationshipOk (coalesce (field m ''relationships'') (JArr []))"
    by (simp_all add: modelOk_def m_def itemsOk_coalesce_empty)
  obtain schema where schema: "parseDataModelSchema m (optionOrTrue opts includeAnnotations) = Inr schema"
    using succeeds_parseDataModelSchema [OF m ok(1,2)] by (auto simp: succeeds_iff)
  obtain tabs where
    tabs: "parseTables (coalesce (field m ''tables'') (JArr [])) (optionOrTrue opts includeHiddenObjects) = Inr tabs"
    using succeeds_parseTables [OF ok(3)] by (auto simp: succeeds_iff)
  have "\<And>T. T \<in> set tabs \<Longrightarrow> isString (Table.name T)"
    using parseTables_names [OF ok(3) tabs] .
  from succeeds_parseRelationships [OF ok(4) this] obtain rels where
    rels: "parseRelationships (coalesce (field m ''relationships'') (JArr [])) tabs = Inr rels"
    by (auto simp: succeeds_iff)
  from False m assms(1) schema tabs rels show ?thesis
    by (simp add: parseBimJson_def get_field Let_def m_def [symmetric])
qed

lemma parseBimJson_falsy:
  assumes "\<not> nullish json" and "\<not> truthy (field json ''model'')"
  shows "parseBimJson json opts = Inl (TomParserError MISSING_REQUIRED_FIELD None)"
  using assms by (simp add: parseBimJson_def get_field)

lemma parseBimJson_truthy_TypeError:
  assumes "\<not> nullish json" and "truthy (field json ''model'')"
  shows "throwsTypeErrorOnly (parseBimJson json opts)"
  using assms te_parseBimJson_body
  by (simp add: parseBimJson_def get_field)

lemma parseBimJson_defaults:
  assumes "\<not> nullish json" and "m = field json ''model''" and "truthy m"
    and "\<not> isArray (field m ''cultures'')" and "\<not> isArray (field m ''annotations'')"
    and "\<not> isArray (field m ''tables'')" and "\<not> isArray (field m ''relationships'')"
  shows "parseBimJson json opts =
    Inr \<lparr>TabularModel.model =
           \<lparr>DataModelSchema.name = coalesce (field m ''name'') (JStr ''Model''),
            DataModelSchema.compatibilityLevel = coalesce (field m ''compatibilityLevel'') (JNum 0),
            DataModelSchema.cultures = [],
            DataModelSchema.annotations = []\<rparr>,
         TabularModel.tables = [],
         TabularModel.relationships = []\<rparr>"
proof -
  have m: "\<not> nullish m" using assms(3) by (rule truthy_not_nullish)
  have schema: "parseDataModelSchema m a =
      Inr \<lparr>DataModelSchema.name = coalesce (field m ''name'') (JStr ''Model''),
           DataModelSchema.compatibilityLevel = coalesce (field m ''compatibilityLevel'') (JNum 0),
           DataModelSchema.cultures = [],
           DataModelSchema.annotations = []\<rparr>" for a
    using m assms(4,5)
    by (simp add: parseDataModelSchema_def get_field Let_def parseAnnotations_def)
  have tabs: "parseTables (coalesce (field m ''tables'') (JArr [])) h = Inr []" for h
    using assms(6) by (simp add: parseTables_def coalesce_def)
  have rels: "parseRelationships (coalesce (field m ''relationships'') (JArr [])) [] = Inr []"
    using assms(7) by (simp add: parseRelationships_def coalesce_def tableEntries_def Let_def)
  from assms(1,3) m schema tabs rels show ?thesis
    by (simp add: parseBimJson_def get_field assms(2) [symmetric] Let_def)
qed

text \<open>
  Claim C1, as stated: \<^verbatim>\<open>parseBimJson\<close> fails with \<^verbatim>\<open>MISSING_REQUIRED_FIELD\<close> if and only if
  the document lacks a \<^verbatim>\<open>model\<close> property, and always succeeds when the property is
  present. Two documents that have the property: on \<^verbatim>\<open>{model: {tables: [null]}}\<close> the
  parser raises a \<open>TypeError\<close> (the hidden-object filter reads \<^verbatim>\<open>isHidden\<close> of
  \<^verbatim>\<open>null\<close>), and on \<^verbatim>\<open>{model: null}\<close> it raises \<^verbatim>\<open>MISSING_REQUIRED_FIELD\<close>.
\<close>

theorem parseBimJson_model_present_counterexample:
  "map_of [(''model'', JObj [(''tables'', JArr [JNull])])] ''model'' \<noteq> None \<and>
   parseBimJson (JObj [(''model'', JObj [(''tables'', JArr [JNull])])]) None = Inl TypeError \<and>
   map_of [(''model'', JNull)] ''model'' \<noteq> None \<and>
   parseBimJson (JObj [(''model'', JNull)]) None
     = Inl (TomParserError MISSING_REQUIRED_FIELD None)"
  by (simp add: parseBimJson_def optionOrTrue_def parseDataModelSchema_def coalesce_def
        parseTables_def keepItem_def)

text \<open>
  Claim C1, amended. For a document that is not \<^verbatim>\<open>null\<close>, \<^verbatim>\<open>parseBimJson\<close> fails with the
  \<^verbatim>\<open>MISSING_REQUIRED_FIELD\<close> error if and only if its \<^verbatim>\<open>model\<close> property is missing or
  falsy (\<^verbatim>\<open>null\<close>, \<^verbatim>\<open>false\<close>, \<^verbatim>\<open>0\<close>, \<^verbatim>\<open>""\<close>), and then returns no result; it raises no other
  \<^verbatim>\<open>TomParserError\<close>. When \<^verbatim>\<open>model\<close> is truthy, it succeeds on every document of the
  shape \<open>modelOk\<close>: each collection (\<^verbatim>\<open>cultures\<close>, \<^verbatim>\<open>annotations\<close>, \<^verbatim>\<open>tables\<close>, \<^verbatim>\<open>columns\<close>,
  \<^verbatim>\<open>partitions\<close>, \<^verbatim>\<open>measures\<close>, \<^verbatim>\<open>relationships\<close>) that is an array has no \<^verbatim>\<open>null\<close> item,
  table names and the \<^verbatim>\<open>fromTable\<close>/\<^verbatim>\<open>toTable\<close> of relationships are strings where
  given, and a column's \<^verbatim>\<open>dataType\<close> is not an array or an object. Missing fields and
  collections that are not arrays degrade to defaults: when none of the four
  collections of the model is an array, the result is the schema with defaulted name
  and compatibility level and empty lists.
\<close>

theorem parseBimJson_outcome:
  assumes "\<not> nullish json" and "m = field json ''model''"
  shows
    "(parseBimJson json opts = Inl (TomParserError MISSING_REQUIRED_FIELD None)
        \<longleftrightarrow> \<not> truthy m) \<and>
     (\<not> truthy m \<longrightarrow> \<not> succeeds (parseBimJson json opts)) \<and>
     (\<forall>code cause. parseBimJson json opts = Inl (TomParserError code cause) \<longrightarrow> \<not> truthy m) \<and>
     (truthy m \<and> modelOk m \<longrightarrow> succeeds (parseBimJson json opts)) \<and>
     (truthy m \<and> \<not> isArray (field m ''cultures'') \<and> \<not> isArray (field m ''annotations'') \<and>
      \<not> isArray (field m ''tables'') \<and> \<not> isArray (field m ''relationships'') \<longrightarrow>
      parseBimJson json opts =
        Inr \<lparr>TabularModel.model =
               \<lparr>DataModelSchema.name = coalesce (field m ''name'') (JStr ''Model''),
                DataModelSchema.compatibilityLevel =
                  coalesce (field m ''compatibilityLevel'') (JNum 0),
                DataModelSchema.cultures = [],
                DataModelSchema.annotations = []\<rparr>,
             TabularModel.tables = [],
             TabularModel.relationships = []\<rparr>)"
proof -
  have falsy: "parseBimJson json opts = Inl (TomParserError MISSING_REQUIRED_FIELD None)"
    if "\<not> truthy m"
    using parseBimJson_falsy [OF assms(1)] that by (simp add: assms(2))
  have no_tom: "parseBimJson json opts \<noteq> Inl (TomParserError code cause)"
    if "truthy m" for code cause
    using parseBimJson_truthy_TypeError [OF assms(1), of opts] that
    by (auto simp: assms(2))
  have ok: "succeeds (parseBimJson json opts)" if "truthy m" "modelOk m"
    using succeeds_parseBimJson [of json opts] that by (simp add: assms(2))
  show ?thesis
    using falsy no_tom ok parseBimJson_defaults [OF assms, of opts] by auto
qed

theorem parseBimJson_outcome_witness:
  "\<not> nullish (JObj [(''model'', JObj [(''name'', JNum 7), (''cultures'', JStr ''en''),
                      (''tables'', JBool True)])]) \<and>
   parseBimJson (JObj [(''model'', JObj [(''name'', JNum 7), (''cultures'', JStr ''en''),
                      (''tables'', JBool True)])]) None =
     Inr \<lparr>TabularModel.model =
            \<lparr>DataModelSchema.name = JNum 7,
             DataModelSchema.compatibilityLevel = JNum 0,
             DataModelSchema.cultures = [],
             DataModelSchema.annotations = []\<rparr>,
          TabularModel.tables = [],
          TabularModel.relationships = []\<rparr> \<and>
   modelOk (JObj [(''tables'', JArr [JObj [(''columns'', JArr [JObj [(''dataType'', JNum 1)]])]]),
                  (''relationships'', JArr [JObj [(''fromTable'', JStr ''t'')]])]) \<and>
   succeeds (parseBimJson
     (JObj [(''model'',
        JObj [(''tables'', JArr [JObj [(''columns'', JArr [JObj [(''dataType'', JNum 1)]])]]),
              (''relationships'', JArr [JObj [(''fromTable'', JStr ''t'')]])])]) None) \<and>
   parseBimJson (JObj [(''tables'', JArr [])]) None
     = Inl (TomParserError MISSING_REQUIRED_FIELD None)"
  using parseBimJson_outcome
          [of "JObj [(''model'', JObj [(''name'', JNum 7), (''cultures'', JStr ''en''),
                      (''tables'', JBool True)])]"
              "JObj [(''name'', JNum 7), (''cultures'', JStr ''en''), (''tables'', JBool True)]"
              None]
        parseBimJson_outcome
          [of "JObj [(''model'',
                 JObj [(''tables'', JArr [JObj [(''columns'', JArr [JObj [(''dataType'', JNum 1)]])]]),
                       (''relationships'', JArr [JObj [(''fromTable'', JStr ''t'')]])])]"
              "JObj [(''tables'', JArr [JObj [(''columns'', JArr [JObj [(''dataType'', JNum 1)]])]]),
                     (''relationships'', JArr [JObj [(''fromTable'', JStr ''t'')]])]"
              None]
        parseBimJson_outcome [of "JObj [(''tables'', JArr [])]" JUndefined None]
  by (simp add: field_JObj coalesce_def modelOk_def itemsOk_def tableOk_def columnOk_def
        relationshipOk_def stringOrAbsent_def anyItem_def)

section \<open>Hidden-object filtering\<close>

lemma filterE_keepItem:
  assumes "list_all (\<lambda>x. \<not> nullish x) xs"
  shows "filterE (keepItem h) xs = Inr (filter (\<lambda>x. visible x \<or> h) xs)"
  using assms by (induction xs) (simp_all add: keepItem_def get_field visible_def)

lemma mapE_list_all2: "mapE f xs = Inr ys \<longleftrightarrow> list_all2 (\<lambda>x y. f x = Inr y) xs ys"
proof (induction xs arbitrary: ys)
  case Nil
  show ?case by auto
next
  case (Cons a as)
  show ?case
    by (cases ys) (auto simp: bindE_eq_Inr Cons.IH)
qed

lemma parseTables_filter:
  assumes "list_all (\<lambda>x. \<not> nullish x) xs"
  shows "parseTables (JArr xs) h =
           mapE (\<lambda>t. parseTable t h) (filter (\<lambda>x. visible x \<or> h) xs)"
  by (simp add: parseTables_def filterE_keepItem [OF assms])

lemma parseColumns_filter:
  assumes "list_all (\<lambda>x. \<not> nullish x) xs"
  shows "parseColumns (JArr xs) h = mapE parseColumn (filter (\<lambda>x. visible x \<or> h) xs)"
  by (simp add: parseColumns_def filterE_keepItem [OF assms])

lemma parseMeasures_filter:
  assumes "list_all (\<lambda>x. \<not> nullish x) xs"
  shows "parseMeasures (JArr xs) h = mapE parseMeasure (filter (\<lambda>x. visible x \<or> h) xs)"
  by (simp add: parseMeasures_def filterE_keepItem [OF assms])

lemma parseTable_fields:
  assumes "parseTable t h = Inr T"
  shows "Table.isHidden T = field t ''isHidden''"
    and "parseColumns (coalesce (field t ''columns'') (JArr [])) h = Inr (Table.columns T)"
    and "parsePartitions (coalesce (field t ''partitions'') (JArr [])) = Inr (Table.partitions T)"
    and "parseMeasures (coalesce (field t ''measures'') (JArr [])) h = Inr (Table.measures T)"
  using assms by (auto simp: parseTable_def bindE_eq_Inr get_Inr_iff)

lemma parseColumn_isHidden:
  assumes "parseColumn c = Inr C"
  shows "Column.isHidden C = field c ''isHidden''"
  using assms
  by (auto simp: parseColumn_def bindE_eq_Inr get_Inr_iff Let_def split: if_splits)

lemma parseBimJson_tables:
  assumes "parseBimJson json opts = Inr r"
  shows "parseTables (coalesce (field (field json ''model'') ''tables'') (JArr []))
           (optionOrTrue opts includeHiddenObjects) = Inr (TabularModel.tables r)"
  using assms
  by (auto simp: parseBimJson_def bindE_eq_Inr get_Inr_iff Let_def split: if_splits)

lemma parseMeasure_isHidden:
  assumes "parseMeasure m = Inr y"
  shows "Measure.isHidden y = field m ''isHidden''"
  using assms by (auto simp: parseMeasure_def bindE_eq_Inr get_Inr_iff)

lemma mapE_length: "mapE f xs = Inr ys \<Longrightarrow> length ys = length xs"
  by (simp add: mapE_list_all2 list_all2_lengthD)

lemma parsePartitions_length:
  "parsePartitions (JArr xs) = Inr ps \<Longrightarrow> length ps = length xs"
  by (simp add: parsePartitions_def mapE_length)

lemma parseRelationships_length:
  "parseRelationships (JArr xs) tabs = Inr rs \<Longrightarrow> length rs = length xs"
  by (auto simp: parseRelationships_def bindE_eq_Inr Let_def mapE_length)

lemma hidden_tables_excluded:
  assumes "list_all (\<lambda>x. \<not> nullish x) xs"
    and "parseTables (JArr xs) False = Inr ts" and "T \<in> set ts"
  shows "\<not> truthy (Table.isHidden T)"
proof -
  from assms(2) have "mapE (\<lambda>t. parseTable t False) (filter visible xs) = Inr ts"
    by (simp add: parseTables_filter [OF assms(1)])
  from mapE_Inr_elem [OF this assms(3)] obtain t where
    "visible t" and "parseTable t False = Inr T" by auto
  then show ?thesis by (simp add: parseTable_fields(1) visible_def)
qed

text \<open>
  Claim C4. Let \<open>xs\<close> be the items of a raw array, none of them \<^verbatim>\<open>null\<close>, and call an item
  visible when its raw \<^verbatim>\<open>isHidden\<close> is not truthy.
  \<^item> With \<^verbatim>\<open>includeHiddenObjects\<close> false, the produced tables (columns, measures) are
    the normalizations of the visible items, one for one and in their original order;
    hidden items are dropped before normalization, so the result is the same as for
    the array without them, and no produced table has a truthy flag.
  \<^item> With \<^verbatim>\<open>includeHiddenObjects\<close> true, which is the default, every item is normalized,
    and the produced entity carries the raw \<^verbatim>\<open>isHidden\<close> unchanged.
  \<^item> The option is \<^verbatim>\<open>options?.includeHiddenObjects ?? true\<close>: an explicit \<^verbatim>\<open>false\<close> or \<^verbatim>\<open>true\<close>
    is the value used, and a missing option, or missing options, count as \<^verbatim>\<open>true\<close>.
  \<^item> The assembler applies that value to \<^verbatim>\<open>model.tables\<close>, and a table passes it on to
    its columns and measures, not to its partitions.
  \<^item> Partitions and relationships are never filtered: as many are produced as the raw
    array has items.
\<close>

theorem hidden_object_filtering:
  assumes "list_all (\<lambda>x. \<not> nullish x) xs"
  shows
    "(\<forall>ts. parseTables (JArr xs) False = Inr ts \<longleftrightarrow>
        list_all2 (\<lambda>t T. parseTable t False = Inr T) (filter visible xs) ts) \<and>
     (\<forall>cs. parseColumns (JArr xs) False = Inr cs \<longleftrightarrow>
        list_all2 (\<lambda>c C. parseColumn c = Inr C) (filter visible xs) cs) \<and>
     (\<forall>ms. parseMeasures (JArr xs) False = Inr ms \<longleftrightarrow>
        list_all2 (\<lambda>m y. parseMeasure m = Inr y) (filter visible xs) ms) \<and>
     parseTables (JArr xs) False = parseTables (JArr (filter visible xs)) False \<and>
     (\<forall>ts T. parseTables (JArr xs) False = Inr ts \<and> T \<in> set ts \<longrightarrow> \<not> truthy (Table.isHidden T)) \<and>
     (\<forall>ts. parseTables (JArr xs) True = Inr ts \<longleftrightarrow>
        list_all2 (\<lambda>t T. parseTable t True = Inr T) xs ts) \<and>
     (\<forall>cs. parseColumns (JArr xs) True = Inr cs \<longleftrightarrow>
        list_all2 (\<lambda>c C. parseColumn c = Inr C) xs cs) \<and>
     (\<forall>ms. parseMeasures (JArr xs) True = Inr ms \<longleftrightarrow>
        list_all2 (\<lambda>m y. parseMeasure m = Inr y) xs ms) \<and>
     (\<forall>json opts r. parseBimJson json opts = Inr r \<longrightarrow>
        parseTables (coalesce (field (field json ''model'') ''tables'') (JArr []))
          (optionOrTrue opts includeHiddenObjects) = Inr (TabularModel.tables r)) \<and>
     (\<forall>t h T. parseTable t h = Inr T \<longrightarrow>
        Table.isHidden T = field t ''isHidden'' \<and>
        parseColumns (coalesce (field t ''columns'') (JArr [])) h = Inr (Table.columns T) \<and>
        parsePartitions (coalesce (field t ''partitions'') (JArr [])) = Inr (Table.partitions T) \<and>
        parseMeasures (coalesce (field t ''measures'') (JArr [])) h = Inr (Table.measures T)) \<and>
     (\<forall>c C. parseColumn c = Inr C \<longrightarrow> Column.isHidden C = field c ''isHidden'') \<and>
     (\<forall>m y. parseMeasure m = Inr y \<longrightarrow> Measure.isHidden y = field m ''isHidden'') \<and>
     (\<forall>ps. parsePartitions (JArr xs) = Inr ps \<longrightarrow> length ps = length xs) \<and>
     (\<forall>tabs rs. parseRelationships (JArr xs) tabs = Inr rs \<longrightarrow> length rs = length xs) \<and>
     optionOrTrue None includeHiddenObjects \<and>
     (\<forall>a. optionOrTrue (Some \<lparr>includeAnnotations = a, includeHiddenObjects = None\<rparr>)
            includeHiddenObjects) \<and>
     (\<forall>a b. optionOrTrue (Some \<lparr>includeAnnotations = a, includeHiddenObjects = Some b\<rparr>)
            includeHiddenObjects = b) \<and>
     (\<forall>json a b r.
        parseBimJson json (Some \<lparr>includeAnnotations = a, includeHiddenObjects = Some b\<rparr>) = Inr r \<longrightarrow>
        parseTables (coalesce (field (field json ''model'') ''tables'') (JArr [])) b
          = Inr (TabularModel.tables r)) \<and>
     (\<forall>json a r.
        parseBimJson json (Some \<lparr>includeAnnotations = a, includeHiddenObjects = None\<rparr>) = Inr r \<longrightarrow>
        parseTables (coalesce (field (field json ''model'') ''tables'') (JArr [])) True
          = Inr (TabularModel.tables r)) \<and>
     (\<forall>json r.
        parseBimJson json None = Inr r \<longrightarrow>
        parseTables (coalesce (field (field json ''model'') ''tables'') (JArr [])) True
          = Inr (TabularModel.tables r))"
proof (intro conjI)
  show "\<forall>ts. parseTables (JArr xs) False = Inr ts \<longleftrightarrow>
          list_all2 (\<lambda>t T. parseTable t False = Inr T) (filter visible xs) ts"
    by (simp add: parseTables_filter [OF assms] mapE_list_all2)
  show "\<forall>cs. parseColumns (JArr xs) False = Inr cs \<longleftrightarrow>
          list_all2 (\<lambda>c C. parseColumn c = Inr C) (filter visible xs) cs"
    by (simp add: parseColumns_filter [OF assms] mapE_list_all2)
  show "\<forall>ms. parseMeasures (JArr xs) False = Inr ms \<longleftrightarrow>
          list_all2 (\<lambda>m y. parseMeasure m = Inr y) (filter visible xs) ms"
    by (simp add: parseMeasures_filter [OF assms] mapE_list_all2)
  have "list_all (\<lambda>x. \<not> nullish x) (filter visible xs)"
    using assms by (simp add: list_all_iff)
  then show "parseTables (JArr xs) False = parseTables (JArr (filter visible xs)) False"
    by (simp add: parseTables_filter [OF assms] parseTables_filter)
  show "\<forall>ts T. parseTables (JArr xs) False = Inr ts \<and> T \<in> set ts \<longrightarrow> \<not> truthy (Table.isHidden T)"
    using hidden_tables_excluded [OF assms] by blast
  show "\<forall>ts. parseTables (JArr xs) True = Inr ts \<longleftrightarrow>
          list_all2 (\<lambda>t T. parseTable t True = Inr T) xs ts"
    by (simp add: parseTables_filter [OF assms] mapE_list_all2)
  show "\<forall>cs. parseColumns (JArr xs) True = Inr cs \<longleftrightarrow>
          list_all2 (\<lambda>c C. parseColumn c = Inr C) xs cs"
    by (simp add: parseColumns_filter [OF assms] mapE_list_all2)
  show "\<forall>ms. parseMeasures (JArr xs) True = Inr ms \<longleftrightarrow>
          list_all2 (\<lambda>m y. parseMeasure m = Inr y) xs ms"
    by (simp add: parseMeasures_filter [OF assms] mapE_list_all2)
  show "\<forall>json opts r. parseBimJson json opts = Inr r \<longrightarrow>
        parseTables (coalesce (field (field json ''model'') ''tables'') (JArr []))
          (optionOrTrue opts includeHiddenObjects) = Inr (TabularModel.tables r)"
    using parseBimJson_tables by blast
  show "\<forall>t h T. parseTable t h = Inr T \<longrightarrow>
          Table.isHidden T = field t ''isHidden'' \<and>
          parseColumns (coalesce (field t ''columns'') (JArr [])) h = Inr (Table.columns T) \<and>
          parsePartitions (coalesce (field t ''partitions'') (JArr [])) = Inr (Table.partitions T) \<and>
          parseMeasures (coalesce (field t ''measures'') (JArr [])) h = Inr (Table.measures T)"
    using parseTable_fields by blast
  show "\<forall>c C. parseColumn c = Inr C \<longrightarrow> Column.isHidden C = field c ''isHidden''"
    using parseColumn_isHidden by blast
  show "\<forall>m y. parseMeasure m = Inr y \<longrightarrow> Measure.isHidden y = field m ''isHidden''"
    using parseMeasure_isHidden by blast
  show "\<forall>ps. parsePartitions (JArr xs) = Inr ps \<longrightarrow> length ps = length xs"
    using parsePartitions_length by blast
  show "\<forall>tabs rs. parseRelationships (JArr xs) tabs = Inr rs \<longrightarrow> length rs = length xs"
    using parseRelationships_length by blast
  show "optionOrTrue None includeHiddenObjects"
    by (simp add: optionOrTrue_def)
  show "\<forall>a. optionOrTrue (Some \<lparr>includeAnnotations = a, includeHiddenObjects = None\<rparr>)
              includeHiddenObjects"
    by (simp add: optionOrTrue_def)
  show "\<forall>a b. optionOrTrue (Some \<lparr>includeAnnotations = a, includeHiddenObjects = Some b\<rparr>)
              includeHiddenObjects = b"
    by (simp add: optionOrTrue_def)
  show "\<forall>json a b r.
        parseBimJson json (Some \<lparr>includeAnnotations = a, includeHiddenObjects = Some b\<rparr>) = Inr r \<longrightarrow>
        parseTables (coalesce (field (field json ''model'') ''tables'') (JArr [])) b
          = Inr (TabularModel.tables r)"
    using parseBimJson_tables by (fastforce simp: optionOrTrue_def)
  show "\<forall>json a r.
        parseBimJson json (Some \<lparr>includeAnnotations = a, includeHiddenObjects = None\<rparr>) = Inr r \<longrightarrow>
        parseTables (coalesce (field (field json ''model'') ''tables'') (JArr [])) True
          = Inr (TabularModel.tables r)"
    using parseBimJson_tables by (fastforce simp: optionOrTrue_def)
  show "\<forall>json r.
        parseBimJson json None = Inr r \<longrightarrow>
        parseTables (coalesce (field (field json ''model'') ''tables'') (JArr [])) True
          = Inr (TabularModel.tables r)"
    using parseBimJson_tables by (fastforce simp: optionOrTrue_def)
qed

text \<open>
  The example: of the tables \<^verbatim>\<open>A\<close> (hidden, with a \<^verbatim>\<open>null\<close> column) and \<^verbatim>\<open>B\<close> (with a hidden
  column \<^verbatim>\<open>k\<close> and a column \<^verbatim>\<open>v\<close>), filtering produces \<^verbatim>\<open>B\<close> with the column \<^verbatim>\<open>v\<close> and never
  visits the columns of \<^verbatim>\<open>A\<close>; without filtering the \<^verbatim>\<open>null\<close> column of \<^verbatim>\<open>A\<close> is visited and
  raises. Through \<^verbatim>\<open>parseBimJson\<close>, of the tables \<^verbatim>\<open>H\<close> (hidden) and \<^verbatim>\<open>V\<close>, the option
  \<^verbatim>\<open>false\<close> produces \<^verbatim>\<open>V\<close> alone, and the option \<^verbatim>\<open>true\<close> or no options produce both, \<^verbatim>\<open>H\<close>
  with its flag.
\<close>

theorem hidden_object_filtering_witness:
  "list_all (\<lambda>x. \<not> nullish x)
     [JObj [(''name'', JStr ''A''), (''isHidden'', JBool True), (''columns'', JArr [JNull])],
      JObj [(''name'', JStr ''B''),
            (''columns'', JArr [JObj [(''name'', JStr ''k''), (''isHidden'', JNum 1)],
                               JObj [(''name'', JStr ''v'')]])]] \<and>
   parseTables (JArr
     [JObj [(''name'', JStr ''A''), (''isHidden'', JBool True), (''columns'', JArr [JNull])],
      JObj [(''name'', JStr ''B''),
            (''columns'', JArr [JObj [(''name'', JStr ''k''), (''isHidden'', JNum 1)],
                               JObj [(''name'', JStr ''v'')]])]]) False =
     Inr [\<lparr>Table.name = JStr ''B'', Table.description = JUndefined,
           Table.isHidden = JUndefined,
           Table.columns =
             [\<lparr>Column.name = JStr ''v'', Column.dataType = Member DataType.Unknown,
               Column.isHidden = JUndefined, Column.description = JUndefined,
               Column.expression = None, Column.formatString = None,
               Column.summarization = None\<rparr>],
           Table.partitions = [], Table.measures = []\<rparr>] \<and>
   parseTables (JArr
     [JObj [(''name'', JStr ''A''), (''isHidden'', JBool True), (''columns'', JArr [JNull])],
      JObj [(''name'', JStr ''B''),
            (''columns'', JArr [JObj [(''name'', JStr ''k''), (''isHidden'', JNum 1)],
                               JObj [(''name'', JStr ''v'')]])]]) True = Inl TypeError \<and>
   parseBimJson
     (JObj [(''model'',
        JObj [(''tables'',
               JArr [JObj [(''name'', JStr ''H''), (''isHidden'', JBool True)],
                     JObj [(''name'', JStr ''V'')]])])])
     (Some \<lparr>includeAnnotations = None, includeHiddenObjects = Some False\<rparr>) =
     Inr \<lparr>TabularModel.model =
            \<lparr>DataModelSchema.name = JStr ''Model'', DataModelSchema.compatibilityLevel = JNum 0,
             DataModelSchema.cultures = [], DataModelSchema.annotations = []\<rparr>,
          TabularModel.tables =
            [\<lparr>Table.name = JStr ''V'', Table.description = JUndefined,
              Table.isHidden = JUndefined, Table.columns = [], Table.partitions = [],
              Table.measures = []\<rparr>],
          TabularModel.relationships = []\<rparr> \<and>
   parseBimJson
     (JObj [(''model'',
        JObj [(''tables'',
               JArr [JObj [(''name'', JStr ''H''), (''isHidden'', JBool True)],
                     JObj [(''name'', JStr ''V'')]])])])
     (Some \<lparr>includeAnnotations = None, includeHiddenObjects = Some True\<rparr>) =
     Inr \<lparr>TabularModel.model =
            \<lparr>DataModelSchema.name = JStr ''Model'', DataModelSchema.compatibilityLevel = JNum 0,
             DataModelSchema.cultures = [], DataModelSchema.annotations = []\<rparr>,
          TabularModel.tables =
            [\<lparr>Table.name = JStr ''H'', Table.description = JUndefined,
              Table.isHidden = JBool True, Table.columns = [], Table.partitions = [],
              Table.measures = []\<rparr>,
             \<lparr>Table.name = JStr ''V'', Table.description = JUndefined,
              Table.isHidden = JUndefined, Table.columns = [], Table.partitions = [],
              Table.measures = []\<rparr>],
          TabularModel.relationships = []\<rparr> \<and>
   parseBimJson
     (JObj [(''model'',
        JObj [(''tables'',
               JArr [JObj [(''name'', JStr ''H''), (''isHidden'', JBool True)],
                     JObj [(''name'', JStr ''V'')]])])])
     None =
     Inr \<lparr>TabularModel.model =
            \<lparr>DataModelSchema.name = JStr ''Model'', DataModelSchema.compatibilityLevel = JNum 0,
             DataModelSchema.cultures = [], DataModelSchema.annotations = []\<rparr>,
          TabularModel.tables =
            [\<lparr>Table.name = JStr ''H'', Table.description = JUndefined,
              Table.isHidden = JBool True, Table.columns = [], Table.partitions = [],
              Table.measures = []\<rparr>,
             \<lparr>Table.name = JStr ''V'', Table.description = JUndefined,
              Table.isHidden = JUndefined, Table.columns = [], Table.partitions = [],
              Table.measures = []\<rparr>],
          TabularModel.relationships = []\<rparr>"
proof -
  have direct:
    "list_all (\<lambda>x. \<not> nullish x)
     [JObj [(''name'', JStr ''A''), (''isHidden'', JBool True), (''columns'', JArr [JNull])],
      JObj [(''name'', JStr ''B''),
            (''columns'', JArr [JObj [(''name'', JStr ''k''), (''isHidden'', JNum 1)],
                               JObj [(''name'', JStr ''v'')]])]] \<and>
   parseTables (JArr
     [JObj [(''name'', JStr ''A''), (''isHidden'', JBool True), (''columns'', JArr [JNull])],
      JObj [(''name'', JStr ''B''),
            (''columns'', JArr [JObj [(''name'', JStr ''k''), (''isHidden'', JNum 1)],
                               JObj [(''name'', JStr ''v'')]])]]) False =
     Inr [\<lparr>Table.name = JStr ''B'', Table.description = JUndefined,
           Table.isHidden = JUndefined,
           Table.columns =
             [\<lparr>Column.name = JStr ''v'', Column.dataType = Member DataType.Unknown,
               Column.isHidden = JUndefined, Column.description = JUndefined,
               Column.expression = None, Column.formatString = None,
               Column.summarization = None\<rparr>],
           Table.partitions = [], Table.measures = []\<rparr>] \<and>
   parseTables (JArr
     [JObj [(''name'', JStr ''A''), (''isHidden'', JBool True), (''columns'', JArr [JNull])],
      JObj [(''name'', JStr ''B''),
            (''columns'', JArr [JObj [(''name'', JStr ''k''), (''isHidden'', JNum 1)],
                               JObj [(''name'', JStr ''v'')]])]]) True = Inl TypeError"
    using hidden_object_filtering
      [of "[JObj [(''name'', JStr ''A''), (''isHidden'', JBool True), (''columns'', JArr [JNull])],
            JObj [(''name'', JStr ''B''),
                  (''columns'', JArr [JObj [(''name'', JStr ''k''), (''isHidden'', JNum 1)],
                                     JObj [(''name'', JStr ''v'')]])]]"]
    by (simp add: parseTables_def parseTable_def parseColumns_def parseColumn_def keepItem_def
          parsePartitions_def parseMeasures_def coalesce_def mapDataType_def getOpt_def)
  have explicit_false:
    "parseBimJson
     (JObj [(''model'',
        JObj [(''tables'',
               JArr [JObj [(''name'', JStr ''H''), (''isHidden'', JBool True)],
                     JObj [(''name'', JStr ''V'')]])])])
     (Some \<lparr>includeAnnotations = None, includeHiddenObjects = Some False\<rparr>) =
     Inr \<lparr>TabularModel.model =
            \<lparr>DataModelSchema.name = JStr ''Model'', DataModelSchema.compatibilityLevel = JNum 0,
             DataModelSchema.cultures = [], DataModelSchema.annotations = []\<rparr>,
          TabularModel.tables =
            [\<lparr>Table.name = JStr ''V'', Table.description = JUndefined,
              Table.isHidden = JUndefined, Table.columns = [], Table.partitions = [],
              Table.measures = []\<rparr>],
          TabularModel.relationships = []\<rparr>"
    by code_simp
  have explicit_true:
    "parseBimJson
     (JObj [(''model'',
        JObj [(''tables'',
               JArr [JObj [(''name'', JStr ''H''), (''isHidden'', JBool True)],
                     JObj [(''name'', JStr ''V'')]])])])
     (Some \<lparr>includeAnnotations = None, includeHiddenObjects = Some True\<rparr>) =
     Inr \<lparr>TabularModel.model =
            \<lparr>DataModelSchema.name = JStr ''Model'', DataModelSchema.compatibilityLevel = JNum 0,
             DataModelSchema.cultures = [], DataModelSchema.annotations = []\<rparr>,
          TabularModel.tables =
            [\<lparr>Table.name = JStr ''H'', Table.description = JUndefined,
              Table.isHidden = JBool True, Table.columns = [], Table.partitions = [],
              Table.measures = []\<rparr>,
             \<lparr>Table.name = JStr ''V'', Table.description = JUndefined,
              Table.isHidden = JUndefined, Table.columns = [], Table.partitions = [],
              Table.measures = []\<rparr>],
          TabularModel.relationships = []\<rparr>"
    by code_simp
  have no_options:
    "parseBimJson
     (JObj [(''model'',
        JObj [(''tables'',
               JArr [JObj [(''name'', JStr ''H''), (''isHidden'', JBool True)],
                     JObj [(''name'', JStr ''V'')]])])])
     None =
     Inr \<lparr>TabularModel.model =
            \<lparr>DataModelSchema.name = JStr ''Model'', DataModelSchema.compatibilityLevel = JNum 0,
             DataModelSchema.cultures = [], DataModelSchema.annotations = []\<rparr>,
          TabularModel.tables =
            [\<lparr>Table.name = JStr ''H'', Table.description = JUndefined,
              Table.isHidden = JBool True, Table.columns = [], Table.partitions = [],
              Table.measures = []\<rparr>,
             \<lparr>Table.name = JStr ''V'', Table.description = JUndefined,
              Table.isHidden = JUndefined, Table.columns = [], Table.partitions = [],
              Table.measures = []\<rparr>],
          TabularModel.relationships = []\<rparr>"
    by code_simp
  note f1 = direct [THEN conjunct1]
    and f2 = direct [THEN conjunct2, THEN conjunct1]
    and f3 = direct [THEN conjunct2, THEN conjunct2]
  from f1 f2 f3 explicit_false explicit_true no_options show ?thesis by (intro conjI)
qed

section \<open>Relationship resolution\<close>


lemma newMap_snoc: "newMap (es @ [(k, v)]) k' = (if k' = k then Some v else newMap es k')"
  by (simp add: newMap_def)

lemma newMap_map_of_rev: "newMap es = map_of (rev es)"
proof (induction es rule: rev_induct)
  case Nil
  show ?case by (simp add: newMap_def)
next
  case (snoc e es)
  obtain k v where e: "e = (k, v)" by (cases e)
  show ?case
    by (rule ext) (simp add: e newMap_snoc snoc.IH)
qed









subsection \<open>Lower-casing and equality ignoring case\<close>








subsection \<open>What the index holds\<close>



subsection \<open>When relationship resolution returns\<close>


lemma callToLowerCase_Inr_iff: "callToLowerCase v = Inr k \<longleftrightarrow> (\<exists>s. v = JStr s \<and> k = toLowerCase s)"
  by (cases v) auto











section \<open>Encoding detector\<close>

text \<open>What the detector does with each marker: the marker is decoded with the rest and
  then dropped as the first code unit, which for UTF-16 is the same as decoding the
  bytes after the marker.\<close>

lemma detectAndDecodeBom_utf16le_marker:
  "detectAndDecodeBom utf8 (0xFF # 0xFE # rest) = Inr (utf16le rest)"
  by (simp add: detectAndDecodeBom_def)

lemma detectAndDecodeBom_utf16be_marker:
  assumes "even (length rest)"
  shows "detectAndDecodeBom utf8 (0xFE # 0xFF # rest) = Inr (utf16le (swapPairs rest))"
  using assms by (simp add: detectAndDecodeBom_def swap16_def)

lemma detectAndDecodeBom_utf8_marker:
  "detectAndDecodeBom utf8 (0xEF # 0xBB # 0xBF # rest) = Inr (drop 1 (utf8 (0xEF # 0xBB # 0xBF # rest)))"
  by (simp add: detectAndDecodeBom_def)

lemma detectAndDecodeBom_heuristic:
  assumes "b0 \<noteq> 0"
  shows "detectAndDecodeBom utf8 (b0 # 0 # b2 # 0 # rest) = Inr (utf16le (b0 # 0 # b2 # 0 # rest))"
  using assms by (simp add: detectAndDecodeBom_def)

lemma detectAndDecodeBom_fails_iff:
  "(\<exists>e. detectAndDecodeBom utf8 buffer = Inl e) \<longleftrightarrow>
     length buffer \<ge> 2 \<and> buffer ! 0 = 0xFE \<and> buffer ! 1 = 0xFF \<and> odd (length buffer)"
  by (auto simp: detectAndDecodeBom_def swap16_def Let_def)

text \<open>
  Claim C2. The encoding detector is total: for every byte sequence it never fails
  and returns some text. The code does not do that on a buffer of odd length that
  starts with the UTF-16 big-endian marker, such as \<^verbatim>\<open>FE FF 41\<close>: \<^verbatim>\<open>buffer.swap16()\<close>
  throws a \<open>RangeError\<close>. (The little-endian branch accepts the same shape of input:
  the decoder ignores the last odd byte.)
\<close>

theorem detectAndDecodeBom_odd_big_endian:
  "detectAndDecodeBom utf8 [0xFE, 0xFF, 0x41] = Inl (RangeError ''ERR_INVALID_BUFFER_SIZE'') \<and>
   detectAndDecodeBom utf8 [0xFF, 0xFE, 0x41] = Inr []"
  by (simp add: detectAndDecodeBom_def swap16_def)

section \<open>Document loader\<close>

lemma parseBimFile_cases:
  "parseBimFile readFile utf8 jsonParse p opts =
     (case parseBimFile_try readFile utf8 jsonParse p opts of
        Inr r \<Rightarrow> Inr r
      | Inl e \<Rightarrow>
          if isTomParserError e then Inl e
          else if errorCode e = Some ''ENOENT'' then Inl (TomParserError FILE_NOT_FOUND (Some e))
          else if e = SyntaxError then Inl (TomParserError INVALID_JSON (Some e))
          else Inl (TomParserError ''UNKNOWN'' (Some e)))"
  by (simp add: parseBimFile_def)

lemma isTomParserError_iff: "isTomParserError e \<longleftrightarrow> (\<exists>code cause. e = TomParserError code cause)"
  by (cases e) simp_all

text \<open>
  Claim C8. \<^verbatim>\<open>parseBimFile\<close> maps failures by first match. Whatever step of the \<^verbatim>\<open>try\<close>
  block throws (the byte read, the decoder, the deserializer or the assembler):
  \<^item> a \<^verbatim>\<open>TomParserError\<close>, in particular one from the assembler, is rethrown unchanged;
  \<^item> otherwise an error with code \<^verbatim>\<open>ENOENT\<close>, in particular the file-not-found condition
    of the byte read, becomes \<^verbatim>\<open>FILE_NOT_FOUND\<close>;
  \<^item> otherwise a \<open>SyntaxError\<close>, in particular one from deserialization, becomes
    \<^verbatim>\<open>INVALID_JSON\<close>;
  \<^item> any other failure becomes the generic kind \<^verbatim>\<open>UNKNOWN\<close>;
  \<^item> every wrapped error has the original failure as its cause;
  and when nothing throws, the assembler's result is returned.
\<close>

theorem parseBimFile_failure_mapping:
  "(\<forall>code cause. parseBimFile_try readFile utf8 jsonParse p opts = Inl (TomParserError code cause)
      \<longrightarrow> parseBimFile readFile utf8 jsonParse p opts = Inl (TomParserError code cause)) \<and>
   (\<forall>buffer content json code cause.
      readFile p = Inr buffer \<and> detectAndDecodeBom utf8 buffer = Inr content \<and>
      jsonParse content = Inr json \<and> parseBimJson json opts = Inl (TomParserError code cause)
      \<longrightarrow> parseBimFile readFile utf8 jsonParse p opts = Inl (TomParserError code cause)) \<and>
   (\<forall>e. parseBimFile_try readFile utf8 jsonParse p opts = Inl e \<and>
        \<not> isTomParserError e \<and> errorCode e = Some ''ENOENT''
      \<longrightarrow> parseBimFile readFile utf8 jsonParse p opts = Inl (TomParserError FILE_NOT_FOUND (Some e))) \<and>
   (readFile p = Inl (ErrnoException ''ENOENT'')
      \<longrightarrow> parseBimFile readFile utf8 jsonParse p opts =
            Inl (TomParserError FILE_NOT_FOUND (Some (ErrnoException ''ENOENT'')))) \<and>
   (parseBimFile_try readFile utf8 jsonParse p opts = Inl SyntaxError
      \<longrightarrow> parseBimFile readFile utf8 jsonParse p opts =
            Inl (TomParserError INVALID_JSON (Some SyntaxError))) \<and>
   (\<forall>buffer content.
      readFile p = Inr buffer \<and> detectAndDecodeBom utf8 buffer = Inr content \<and>
      jsonParse content = Inl SyntaxError
      \<longrightarrow> parseBimFile readFile utf8 jsonParse p opts =
            Inl (TomParserError INVALID_JSON (Some SyntaxError))) \<and>
   (\<forall>e. parseBimFile_try readFile utf8 jsonParse p opts = Inl e \<and>
        \<not> isTomParserError e \<and> errorCode e \<noteq> Some ''ENOENT'' \<and> e \<noteq> SyntaxError
      \<longrightarrow> parseBimFile readFile utf8 jsonParse p opts = Inl (TomParserError ''UNKNOWN'' (Some e))) \<and>
   (\<forall>e. parseBimFile_try readFile utf8 jsonParse p opts = Inl e \<and> \<not> isTomParserError e
      \<longrightarrow> (\<exists>code. parseBimFile readFile utf8 jsonParse p opts = Inl (TomParserError code (Some e)))) \<and>
   (\<forall>r. parseBimFile_try readFile utf8 jsonParse p opts = Inr r
      \<longrightarrow> parseBimFile readFile utf8 jsonParse p opts = Inr r)"
proof (intro conjI allI impI)
  fix code cause
  assume "parseBimFile_try readFile utf8 jsonParse p opts = Inl (TomParserError code cause)"
  then show "parseBimFile readFile utf8 jsonParse p opts = Inl (TomParserError code cause)"
    by (simp add: parseBimFile_cases)
next
  fix buffer content json code cause
  assume "readFile p = Inr buffer \<and> detectAndDecodeBom utf8 buffer = Inr content \<and>
      jsonParse content = Inr json \<and> parseBimJson json opts = Inl (TomParserError code cause)"
  then have "parseBimFile_try readFile utf8 jsonParse p opts = Inl (TomParserError code cause)"
    by (simp add: parseBimFile_try_def)
  then show "parseBimFile readFile utf8 jsonParse p opts = Inl (TomParserError code cause)"
    by (simp add: parseBimFile_cases)
next
  fix e
  assume "parseBimFile_try readFile utf8 jsonParse p opts = Inl e \<and>
        \<not> isTomParserError e \<and> errorCode e = Some ''ENOENT''"
  then show "parseBimFile readFile utf8 jsonParse p opts = Inl (TomParserError FILE_NOT_FOUND (Some e))"
    by (simp add: parseBimFile_cases)
next
  assume "readFile p = Inl (ErrnoException ''ENOENT'')"
  then have "parseBimFile_try readFile utf8 jsonParse p opts = Inl (ErrnoException ''ENOENT'')"
    by (simp add: parseBimFile_try_def)
  then show "parseBimFile readFile utf8 jsonParse p opts =
            Inl (TomParserError FILE_NOT_FOUND (Some (ErrnoException ''ENOENT'')))"
    by (simp add: parseBimFile_cases)
next
  assume "parseBimFile_try readFile utf8 jsonParse p opts = Inl SyntaxError"
  then show "parseBimFile readFile utf8 jsonParse p opts =
            Inl (TomParserError INVALID_JSON (Some SyntaxError))"
    by (simp add: parseBimFile_cases)
next
  fix buffer content
  assume "readFile p = Inr buffer \<and> detectAndDecodeBom utf8 buffer = Inr content \<and>
      jsonParse content = Inl SyntaxError"
  then have "parseBimFile_try readFile utf8 jsonParse p opts = Inl SyntaxError"
    by (simp add: parseBimFile_try_def)
  then show "parseBimFile readFile utf8 jsonParse p opts =
            Inl (TomParserError INVALID_JSON (Some SyntaxError))"
    by (simp add: parseBimFile_cases)
next
  fix e
  assume "parseBimFile_try readFile utf8 jsonParse p opts = Inl e \<and>
        \<not> isTomParserError e \<and> errorCode e \<noteq> Some ''ENOENT'' \<and> e \<noteq> SyntaxError"
  then show "parseBimFile readFile utf8 jsonParse p opts = Inl (TomParserError ''UNKNOWN'' (Some e))"
    by (simp add: parseBimFile_cases)
next
  fix e
  assume "parseBimFile_try readFile utf8 jsonParse p opts = Inl e \<and> \<not> isTomParserError e"
  then show "\<exists>code. parseBimFile readFile utf8 jsonParse p opts = Inl (TomParserError code (Some e))"
    by (simp add: parseBimFile_cases)
next
  fix r
  assume "parseBimFile_try readFile utf8 jsonParse p opts = Inr r"
  then show "parseBimFile readFile utf8 jsonParse p opts = Inr r"
    by (simp add: parseBimFile_cases)
qed

theorem parseBimFile_failure_mapping_witness:
  "oneFile ''missing.bim'' = Inl (ErrnoException ''ENOENT'') \<and>
   parseBimFile oneFile asciiDecode parseBraces ''missing.bim'' None =
     Inl (TomParserError FILE_NOT_FOUND (Some (ErrnoException ''ENOENT''))) \<and>
   parseBimFile_try oneFile asciiDecode parseBraces ''model.bim'' None =
     Inl (TomParserError MISSING_REQUIRED_FIELD None) \<and>
   parseBimFile oneFile asciiDecode parseBraces ''model.bim'' None =
     Inl (TomParserError MISSING_REQUIRED_FIELD None)"
proof -
  have missing: "oneFile ''missing.bim'' = Inl (ErrnoException ''ENOENT'')"
    by (simp add: oneFile_def)
  have body: "parseBimFile_try oneFile asciiDecode parseBraces ''model.bim'' None =
                Inl (TomParserError MISSING_REQUIRED_FIELD None)"
    by (simp add: parseBimFile_try_def oneFile_def detectAndDecodeBom_def asciiDecode_def
          parseBraces_def parseBimJson_def)
  note m = parseBimFile_failure_mapping [of oneFile asciiDecode parseBraces _ None]
  from m [of "''missing.bim''", THEN conjunct2, THEN conjunct2, THEN conjunct2, THEN conjunct1]
    missing
  have "parseBimFile oneFile asciiDecode parseBraces ''missing.bim'' None =
          Inl (TomParserError FILE_NOT_FOUND (Some (ErrnoException ''ENOENT'')))"
    by simp
  moreover from m [of "''model.bim''", THEN conjunct1] body
  have "parseBimFile oneFile asciiDecode parseBraces ''model.bim'' None =
          Inl (TomParserError MISSING_REQUIRED_FIELD None)"
    by simp
  ultimately show ?thesis using missing body by simp
qed

section \<open>The assembler writes to new cells only\<close>

text \<open>The rules for \<open>keeps\<close> are in continuation form, so that a sequence of steps is
  verified from its first step to its last.\<close>

lemma keepsI:
  assumes "\<And>s r s'. n \<le> length s \<Longrightarrow> m s = (r, s') \<Longrightarrow>
             n \<le> length s' \<and> take n s' = take n s \<and> (\<forall>x. r = Inr x \<longrightarrow> Q x)"
  shows "keeps n m Q"
  using assms unfolding keeps_def by blast

lemma keepsD:
  assumes "keeps n m Q" and "n \<le> length s" and "m s = (r, s')"
  shows "n \<le> length s'" and "take n s' = take n s" and "r = Inr x \<Longrightarrow> Q x"
  using assms unfolding keeps_def by blast+

lemma keeps_weaken:
  assumes "keeps n m P" and "\<And>x. P x \<Longrightarrow> Q x"
  shows "keeps n m Q"
  using assms unfolding keeps_def by blast

lemma keeps_return: "Q x \<Longrightarrow> keeps n (returnS x) Q"
  by (simp add: keeps_def returnS_def)

lemma keeps_throw: "keeps n (throwS e) Q"
  by (simp add: keeps_def throwS_def)

lemma keeps_read: "(\<And>x. Q x) \<Longrightarrow> keeps n (readS f) Q"
  by (simp add: keeps_def readS_def)

lemma keeps_alloc:
  assumes "\<And>a. n \<le> a \<Longrightarrow> Q (HRef a)"
  shows "keeps n (allocS cell) Q"
  using assms by (auto simp: keeps_def allocS_def)

lemma keeps_set:
  assumes "n \<le> a" and "Q ()"
  shows "keeps n (setS (HRef a) k v) Q"
proof (rule keepsI)
  fix s r s'
  assume n: "n \<le> length s" and run: "setS (HRef a) k v s = (r, s')"
  have "take n (s[a := c]) = take n s" for c
    using assms(1) by simp
  with n run assms(2) show "n \<le> length s' \<and> take n s' = take n s \<and> (\<forall>x. r = Inr x \<longrightarrow> Q x)"
    by (auto simp: setS_def split: if_splits hobj.splits)
qed

lemma keeps_bind:
  assumes "keeps n m (\<lambda>x. keeps n (f x) Q)"
  shows "keeps n (bindS m f) Q"
proof (rule keepsI)
  fix s r s'
  assume n: "n \<le> length s" and run: "bindS m f s = (r, s')"
  obtain r1 s1 where m: "m s = (r1, s1)" by (cases "m s")
  note first = keepsD [OF assms n m]
  show "n \<le> length s' \<and> take n s' = take n s \<and> (\<forall>x. r = Inr x \<longrightarrow> Q x)"
  proof (cases r1)
    case (Inl e)
    with run m have "r = Inl e" "s' = s1" by (simp_all add: bindS_def)
    with first(1,2) show ?thesis by simp
  next
    case (Inr y)
    with run m have f: "f y s1 = (r, s')" by (simp add: bindS_def)
    from first(3) [OF Inr] have "keeps n (f y) Q" .
    from keepsD [OF this first(1) f] first(2) show ?thesis by auto
  qed
qed

lemma keeps_get: "(\<And>x. Q x) \<Longrightarrow> keeps n (getS v k) Q"
  by (simp add: getS_def keeps_throw keeps_read)

lemma keeps_getOpt: "(\<And>x. Q x) \<Longrightarrow> keeps n (getOptS v k) Q"
  by (simp add: getOptS_def keeps_return keeps_get)

lemma keeps_if:
  assumes "c \<Longrightarrow> keeps n a Q" and "\<not> c \<Longrightarrow> keeps n b Q"
  shows "keeps n (if c then a else b) Q"
  using assms by simp

lemma keeps_mapS:
  assumes "\<And>x. x \<in> set xs \<Longrightarrow> keeps n (f x) (\<lambda>y. True)" and "\<And>ys. Q ys"
  shows "keeps n (mapS f xs) Q"
proof -
  have "keeps n (mapS f xs) (\<lambda>ys. True)"
    using assms(1)
  proof (induction xs)
    case Nil
    show ?case by (simp add: keeps_return)
  next
    case (Cons a as)
    have "keeps n (f a) (\<lambda>y. True)" and rest: "keeps n (mapS f as) (\<lambda>ys. True)"
      using Cons by simp_all
    then have "keeps n (f a) (\<lambda>y. keeps n (bindS (mapS f as) (\<lambda>ys. returnS (y # ys))) (\<lambda>ys. True))"
      by (auto intro!: keeps_bind keeps_return elim: keeps_weaken)
    then show ?case by (simp add: keeps_bind)
  qed
  then show ?thesis by (rule keeps_weaken) (rule assms(2))
qed

lemma keeps_filterS:
  assumes "\<And>x. x \<in> set xs \<Longrightarrow> keeps n (p x) (\<lambda>y. True)" and "\<And>ys. Q ys"
  shows "keeps n (filterS p xs) Q"
proof -
  have "keeps n (filterS p xs) (\<lambda>ys. True)"
    using assms(1)
  proof (induction xs)
    case Nil
    show ?case by (simp add: keeps_return)
  next
    case (Cons a as)
    have "keeps n (p a) (\<lambda>y. True)" and rest: "keeps n (filterS p as) (\<lambda>ys. True)"
      using Cons by simp_all
    then have "keeps n (p a)
        (\<lambda>b. keeps n (bindS (filterS p as) (\<lambda>ys. returnS (if b then a # ys else ys))) (\<lambda>ys. True))"
      by (auto intro!: keeps_bind keeps_return elim: keeps_weaken)
    then show ?case by (simp add: keeps_bind)
  qed
  then show ?thesis by (rule keeps_weaken) (rule assms(2))
qed

lemma keeps_itemsOrThrow: "(\<And>xs. Q xs) \<Longrightarrow> keeps n (itemsOrThrowS v) Q"
  by (auto simp: itemsOrThrowS_def intro!: keeps_bind keeps_read keeps_throw keeps_return
           split: option.splits)

lemma keeps_orEmptyArray: "(\<And>x. Q x) \<Longrightarrow> keeps n (orEmptyArrayS v) Q"
  by (auto simp: orEmptyArrayS_def intro!: keeps_alloc keeps_return)

lemma keeps_callToLowerCase: "(\<And>x. Q x) \<Longrightarrow> keeps n (callToLowerCaseS v) Q"
  by (cases v) (simp_all add: keeps_return keeps_throw)

lemma keeps_mapGet: "(\<And>x. Q x) \<Longrightarrow> keeps n (mapGetS tm k) Q"
  by (simp add: mapGetS_def keeps_read)

lemma keeps_keyOf: "(\<And>x. Q x) \<Longrightarrow> keeps n (\<lambda>s. (keyOf s v, s)) Q"
  by (simp add: keeps_def)

lemmas keeps_steps =
  keeps_bind keeps_get keeps_getOpt keeps_read keeps_alloc keeps_set keeps_return keeps_throw
  keeps_if keeps_itemsOrThrow keeps_orEmptyArray keeps_callToLowerCase keeps_mapGet keeps_keyOf

text \<open>Every normalizer keeps the cells that exist when it starts and returns the
  address of a cell created after that, or a primitive made by an enum mapper.\<close>

lemma keeps_mapDataType: "(\<And>x. Q x) \<Longrightarrow> keeps n (mapDataTypeS keyOf v) Q"
  by (auto simp: mapDataTypeS_def intro!: keeps_steps)

lemma keeps_mapPartitionSourceType: "(\<And>x. Q x) \<Longrightarrow> keeps n (mapPartitionSourceTypeS v) Q"
  by (auto simp: mapPartitionSourceTypeS_def intro!: keeps_steps)

lemma keeps_parseAnnotation:
  "(\<And>a. n \<le> a \<Longrightarrow> Q (HRef a)) \<Longrightarrow> keeps n (parseAnnotationS v) Q"
  by (auto simp: parseAnnotationS_def intro!: keeps_steps)

lemma keeps_parseAnnotations:
  "(\<And>a. n \<le> a \<Longrightarrow> Q (HRef a)) \<Longrightarrow> keeps n (parseAnnotationsS v) Q"
  by (auto simp: parseAnnotationsS_def intro!: keeps_steps keeps_mapS keeps_parseAnnotation
           split: option.splits)

lemma keeps_parseCulture:
  "(\<And>a. n \<le> a \<Longrightarrow> Q (HRef a)) \<Longrightarrow> keeps n (parseCultureS inc v) Q"
  by (auto simp: parseCultureS_def intro!: keeps_steps keeps_parseAnnotations)

lemma keeps_parseDataModelSchema:
  "(\<And>a. n \<le> a \<Longrightarrow> Q (HRef a)) \<Longrightarrow> keeps n (parseDataModelSchemaS v inc) Q"
  by (auto simp: parseDataModelSchemaS_def
           intro!: keeps_steps keeps_mapS keeps_parseCulture keeps_parseAnnotations
           split: option.splits)

lemma keeps_parseColumn:
  "(\<And>a. n \<le> a \<Longrightarrow> Q (HRef a)) \<Longrightarrow> keeps n (parseColumnS keyOf v) Q"
  by (auto simp: parseColumnS_def intro!: keeps_steps keeps_mapDataType)

lemma keeps_keepItem: "(\<And>b. Q b) \<Longrightarrow> keeps n (keepItemS h x) Q"
  by (auto simp: keepItemS_def intro!: keeps_steps)

lemma keeps_filterMap:
  assumes "\<And>x. keeps n (f x) (\<lambda>y. True)" and "\<And>a. n \<le> a \<Longrightarrow> Q (HRef a)"
  shows "keeps n (filterMapS h f v) Q"
  using assms
  by (auto simp: filterMapS_def intro!: keeps_steps keeps_mapS keeps_filterS keeps_keepItem
           split: option.splits)

lemma keeps_parseColumns:
  "(\<And>a. n \<le> a \<Longrightarrow> Q (HRef a)) \<Longrightarrow> keeps n (parseColumnsS keyOf v h) Q"
  by (auto simp: parseColumnsS_def intro!: keeps_filterMap keeps_parseColumn)

lemma keeps_sourceField: "(\<And>x. Q x) \<Longrightarrow> keeps n (sourceFieldS p k) Q"
  by (auto simp: sourceFieldS_def intro!: keeps_steps)

lemma keeps_parsePartition:
  "(\<And>a. n \<le> a \<Longrightarrow> Q (HRef a)) \<Longrightarrow> keeps n (parsePartitionS v) Q"
  by (auto simp: parsePartitionS_def
           intro!: keeps_steps keeps_mapPartitionSourceType keeps_sourceField)

lemma keeps_parsePartitions:
  "(\<And>a. n \<le> a \<Longrightarrow> Q (HRef a)) \<Longrightarrow> keeps n (parsePartitionsS v) Q"
  by (auto simp: parsePartitionsS_def intro!: keeps_steps keeps_mapS keeps_parsePartition
           split: option.splits)

lemma keeps_parseMeasure:
  "(\<And>a. n \<le> a \<Longrightarrow> Q (HRef a)) \<Longrightarrow> keeps n (parseMeasureS v) Q"
  by (auto simp: parseMeasureS_def intro!: keeps_steps)

lemma keeps_parseMeasures:
  "(\<And>a. n \<le> a \<Longrightarrow> Q (HRef a)) \<Longrightarrow> keeps n (parseMeasuresS v h) Q"
  by (auto simp: parseMeasuresS_def intro!: keeps_filterMap keeps_parseMeasure)

lemma keeps_parseTable:
  "(\<And>a. n \<le> a \<Longrightarrow> Q (HRef a)) \<Longrightarrow> keeps n (parseTableS keyOf v h) Q"
  by (auto simp: parseTableS_def
           intro!: keeps_steps keeps_parseColumns keeps_parsePartitions keeps_parseMeasures)

lemma keeps_parseTables:
  "(\<And>a. n \<le> a \<Longrightarrow> Q (HRef a)) \<Longrightarrow> keeps n (parseTablesS keyOf v h) Q"
  by (auto simp: parseTablesS_def intro!: keeps_filterMap keeps_parseTable)

lemma keeps_parseRelationship:
  "(\<And>a. n \<le> a \<Longrightarrow> Q (HRef a)) \<Longrightarrow> keeps n (parseRelationshipS v tm) Q"
  by (auto simp: parseRelationshipS_def intro!: keeps_steps)

lemma keeps_tableEntry: "(\<And>e. Q e) \<Longrightarrow> keeps n (tableEntryS t) Q"
  by (auto simp: tableEntryS_def intro!: keeps_steps)

lemma keeps_parseRelationships:
  "(\<And>a. n \<le> a \<Longrightarrow> Q (HRef a)) \<Longrightarrow> keeps n (parseRelationshipsS v tabs) Q"
  by (auto simp: parseRelationshipsS_def
           intro!: keeps_steps keeps_mapS keeps_tableEntry keeps_parseRelationship
           split: option.splits)

lemma keeps_parseBimJson:
  "(\<And>a. n \<le> a \<Longrightarrow> Q (HRef a)) \<Longrightarrow> keeps n (parseBimJsonS keyOf json opts) Q"
  by (auto simp: parseBimJsonS_def Let_def
           intro!: keeps_steps keeps_parseDataModelSchema keeps_parseTables
             keeps_parseRelationships)

lemma those_map_agree:
  assumes "those (map f xs) = Some ys" and "\<And>x y. x \<in> set xs \<Longrightarrow> f x = Some y \<Longrightarrow> g x = Some y"
  shows "those (map g xs) = Some ys"
  using assms
proof (induction xs arbitrary: ys)
  case Nil
  then show ?case by simp
next
  case (Cons a as)
  from Cons.prems(1) obtain b bs where
    b: "f a = Some b" and bs: "those (map f as) = Some bs" and ys: "ys = b # bs"
    by (auto split: option.splits)
  from Cons.prems(2) b have "g a = Some b" by simp
  moreover from Cons.IH [OF bs] Cons.prems(2) have "those (map g as) = Some bs" by simp
  ultimately show ?case by (simp add: ys)
qed

text \<open>A store that only grew denotes the same documents.\<close>

lemma decodeS_extend:
  assumes "length s \<le> length s'" and "take (length s) s' = s"
  shows "decodeS d s v = Some j \<Longrightarrow> decodeS d s' v = Some j"
proof (induction d arbitrary: v j)
  case 0
  then show ?case by simp
next
  case (Suc d)
  show ?case
  proof (cases v)
    case (HRef a)
    with Suc.prems have a: "a < length s" by (simp split: if_splits)
    with assms have a': "a < length s'" and same: "s' ! a = s ! a"
      by (auto simp: nth_take [of a "length s" s', symmetric])
    show ?thesis
    proof (cases "s ! a")
      case (HObject kvs)
      with Suc.prems HRef a obtain jkvs where
        j: "j = JObj jkvs" and
        kvs: "those (map (\<lambda>(k, v). map_option (Pair k) (decodeS d s v)) kvs) = Some jkvs"
        by auto
      have "those (map (\<lambda>(k, v). map_option (Pair k) (decodeS d s' v)) kvs) = Some jkvs"
        using kvs by (rule those_map_agree) (auto dest: Suc.IH)
      with HRef a' same HObject j show ?thesis by simp
    next
      case (HArray xs)
      with Suc.prems HRef a obtain js where
        j: "j = JArr js" and xs: "those (map (decodeS d s) xs) = Some js"
        by auto
      have "those (map (decodeS d s') xs) = Some js"
        using xs by (rule those_map_agree) (auto dest: Suc.IH)
      with HRef a' same HArray j show ?thesis by simp
    next
      case (HMap es)
      with Suc.prems HRef a show ?thesis by simp
    qed
  qed (use Suc.prems in simp_all)
qed

lemma createsEntityI:
  assumes "\<And>n Q. (\<And>a. n \<le> a \<Longrightarrow> Q (HRef a)) \<Longrightarrow> keeps n m Q"
  shows "createsEntity m"
  unfolding createsEntity_def
proof (intro allI impI)
  fix s r s'
  assume run: "m s = (r, s')"
  have "keeps (length s) m (\<lambda>v. \<exists>a. v = HRef a \<and> length s \<le> a)"
    by (rule assms) simp
  from keepsD [OF this _ run]
  show "length s \<le> length s' \<and> take (length s) s' = s \<and>
        (\<forall>v. r = Inr v \<longrightarrow> (\<exists>a. v = HRef a \<and> length s \<le> a))"
    by simp
qed

section \<open>Parsing the same value again\<close>

text \<open>The rules for \<open>sim\<close> are in continuation form, as those for \<open>keeps\<close>.\<close>

lemma relocate_below: "refBelow n v \<Longrightarrow> relocate n d v = v"
  by (cases v) simp_all

lemma relocateCell_below: "cellBelow n c \<Longrightarrow> relocateCell n d c = c"
  by (cases c) (auto simp: list_all_iff relocate_below intro!: map_idI)

lemma truthyS_relocate [simp]: "truthyS (relocate n d v) = truthyS v"
  by (cases v) simp_all

lemma nullishS_relocate [simp]: "nullishS (relocate n d v) = nullishS v"
  by (cases v) simp_all

lemma relocate_eq_HStr [simp]: "relocate n d v = HStr x \<longleftrightarrow> v = HStr x"
  by (cases v) simp_all

lemma coalesceS_relocate:
  "refBelow 0 c \<Longrightarrow> coalesceS (relocate n d v) c = relocate n d (coalesceS v c)"
  by (cases c) (simp_all add: coalesceS_def)

lemma related_cell:
  assumes "related s0 extra s t"
  shows "length t = length s + length extra"
    and "a < length s0 \<Longrightarrow> t ! a = s ! a \<and> relocateCell (length s0) (length extra) (s ! a) = s ! a"
    and "length s0 \<le> a \<Longrightarrow> a < length s \<Longrightarrow>
           t ! (a + length extra) = relocateCell (length s0) (length extra) (s ! a)"
proof -
  from assms obtain new where
    closed: "closedStore s0" and s: "s = s0 @ new"
    and t: "t = s0 @ extra @ map (relocateCell (length s0) (length extra)) new"
    by (auto simp: related_def)
  show "length t = length s + length extra" by (simp add: s t)
  show "t ! a = s ! a \<and> relocateCell (length s0) (length extra) (s ! a) = s ! a" if "a < length s0"
  proof -
    from that closed have "cellBelow (length s0) (s0 ! a)"
      by (simp add: closedStore_def list_all_length)
    with that show ?thesis by (simp add: s t nth_append relocateCell_below)
  qed
  show "t ! (a + length extra) = relocateCell (length s0) (length extra) (s ! a)"
    if "length s0 \<le> a" "a < length s"
  proof -
    from that have b: "a - length s0 < length new" by (simp add: s)
    have "a + length extra = length s0 + (length extra + (a - length s0))"
      using that by arith
    then have "t ! (a + length extra) = (s0 @ extra @ map (relocateCell (length s0) (length extra)) new)
            ! (length s0 + (length extra + (a - length s0)))"
      by (simp only: t)
    also have "\<dots> = map (relocateCell (length s0) (length extra)) new ! (a - length s0)"
      by (simp only: nth_append_length_plus)
    also have "\<dots> = relocateCell (length s0) (length extra) (new ! (a - length s0))"
      using b by simp
    also have "new ! (a - length s0) = s ! a"
      using that by (simp add: s nth_append)
    finally show ?thesis .
  qed
qed

lemma map_of_relocate:
  "map_of (map (\<lambda>(k, v). (k, f v)) kvs) k = map_option f (map_of kvs k)"
  by (induction kvs) auto

lemma propOf_related:
  assumes "related s0 extra s t"
  shows "propOf t (relocate (length s0) (length extra) v) k
           = relocate (length s0) (length extra) (propOf s v k)"
proof (cases v)
  case (HRef a)
  note rc = related_cell [OF assms]
  consider "a < length s0" | "length s0 \<le> a" "a < length s" | "length s \<le> a"
    by linarith
  then show ?thesis
  proof cases
    case 1
    from assms have "length s0 \<le> length s" by (auto simp: related_def)
    with 1 have a: "a < length s" "a < length t" using rc(1) by simp_all
    from rc(2) [OF 1] have same: "t ! a = s ! a"
      and fixed: "relocateCell (length s0) (length extra) (s ! a) = s ! a" by simp_all
    show ?thesis
    proof (cases "s ! a")
      case (HObject kvs)
      with fixed have "map (\<lambda>(k, v). (k, relocate (length s0) (length extra) v)) kvs = kvs" by simp
      then have "map_of kvs k = map_option (relocate (length s0) (length extra)) (map_of kvs k)"
        using map_of_relocate [of "relocate (length s0) (length extra)" kvs k] by simp
      with HRef 1 a same HObject show ?thesis
        by (auto simp: propOf_def split: option.splits)
    qed (use HRef 1 a same in \<open>simp_all add: propOf_def\<close>)
  next
    case 2
    with rc(1) have a: "a + length extra < length t" by simp
    from rc(3) [OF 2] have cell: "t ! (a + length extra) = relocateCell (length s0) (length extra) (s ! a)" .
    show ?thesis
      using HRef 2 a cell
      by (cases "s ! a") (auto simp: propOf_def map_of_relocate split: option.splits)
  next
    case 3
    from assms have "length s0 \<le> length s" by (auto simp: related_def)
    with 3 rc(1) HRef show ?thesis by (simp add: propOf_def)
  qed
qed (simp_all add: propOf_def)

lemma simI:
  assumes "\<And>s t r s'. related s0 extra s t \<Longrightarrow> m s = (r, s') \<Longrightarrow>
     \<exists>r' t'. m' t = (r', t') \<and> related s0 extra s' t' \<and>
        (case r of Inl e \<Rightarrow> r' = Inl e | Inr x \<Rightarrow> (\<exists>x'. r' = Inr x' \<and> Q x x'))"
  shows "sim s0 extra m m' Q"
  using assms unfolding sim_def by blast

lemma simD:
  assumes "sim s0 extra m m' Q" and "related s0 extra s t" and "m s = (r, s')"
  obtains r' t' where "m' t = (r', t')" and "related s0 extra s' t'"
    and "case r of Inl e \<Rightarrow> r' = Inl e | Inr x \<Rightarrow> (\<exists>x'. r' = Inr x' \<and> Q x x')"
  using assms unfolding sim_def by blast

lemma sim_return: "Q x x' \<Longrightarrow> sim s0 extra (returnS x) (returnS x') Q"
  by (auto simp: sim_def returnS_def)

lemma sim_throw: "sim s0 extra (throwS e) (throwS e) Q"
  by (auto simp: sim_def throwS_def)

lemma sim_bind:
  assumes "sim s0 extra m m' (\<lambda>x x'. sim s0 extra (f x) (f' x') Q)"
  shows "sim s0 extra (bindS m f) (bindS m' f') Q"
proof (rule simI)
  fix s t r s'
  assume rel: "related s0 extra s t" and run: "bindS m f s = (r, s')"
  obtain r1 s1 where m: "m s = (r1, s1)" by (cases "m s")
  from simD [OF assms rel m] obtain r1' t1 where
    m': "m' t = (r1', t1)" and rel1: "related s0 extra s1 t1"
    and out: "case r1 of Inl e \<Rightarrow> r1' = Inl e
              | Inr x \<Rightarrow> (\<exists>x'. r1' = Inr x' \<and> sim s0 extra (f x) (f' x') Q)"
    by blast
  show "\<exists>r' t'. bindS m' f' t = (r', t') \<and> related s0 extra s' t' \<and>
          (case r of Inl e \<Rightarrow> r' = Inl e | Inr x \<Rightarrow> (\<exists>x'. r' = Inr x' \<and> Q x x'))"
  proof (cases r1)
    case (Inl e)
    with run m have "r = Inl e" "s' = s1" by (simp_all add: bindS_def)
    with Inl out m' rel1 show ?thesis by (simp add: bindS_def)
  next
    case (Inr x)
    with out obtain x' where x': "r1' = Inr x'" and cont: "sim s0 extra (f x) (f' x') Q" by auto
    from run m Inr have f: "f x s1 = (r, s')" by (simp add: bindS_def)
    from simD [OF cont rel1 f] obtain r' t' where
      "f' x' t1 = (r', t')" "related s0 extra s' t'"
      "case r of Inl e \<Rightarrow> r' = Inl e | Inr y \<Rightarrow> (\<exists>y'. r' = Inr y' \<and> Q y y')"
      by blast
    with m' x' show ?thesis by (simp add: bindS_def)
  qed
qed

lemma sim_read:
  assumes "\<And>s t. related s0 extra s t \<Longrightarrow> Q (f s) (f' t)"
  shows "sim s0 extra (readS f) (readS f') Q"
  using assms by (auto simp: sim_def readS_def)

lemma sim_get:
  assumes "v' = relocate (length s0) (length extra) v"
    and "\<And>x. Q x (relocate (length s0) (length extra) x)"
  shows "sim s0 extra (getS v k) (getS v' k) Q"
proof (cases "nullishS v")
  case True
  then show ?thesis by (simp add: getS_def assms(1) sim_throw)
next
  case False
  have "sim s0 extra (readS (\<lambda>s. propOf s v k)) (readS (\<lambda>s. propOf s v' k)) Q"
    by (rule sim_read) (simp add: assms(1) propOf_related assms(2))
  with False show ?thesis by (simp add: getS_def assms(1))
qed

lemma sim_getOpt:
  assumes "v' = relocate (length s0) (length extra) v"
    and "\<And>x. Q x (relocate (length s0) (length extra) x)"
  shows "sim s0 extra (getOptS v k) (getOptS v' k) Q"
proof (cases "nullishS v")
  case True
  have "Q HUndefined HUndefined" using assms(2) [of HUndefined] by simp
  with True show ?thesis by (simp add: getOptS_def assms(1) sim_return)
next
  case False
  have "sim s0 extra (getS v k) (getS v' k) Q"
    using assms(1) by (rule sim_get) (rule assms(2))
  with False show ?thesis by (simp add: getOptS_def assms(1))
qed

lemma related_length:
  assumes "related s0 extra s t"
  shows "length s0 \<le> length s" and "length t = length s + length extra"
  using assms by (auto simp: related_def)

lemma sim_alloc:
  assumes "c' = relocateCell (length s0) (length extra) c"
    and "\<And>a. length s0 \<le> a \<Longrightarrow> Q (HRef a) (HRef (a + length extra))"
  shows "sim s0 extra (allocS c) (allocS c') Q"
proof (rule simI)
  fix s t r s'
  assume rel: "related s0 extra s t" and run: "allocS c s = (r, s')"
  from rel obtain new where
    closed: "closedStore s0" and s: "s = s0 @ new"
    and t: "t = s0 @ extra @ map (relocateCell (length s0) (length extra)) new"
    by (auto simp: related_def)
  from run have r: "r = Inr (HRef (length s))" and s': "s' = s @ [c]"
    by (simp_all add: allocS_def)
  have "related s0 extra (s @ [c]) (t @ [c'])"
    unfolding related_def using closed s t assms(1)
    by (intro conjI exI [of _ "new @ [c]"]) simp_all
  moreover have "Q (HRef (length s)) (HRef (length t))"
    using assms(2) [of "length s"] related_length [OF rel] by simp
  ultimately show "\<exists>r' t'. allocS c' t = (r', t') \<and> related s0 extra s' t' \<and>
          (case r of Inl e \<Rightarrow> r' = Inl e | Inr x \<Rightarrow> (\<exists>x'. r' = Inr x' \<and> Q x x'))"
    by (simp add: allocS_def r s')
qed

lemma setProp_map:
  "setProp (map (\<lambda>(k, v). (k, f v)) kvs) k (f v) = map (\<lambda>(k, v). (k, f v)) (setProp kvs k v)"
  by (induction kvs) auto

lemma related_update:
  assumes "related s0 extra s t" and "length s0 \<le> a" and "a < length s"
  shows "related s0 extra (s[a := c])
           (t[a + length extra := relocateCell (length s0) (length extra) c])"
proof -
  from assms(1) obtain new where
    closed: "closedStore s0" and s: "s = s0 @ new"
    and t: "t = s0 @ extra @ map (relocateCell (length s0) (length extra)) new"
    by (auto simp: related_def)
  from assms(2,3) have b: "a - length s0 < length new" by (simp add: s)
  have upd_s: "s[a := c] = s0 @ new[a - length s0 := c]"
    using assms(2) by (simp add: s list_update_append)
  have i1: "\<not> a + length extra < length s0" using assms(2) by arith
  have i2: "\<not> a + length extra - length s0 < length extra" using assms(2) by arith
  have i3: "a + length extra - length s0 - length extra = a - length s0"
    using assms(2) by arith
  have "t[a + length extra := relocateCell (length s0) (length extra) c] =
        s0 @ (extra @ map (relocateCell (length s0) (length extra)) new)
               [a + length extra - length s0 := relocateCell (length s0) (length extra) c]"
    using i1 by (simp only: t list_update_append if_False)
  also have "\<dots> = s0 @ extra @ (map (relocateCell (length s0) (length extra)) new)
               [a - length s0 := relocateCell (length s0) (length extra) c]"
    using i2 by (simp only: list_update_append if_False i3)
  also have "\<dots> = s0 @ extra @ map (relocateCell (length s0) (length extra)) (new[a - length s0 := c])"
    by (simp add: map_update)
  finally show ?thesis using closed upd_s by (auto simp: related_def)
qed

lemma sim_set:
  assumes "length s0 \<le> a" and "v' = relocate (length s0) (length extra) v" and "Q () ()"
  shows "sim s0 extra (setS (HRef a) k v) (setS (HRef (a + length extra)) k v') Q"
proof (rule simI)
  fix s t r s'
  assume rel: "related s0 extra s t" and run: "setS (HRef a) k v s = (r, s')"
  note len = related_length [OF rel]
  show "\<exists>r' t'. setS (HRef (a + length extra)) k v' t = (r', t') \<and> related s0 extra s' t' \<and>
          (case r of Inl e \<Rightarrow> r' = Inl e | Inr x \<Rightarrow> (\<exists>x'. r' = Inr x' \<and> Q x x'))"
  proof (cases "a < length s")
    case False
    with run rel len assms(3) show ?thesis by (auto simp: setS_def)
  next
    case True
    from related_cell(3) [OF rel assms(1) True]
    have cell: "t ! (a + length extra) = relocateCell (length s0) (length extra) (s ! a)" .
    show ?thesis
    proof (cases "s ! a")
      case (HObject kvs)
      with run True have r: "r = Inr ()" and s': "s' = s[a := HObject (setProp kvs k v)]"
        by (simp_all add: setS_def)
      from related_update [OF rel assms(1) True, of "HObject (setProp kvs k v)"]
      have "related s0 extra s'
              (t[a + length extra := HObject (setProp
                  (map (\<lambda>(k, v). (k, relocate (length s0) (length extra) v)) kvs) k v')])"
        by (simp add: s' assms(2) setProp_map)
      with True len cell HObject r assms(3) show ?thesis by (auto simp: setS_def)
    next
      case (HArray xs)
      with run True rel len cell assms(3) show ?thesis by (auto simp: setS_def)
    next
      case (HMap es)
      with run True rel len cell assms(3) show ?thesis by (auto simp: setS_def)
    qed
  qed
qed

lemma arrayItems_related:
  assumes "related s0 extra s t"
  shows "arrayItems t (relocate (length s0) (length extra) v)
           = map_option (map (relocate (length s0) (length extra))) (arrayItems s v)"
proof (cases v)
  case (HRef a)
  note rc = related_cell [OF assms] and len = related_length [OF assms]
  consider "a < length s0" | "length s0 \<le> a" "a < length s" | "length s \<le> a"
    by linarith
  then show ?thesis
  proof cases
    case 1
    with len have a: "a < length s" "a < length t" by simp_all
    from rc(2) [OF 1] have same: "t ! a = s ! a"
      and fixed: "relocateCell (length s0) (length extra) (s ! a) = s ! a" by simp_all
    show ?thesis using HRef 1 a same fixed
      by (cases "s ! a") (simp_all add: arrayItems_def)
  next
    case 2
    with len have a: "a + length extra < length t" by simp
    from rc(3) [OF 2] show ?thesis using HRef 2 a
      by (cases "s ! a") (simp_all add: arrayItems_def)
  next
    case 3
    with len HRef show ?thesis by (simp add: arrayItems_def)
  qed
qed (simp_all add: arrayItems_def)

lemma sim_items:
  assumes "v' = relocate (length s0) (length extra) v"
    and "\<And>items. Q items (map_option (map (relocate (length s0) (length extra))) items)"
  shows "sim s0 extra (readS (\<lambda>s. arrayItems s v)) (readS (\<lambda>s. arrayItems s v')) Q"
  using assms by (auto simp: arrayItems_related intro!: sim_read)

lemma sim_itemsOrThrow:
  assumes "v' = relocate (length s0) (length extra) v"
    and "\<And>xs. Q xs (map (relocate (length s0) (length extra)) xs)"
  shows "sim s0 extra (itemsOrThrowS v) (itemsOrThrowS v') Q"
  unfolding itemsOrThrowS_def
  by (rule sim_bind, rule sim_items [OF assms(1)])
     (auto intro!: sim_throw sim_return assms(2) split: option.splits)

lemma relocate_new: "n \<le> a \<Longrightarrow> relocate n d (HRef a) = HRef (a + d)"
  by simp

lemma sim_orEmptyArray:
  assumes "v' = relocate (length s0) (length extra) v"
    and "\<And>x. Q x (relocate (length s0) (length extra) x)"
  shows "sim s0 extra (orEmptyArrayS v) (orEmptyArrayS v') Q"
proof (cases "nullishS v")
  case True
  have "sim s0 extra (allocS (HArray [])) (allocS (HArray [])) Q"
  proof (rule sim_alloc)
    fix a assume "length s0 \<le> a"
    with assms(2) [of "HRef a"] show "Q (HRef a) (HRef (a + length extra))" by simp
  qed simp
  with True show ?thesis by (simp add: orEmptyArrayS_def assms(1))
next
  case False
  with assms(2) [of v] show ?thesis by (simp add: orEmptyArrayS_def assms(1) sim_return)
qed

lemma sim_callToLowerCase:
  assumes "v' = relocate (length s0) (length extra) v" and "\<And>k. Q k k"
  shows "sim s0 extra (callToLowerCaseS v) (callToLowerCaseS v') Q"
  using assms by (cases v) (auto intro!: sim_return sim_throw)

lemma newMap_relocate:
  "newMap (map (\<lambda>(k, v). (k, f v)) es) k = map_option f (newMap es k)"
  by (simp add: newMap_map_of_rev rev_map map_of_relocate)

lemma mapGet_related:
  assumes "related s0 extra s t"
  shows "(case relocate (length s0) (length extra) tm of
            HRef a \<Rightarrow> (if a < length t
                       then (case t ! a of
                               HMap es \<Rightarrow> (case newMap es k of None \<Rightarrow> HUndefined | Some x \<Rightarrow> x)
                             | HObject kvs \<Rightarrow> HUndefined
                             | HArray xs \<Rightarrow> HUndefined)
                       else HUndefined)
          | _ \<Rightarrow> HUndefined)
         = relocate (length s0) (length extra)
             (case tm of
                HRef a \<Rightarrow> (if a < length s
                           then (case s ! a of
                                   HMap es \<Rightarrow> (case newMap es k of None \<Rightarrow> HUndefined | Some x \<Rightarrow> x)
                                 | HObject kvs \<Rightarrow> HUndefined
                                 | HArray xs \<Rightarrow> HUndefined)
                           else HUndefined)
              | _ \<Rightarrow> HUndefined)"
proof (cases tm)
  case (HRef a)
  note rc = related_cell [OF assms] and len = related_length [OF assms]
  consider "a < length s0" | "length s0 \<le> a" "a < length s" | "length s \<le> a"
    by linarith
  then show ?thesis
  proof cases
    case 1
    with len have a: "a < length s" "a < length t" by simp_all
    from rc(2) [OF 1] have same: "t ! a = s ! a"
      and fixed: "relocateCell (length s0) (length extra) (s ! a) = s ! a" by simp_all
    show ?thesis
    proof (cases "s ! a")
      case (HMap es)
      with fixed have "map (\<lambda>(k, v). (k, relocate (length s0) (length extra) v)) es = es" by simp
      then have "newMap es k = map_option (relocate (length s0) (length extra)) (newMap es k)"
        using newMap_relocate [of "relocate (length s0) (length extra)" es k] by simp
      with HRef 1 a same HMap show ?thesis by (auto split: option.splits)
    qed (use HRef 1 a same in simp_all)
  next
    case 2
    with len have a: "a + length extra < length t" by simp
    from rc(3) [OF 2] show ?thesis using HRef 2 a
      by (cases "s ! a") (auto simp: newMap_relocate split: option.splits)
  next
    case 3
    with len HRef show ?thesis by simp
  qed
qed simp_all

lemma sim_mapGet:
  assumes "tm' = relocate (length s0) (length extra) tm"
    and "\<And>x. Q x (relocate (length s0) (length extra) x)"
  shows "sim s0 extra (mapGetS tm k) (mapGetS tm' k) Q"
  unfolding mapGetS_def assms(1)
  by (rule sim_read) (simp only: mapGet_related assms(2))

lemma sim_keyOf:
  assumes "keyStable keyOf" and "v' = relocate (length s0) (length extra) v" and "\<And>k. Q k k"
  shows "sim s0 extra (\<lambda>s. (keyOf s v, s)) (\<lambda>s. (keyOf s v', s)) Q"
proof (rule simI)
  fix s t r s'
  assume rel: "related s0 extra s t" and run: "(keyOf s v, s) = (r, s')"
  from assms(1) rel have "keyOf t v' = keyOf s v"
    by (simp add: keyStable_def assms(2))
  with run rel assms(3)
  show "\<exists>r' t'. (keyOf t v', t) = (r', t') \<and> related s0 extra s' t' \<and>
          (case r of Inl e \<Rightarrow> r' = Inl e | Inr x \<Rightarrow> (\<exists>x'. r' = Inr x' \<and> Q x x'))"
    by (auto split: sum.splits)
qed

lemma sim_weaken:
  assumes "sim s0 extra m m' P" and "\<And>x x'. P x x' \<Longrightarrow> Q x x'"
  shows "sim s0 extra m m' Q"
proof (rule simI)
  fix s t r s'
  assume rel: "related s0 extra s t" and run: "m s = (r, s')"
  from simD [OF assms(1) rel run] obtain r' t' where
    "m' t = (r', t')" "related s0 extra s' t'"
    "case r of Inl e \<Rightarrow> r' = Inl e | Inr x \<Rightarrow> (\<exists>x'. r' = Inr x' \<and> P x x')"
    by blast
  with assms(2)
  show "\<exists>r' t'. m' t = (r', t') \<and> related s0 extra s' t' \<and>
          (case r of Inl e \<Rightarrow> r' = Inl e | Inr x \<Rightarrow> (\<exists>x'. r' = Inr x' \<and> Q x x'))"
    by (auto split: sum.splits)
qed

lemma sim_K:
  assumes "sim s0 extra m m' (\<lambda>x x'. x' = g x)" and "\<And>x. Q x (g x)"
  shows "sim s0 extra m m' Q"
  using assms(1) by (rule sim_weaken) (simp add: assms(2))

lemma sim_mapS_general:
  assumes "\<And>x. sim s0 extra (f x) (f' (h x)) (\<lambda>y y'. y' = g y)"
    and "xs' = map h xs"
    and "\<And>ys. Q ys (map g ys)"
  shows "sim s0 extra (mapS f xs) (mapS f' xs') Q"
proof -
  have "sim s0 extra (mapS f xs) (mapS f' (map h xs)) (\<lambda>ys ys'. ys' = map g ys)"
  proof (induction xs)
    case Nil
    show ?case by (simp add: sim_return)
  next
    case (Cons a as)
    have rest: "sim s0 extra (mapS f as) (mapS f' (map h as))
        (\<lambda>ys ys'. sim s0 extra (returnS (y # ys)) (returnS (g y # ys')) (\<lambda>ys ys'. ys' = map g ys))"
      for y
      using Cons.IH by (rule sim_K) (simp add: sim_return)
    have "sim s0 extra (f a) (f' (h a))
        (\<lambda>y y'. sim s0 extra (bindS (mapS f as) (\<lambda>ys. returnS (y # ys)))
                   (bindS (mapS f' (map h as)) (\<lambda>ys. returnS (y' # ys))) (\<lambda>ys ys'. ys' = map g ys))"
      using assms(1) [of a] by (rule sim_K) (rule sim_bind, rule rest)
    then show ?case by (simp add: sim_bind)
  qed
  then show ?thesis unfolding assms(2) by (rule sim_K) (rule assms(3))
qed

lemma sim_filterS:
  assumes "\<And>x. sim s0 extra (p x) (p' (h x)) (\<lambda>b b'. b' = b)"
    and "xs' = map h xs"
    and "\<And>ys. Q ys (map h ys)"
  shows "sim s0 extra (filterS p xs) (filterS p' xs') Q"
proof -
  have "sim s0 extra (filterS p xs) (filterS p' (map h xs)) (\<lambda>ys ys'. ys' = map h ys)"
  proof (induction xs)
    case Nil
    show ?case by (simp add: sim_return)
  next
    case (Cons a as)
    have rest: "sim s0 extra (filterS p as) (filterS p' (map h as))
        (\<lambda>ys ys'. sim s0 extra (returnS (if b then a # ys else ys))
                     (returnS (if b then h a # ys' else ys')) (\<lambda>ys ys'. ys' = map h ys))"
      for b
      using Cons.IH by (rule sim_K) (simp add: sim_return)
    have "sim s0 extra (p a) (p' (h a))
        (\<lambda>b b'. sim s0 extra (bindS (filterS p as) (\<lambda>ys. returnS (if b then a # ys else ys)))
                   (bindS (filterS p' (map h as)) (\<lambda>ys. returnS (if b' then h a # ys else ys)))
                   (\<lambda>ys ys'. ys' = map h ys))"
      using assms(1) [of a] by (rule sim_K) (rule sim_bind, rule rest)
    then show ?case by (simp add: sim_bind)
  qed
  then show ?thesis unfolding assms(2) by (rule sim_K) (rule assms(3))
qed

lemma sim_mapS:
  assumes "\<And>x. sim s0 extra (f x) (f' (relocate (length s0) (length extra) x))
                  (\<lambda>y y'. y' = relocate (length s0) (length extra) y)"
    and "xs' = map (relocate (length s0) (length extra)) xs"
    and "\<And>ys. Q ys (map (relocate (length s0) (length extra)) ys)"
  shows "sim s0 extra (mapS f xs) (mapS f' xs') Q"
  using assms by (rule sim_mapS_general)

lemma coalesceS_relocate_HStr [simp]:
  "coalesceS (relocate n d v) (HStr x) = relocate n d (coalesceS v (HStr x))"
  by (simp add: coalesceS_relocate)

lemma coalesceS_relocate_HNum [simp]:
  "coalesceS (relocate n d v) (HNum x) = relocate n d (coalesceS v (HNum x))"
  by (simp add: coalesceS_relocate)

lemma coalesceS_relocate_HBool [simp]:
  "coalesceS (relocate n d v) (HBool x) = relocate n d (coalesceS v (HBool x))"
  by (simp add: coalesceS_relocate)

lemmas sim_steps =
  sim_bind sim_get sim_getOpt sim_items sim_itemsOrThrow sim_orEmptyArray sim_callToLowerCase
  sim_mapGet sim_alloc sim_set sim_return sim_throw

lemma sim_parseAnnotation:
  assumes "a' = relocate (length s0) (length extra) a"
    and "\<And>x. Q x (relocate (length s0) (length extra) x)"
  shows "sim s0 extra (parseAnnotationS a) (parseAnnotationS a') Q"
proof -
  have "sim s0 extra (parseAnnotationS a) (parseAnnotationS (relocate (length s0) (length extra) a))
          (\<lambda>x x'. x' = relocate (length s0) (length extra) x)"
    by (auto simp: parseAnnotationS_def intro!: sim_steps)
  then show ?thesis unfolding assms(1) by (rule sim_K) (rule assms(2))
qed

lemma sim_parseAnnotations:
  assumes "a' = relocate (length s0) (length extra) a"
    and "\<And>x. Q x (relocate (length s0) (length extra) x)"
  shows "sim s0 extra (parseAnnotationsS a) (parseAnnotationsS a') Q"
proof -
  have "sim s0 extra (parseAnnotationsS a) (parseAnnotationsS (relocate (length s0) (length extra) a))
          (\<lambda>x x'. x' = relocate (length s0) (length extra) x)"
    by (auto simp: parseAnnotationsS_def intro!: sim_steps sim_mapS sim_parseAnnotation
             split: option.splits)
  then show ?thesis unfolding assms(1) by (rule sim_K) (rule assms(2))
qed

lemma relocateCell_typeMap [simp]:
  "map (\<lambda>(k, v). (k, relocate n d v)) (map (\<lambda>(k, t). (k, HStr (dataTypeString t))) typeMap)
     = map (\<lambda>(k, t). (k, HStr (dataTypeString t))) typeMap"
  by (simp add: typeMap_def)

lemma relocate_typeMapValue [simp]:
  "relocate n d (case x of None \<Rightarrow> HStr u | Some (Member t) \<Rightarrow> HStr (w t) | Some (Inherited i) \<Rightarrow> HInherited i)
     = (case x of None \<Rightarrow> HStr u | Some (Member t) \<Rightarrow> HStr (w t) | Some (Inherited i) \<Rightarrow> HInherited i)"
  by (simp split: option.splits typeMapValue.splits)

lemma sim_mapDataType:
  assumes "keyStable keyOf"
    and "a' = relocate (length s0) (length extra) a"
    and "\<And>x. Q x (relocate (length s0) (length extra) x)"
  shows "sim s0 extra (mapDataTypeS keyOf a) (mapDataTypeS keyOf a') Q"
proof -
  have "sim s0 extra (mapDataTypeS keyOf a) (mapDataTypeS keyOf (relocate (length s0) (length extra) a))
          (\<lambda>x x'. x' = relocate (length s0) (length extra) x)"
    using assms(1)
    by (auto simp: mapDataTypeS_def intro!: sim_steps sim_keyOf)
  then show ?thesis unfolding assms(2) by (rule sim_K) (rule assms(3))
qed

lemma sim_mapPartitionSourceType:
  assumes "a' = relocate (length s0) (length extra) a"
    and "\<And>x. Q x (relocate (length s0) (length extra) x)"
  shows "sim s0 extra (mapPartitionSourceTypeS a) (mapPartitionSourceTypeS a') Q"
proof -
  have "sim s0 extra (mapPartitionSourceTypeS a) (mapPartitionSourceTypeS (relocate (length s0) (length extra) a))
          (\<lambda>x x'. x' = relocate (length s0) (length extra) x)"
    by (auto simp: mapPartitionSourceTypeS_def intro!: sim_steps )
  then show ?thesis unfolding assms(1) by (rule sim_K) (rule assms(2))
qed

lemma sim_parseCulture:
  assumes "a' = relocate (length s0) (length extra) a"
    and "\<And>x. Q x (relocate (length s0) (length extra) x)"
  shows "sim s0 extra (parseCultureS inc a) (parseCultureS inc a') Q"
proof -
  have "sim s0 extra (parseCultureS inc a) (parseCultureS inc (relocate (length s0) (length extra) a))
          (\<lambda>x x'. x' = relocate (length s0) (length extra) x)"
    by (auto simp: parseCultureS_def intro!: sim_steps sim_parseAnnotations)
  then show ?thesis unfolding assms(1) by (rule sim_K) (rule assms(2))
qed

lemma sim_parseDataModelSchema:
  assumes "a' = relocate (length s0) (length extra) a"
    and "\<And>x. Q x (relocate (length s0) (length extra) x)"
  shows "sim s0 extra (parseDataModelSchemaS a inc) (parseDataModelSchemaS a' inc) Q"
proof -
  have "sim s0 extra (parseDataModelSchemaS a inc) (parseDataModelSchemaS (relocate (length s0) (length extra) a) inc)
          (\<lambda>x x'. x' = relocate (length s0) (length extra) x)"
    by (auto simp: parseDataModelSchemaS_def intro!: sim_steps sim_mapS sim_parseCulture sim_parseAnnotations split: option.splits)
  then show ?thesis unfolding assms(1) by (rule sim_K) (rule assms(2))
qed

lemma sim_parseColumn:
  assumes "keyStable keyOf"
    and "a' = relocate (length s0) (length extra) a"
    and "\<And>x. Q x (relocate (length s0) (length extra) x)"
  shows "sim s0 extra (parseColumnS keyOf a) (parseColumnS keyOf a') Q"
proof -
  have "sim s0 extra (parseColumnS keyOf a) (parseColumnS keyOf (relocate (length s0) (length extra) a))
          (\<lambda>x x'. x' = relocate (length s0) (length extra) x)"
    using assms(1)
    by (auto simp: parseColumnS_def intro!: sim_steps sim_mapDataType)
  then show ?thesis unfolding assms(2) by (rule sim_K) (rule assms(3))
qed

lemma sim_keepItem:
  assumes "a' = relocate (length s0) (length extra) a"
    and "\<And>b. Q b b"
  shows "sim s0 extra (keepItemS h a) (keepItemS h a') Q"
proof -
  have "sim s0 extra (keepItemS h a) (keepItemS h (relocate (length s0) (length extra) a))
          (\<lambda>b b'. b' = b)"
    by (auto simp: keepItemS_def intro!: sim_steps )
  then show ?thesis unfolding assms(1) by (rule sim_K) (rule assms(2))
qed

lemma sim_filterMap:
  assumes "\<And>x. sim s0 extra (f x) (f' (relocate (length s0) (length extra) x))
                  (\<lambda>y y'. y' = relocate (length s0) (length extra) y)"
    and "a' = relocate (length s0) (length extra) a"
    and "\<And>x. Q x (relocate (length s0) (length extra) x)"
  shows "sim s0 extra (filterMapS h f a) (filterMapS h f' a') Q"
proof -
  have "sim s0 extra (filterMapS h f a) (filterMapS h f' (relocate (length s0) (length extra) a))
          (\<lambda>x x'. x' = relocate (length s0) (length extra) x)"
    using assms(1)
    by (auto simp: filterMapS_def intro!: sim_steps sim_mapS sim_filterS sim_keepItem
             split: option.splits)
  then show ?thesis unfolding assms(2) by (rule sim_K) (rule assms(3))
qed

lemma sim_parseColumns:
  assumes "keyStable keyOf"
    and "a' = relocate (length s0) (length extra) a"
    and "\<And>x. Q x (relocate (length s0) (length extra) x)"
  shows "sim s0 extra (parseColumnsS keyOf a h) (parseColumnsS keyOf a' h) Q"
proof -
  have "sim s0 extra (parseColumnsS keyOf a h) (parseColumnsS keyOf (relocate (length s0) (length extra) a) h)
          (\<lambda>x x'. x' = relocate (length s0) (length extra) x)"
    using assms(1)
    by (auto simp: parseColumnsS_def intro!: sim_steps sim_filterMap sim_parseColumn)
  then show ?thesis unfolding assms(2) by (rule sim_K) (rule assms(3))
qed

lemma sim_sourceField:
  assumes "a' = relocate (length s0) (length extra) a"
    and "\<And>x. Q x (relocate (length s0) (length extra) x)"
  shows "sim s0 extra (sourceFieldS a k) (sourceFieldS a' k) Q"
proof -
  have "sim s0 extra (sourceFieldS a k) (sourceFieldS (relocate (length s0) (length extra) a) k)
          (\<lambda>x x'. x' = relocate (length s0) (length extra) x)"
    by (auto simp: sourceFieldS_def intro!: sim_steps )
  then show ?thesis unfolding assms(1) by (rule sim_K) (rule assms(2))
qed

lemma sim_parsePartition:
  assumes "a' = relocate (length s0) (length extra) a"
    and "\<And>x. Q x (relocate (length s0) (length extra) x)"
  shows "sim s0 extra (parsePartitionS a) (parsePartitionS a') Q"
proof -
  have "sim s0 extra (parsePartitionS a) (parsePartitionS (relocate (length s0) (length extra) a))
          (\<lambda>x x'. x' = relocate (length s0) (length extra) x)"
    by (auto simp: parsePartitionS_def intro!: sim_steps sim_mapPartitionSourceType sim_sourceField)
  then show ?thesis unfolding assms(1) by (rule sim_K) (rule assms(2))
qed

lemma sim_parsePartitions:
  assumes "a' = relocate (length s0) (length extra) a"
    and "\<And>x. Q x (relocate (length s0) (length extra) x)"
  shows "sim s0 extra (parsePartitionsS a) (parsePartitionsS a') Q"
proof -
  have "sim s0 extra (parsePartitionsS a) (parsePartitionsS (relocate (length s0) (length extra) a))
          (\<lambda>x x'. x' = relocate (length s0) (length extra) x)"
    by (auto simp: parsePartitionsS_def intro!: sim_steps sim_mapS sim_parsePartition split: option.splits)
  then show ?thesis unfolding assms(1) by (rule sim_K) (rule assms(2))
qed

lemma sim_parseMeasure:
  assumes "a' = relocate (length s0) (length extra) a"
    and "\<And>x. Q x (relocate (length s0) (length extra) x)"
  shows "sim s0 extra (parseMeasureS a) (parseMeasureS a') Q"
proof -
  have "sim s0 extra (parseMeasureS a) (parseMeasureS (relocate (length s0) (length extra) a))
          (\<lambda>x x'. x' = relocate (length s0) (length extra) x)"
    by (auto simp: parseMeasureS_def intro!: sim_steps )
  then show ?thesis unfolding assms(1) by (rule sim_K) (rule assms(2))
qed

lemma sim_parseMeasures:
  assumes "a' = relocate (length s0) (length extra) a"
    and "\<And>x. Q x (relocate (length s0) (length extra) x)"
  shows "sim s0 extra (parseMeasuresS a h) (parseMeasuresS a' h) Q"
proof -
  have "sim s0 extra (parseMeasuresS a h) (parseMeasuresS (relocate (length s0) (length extra) a) h)
          (\<lambda>x x'. x' = relocate (length s0) (length extra) x)"
    by (auto simp: parseMeasuresS_def intro!: sim_steps sim_filterMap sim_parseMeasure)
  then show ?thesis unfolding assms(1) by (rule sim_K) (rule assms(2))
qed

lemma sim_parseTable:
  assumes "keyStable keyOf"
    and "a' = relocate (length s0) (length extra) a"
    and "\<And>x. Q x (relocate (length s0) (length extra) x)"
  shows "sim s0 extra (parseTableS keyOf a h) (parseTableS keyOf a' h) Q"
proof -
  have "sim s0 extra (parseTableS keyOf a h) (parseTableS keyOf (relocate (length s0) (length extra) a) h)
          (\<lambda>x x'. x' = relocate (length s0) (length extra) x)"
    using assms(1)
    by (auto simp: parseTableS_def intro!: sim_steps sim_parseColumns sim_parsePartitions sim_parseMeasures)
  then show ?thesis unfolding assms(2) by (rule sim_K) (rule assms(3))
qed

lemma sim_parseTables:
  assumes "keyStable keyOf"
    and "a' = relocate (length s0) (length extra) a"
    and "\<And>x. Q x (relocate (length s0) (length extra) x)"
  shows "sim s0 extra (parseTablesS keyOf a h) (parseTablesS keyOf a' h) Q"
proof -
  have "sim s0 extra (parseTablesS keyOf a h) (parseTablesS keyOf (relocate (length s0) (length extra) a) h)
          (\<lambda>x x'. x' = relocate (length s0) (length extra) x)"
    using assms(1)
    by (auto simp: parseTablesS_def intro!: sim_steps sim_filterMap sim_parseTable)
  then show ?thesis unfolding assms(2) by (rule sim_K) (rule assms(3))
qed

lemma mapCardinalityS_relocate [simp]:
  "mapCardinalityS (relocate n d x) (relocate n d y) (relocate n d z) = mapCardinalityS x y z"
  by (simp add: mapCardinalityS_def)

lemma mapCrossFilteringBehaviorS_relocate [simp]:
  "mapCrossFilteringBehaviorS (relocate n d x) = mapCrossFilteringBehaviorS x"
  by (simp add: mapCrossFilteringBehaviorS_def)

lemma relocate_mapCardinalityS [simp]:
  "relocate n d (mapCardinalityS x y z) = mapCardinalityS x y z"
  by (simp add: mapCardinalityS_def)

lemma relocate_mapCrossFilteringBehaviorS [simp]:
  "relocate n d (mapCrossFilteringBehaviorS x) = mapCrossFilteringBehaviorS x"
  by (simp add: mapCrossFilteringBehaviorS_def)

lemma sim_parseRelationship:
  assumes "a' = relocate (length s0) (length extra) a"
    and "tm' = relocate (length s0) (length extra) tm"
    and "\<And>x. Q x (relocate (length s0) (length extra) x)"
  shows "sim s0 extra (parseRelationshipS a tm) (parseRelationshipS a' tm') Q"
proof -
  have "sim s0 extra (parseRelationshipS a tm)
          (parseRelationshipS (relocate (length s0) (length extra) a)
             (relocate (length s0) (length extra) tm))
          (\<lambda>x x'. x' = relocate (length s0) (length extra) x)"
    by (auto simp: parseRelationshipS_def intro!: sim_steps)
  then show ?thesis unfolding assms(1,2) by (rule sim_K) (rule assms(3))
qed

lemma sim_tableEntry:
  "sim s0 extra (tableEntryS a) (tableEntryS (relocate (length s0) (length extra) a))
     (\<lambda>y y'. y' = (case y of (e, k, t) \<Rightarrow>
        (relocate (length s0) (length extra) e, k, relocate (length s0) (length extra) t)))"
  by (auto simp: tableEntryS_def intro!: sim_steps)

lemma sim_tableEntries:
  assumes "xs' = map (relocate (length s0) (length extra)) xs"
    and "\<And>ys. Q ys (map (\<lambda>(e, k, t).
           (relocate (length s0) (length extra) e, k, relocate (length s0) (length extra) t)) ys)"
  shows "sim s0 extra (mapS tableEntryS xs) (mapS tableEntryS xs') Q"
  using sim_tableEntry assms by (rule sim_mapS_general)

lemma entries_fst:
  "map fst (map (\<lambda>(e, k, t). (f e, k, f t)) ys) = map f (map fst ys)"
  by (induction ys) auto

lemma entries_snd:
  "map snd (map (\<lambda>(e, k, t). (f e, k, f t)) ys) = map (\<lambda>(k, v). (k, f v)) (map snd ys)"
  by (induction ys) auto

lemma sim_parseRelationships:
  assumes "a' = relocate (length s0) (length extra) a"
    and "tabs' = relocate (length s0) (length extra) tabs"
    and "\<And>x. Q x (relocate (length s0) (length extra) x)"
  shows "sim s0 extra (parseRelationshipsS a tabs) (parseRelationshipsS a' tabs') Q"
proof -
  have "sim s0 extra (parseRelationshipsS a tabs)
          (parseRelationshipsS (relocate (length s0) (length extra) a)
             (relocate (length s0) (length extra) tabs))
          (\<lambda>x x'. x' = relocate (length s0) (length extra) x)"
    by (auto simp: parseRelationshipsS_def entries_fst entries_snd
             intro!: sim_steps sim_mapS sim_tableEntries sim_parseRelationship
             split: option.splits)
  then show ?thesis unfolding assms(1,2) by (rule sim_K) (rule assms(3))
qed

lemma sim_parseBimJson:
  assumes "keyStable keyOf"
  shows "sim s0 extra (parseBimJsonS keyOf json opts)
           (parseBimJsonS keyOf (relocate (length s0) (length extra) json) opts)
           (\<lambda>x x'. x' = relocate (length s0) (length extra) x)"
  using assms
  by (auto simp: parseBimJsonS_def Let_def
           intro!: sim_steps sim_parseDataModelSchema sim_parseTables sim_parseRelationships)

text \<open>Related stores denote the same documents at related values.\<close>

lemma decodeS_related:
  assumes "related s0 extra s t"
  shows "decodeS d t (relocate (length s0) (length extra) v) = decodeS d s v"
proof (induction d arbitrary: v)
  case 0
  show ?case by simp
next
  case (Suc d)
  note rc = related_cell [OF assms] and len = related_length [OF assms]
  show ?case
  proof (cases v)
    case (HRef a)
    consider "a < length s0" | "length s0 \<le> a" "a < length s" | "length s \<le> a"
      by linarith
    then show ?thesis
    proof cases
      case 1
      with len have a: "a < length s" "a < length t" by simp_all
      from rc(2) [OF 1] have same: "t ! a = s ! a"
        and fixed: "relocateCell (length s0) (length extra) (s ! a) = s ! a" by simp_all
      show ?thesis
      proof (cases "s ! a")
        case (HObject kvs)
        with fixed have kvs: "map (\<lambda>(k, v). (k, relocate (length s0) (length extra) v)) kvs = kvs"
          by simp
        have "map (\<lambda>(k, v). map_option (Pair k) (decodeS d t v)) kvs
              = map (\<lambda>(k, v). map_option (Pair k) (decodeS d t v))
                  (map (\<lambda>(k, v). (k, relocate (length s0) (length extra) v)) kvs)"
          by (simp only: kvs)
        also have "\<dots> = map (\<lambda>(k, v). map_option (Pair k) (decodeS d s v)) kvs"
          by (simp add: Suc.IH case_prod_beta comp_def)
        finally have "those (map (\<lambda>(k, v). map_option (Pair k) (decodeS d t v)) kvs)
              = those (map (\<lambda>(k, v). map_option (Pair k) (decodeS d s v)) kvs)"
          by (simp only:)
        with HRef 1 a same HObject show ?thesis by simp
      next
        case (HArray xs)
        with fixed have xs: "map (relocate (length s0) (length extra)) xs = xs" by simp
        have "map (decodeS d t) xs = map (decodeS d t) (map (relocate (length s0) (length extra)) xs)"
          by (simp only: xs)
        also have "\<dots> = map (decodeS d s) xs"
          by (simp add: Suc.IH comp_def)
        finally have "those (map (decodeS d t) xs) = those (map (decodeS d s) xs)"
          by (simp only:)
        with HRef 1 a same HArray show ?thesis by simp
      next
        case (HMap es)
        with HRef 1 a same show ?thesis by simp
      qed
    next
      case 2
      with len have a: "a + length extra < length t" by simp
      from rc(3) [OF 2] have cell: "t ! (a + length extra)
          = relocateCell (length s0) (length extra) (s ! a)" .
      show ?thesis
      proof (cases "s ! a")
        case (HObject kvs)
        have "map (\<lambda>(k, v). map_option (Pair k) (decodeS d t v))
                  (map (\<lambda>(k, v). (k, relocate (length s0) (length extra) v)) kvs)
              = map (\<lambda>(k, v). map_option (Pair k) (decodeS d s v)) kvs"
          by (simp add: Suc.IH case_prod_beta comp_def)
        then have "those (map (\<lambda>(k, v). map_option (Pair k) (decodeS d t v))
                  (map (\<lambda>(k, v). (k, relocate (length s0) (length extra) v)) kvs))
              = those (map (\<lambda>(k, v). map_option (Pair k) (decodeS d s v)) kvs)"
          by (simp only:)
        moreover have "decodeS (Suc d) t (HRef (a + length extra))
              = map_option JObj (those (map (\<lambda>(k, v). map_option (Pair k) (decodeS d t v))
                  (map (\<lambda>(k, v). (k, relocate (length s0) (length extra) v)) kvs)))"
          using a cell HObject by (simp del: map_map)
        moreover have "decodeS (Suc d) s (HRef a)
              = map_option JObj (those (map (\<lambda>(k, v). map_option (Pair k) (decodeS d s v)) kvs))"
          using 2 HObject by simp
        ultimately show ?thesis using HRef 2 by simp
      next
        case (HArray xs)
        have "map (decodeS d t) (map (relocate (length s0) (length extra)) xs) = map (decodeS d s) xs"
          by (simp add: Suc.IH comp_def)
        then have "those (map (decodeS d t) (map (relocate (length s0) (length extra)) xs))
              = those (map (decodeS d s) xs)"
          by (simp only:)
        moreover have "decodeS (Suc d) t (HRef (a + length extra))
              = map_option JArr (those (map (decodeS d t)
                  (map (relocate (length s0) (length extra)) xs)))"
          using a cell HArray by (simp del: map_map)
        moreover have "decodeS (Suc d) s (HRef a) = map_option JArr (those (map (decodeS d s) xs))"
          using 2 HArray by simp
        ultimately show ?thesis using HRef 2 by simp
      next
        case (HMap es)
        with HRef 2 a cell show ?thesis by simp
      qed
    next
      case 3
      with len HRef show ?thesis by simp
    qed
  qed simp_all
qed

text \<open>Parsing the same value a second time, in the store that the first call left:
  the second call has the outcome of the first, creates a copy of the cells that the
  first call created, and returns the cell that corresponds to the first result.\<close>

lemma parseBimJson_again:
  assumes closed: "closedStore s" and below: "refBelow (length s) json" and key: "keyStable keyOf"
    and first: "parseBimJsonS keyOf json opts s = (r, s1)"
  shows "\<exists>r2 s2. parseBimJsonS keyOf json opts s1 = (r2, s2) \<and>
           related s (drop (length s) s1) s1 s2 \<and>
           (case r of Inl e \<Rightarrow> r2 = Inl e
            | Inr v \<Rightarrow> r2 = Inr (relocate (length s) (length s1 - length s) v))"
proof -
  have k: "keeps (length s) (parseBimJsonS keyOf json opts) (\<lambda>v. True)"
    by (rule keeps_parseBimJson) simp
  from keepsD(1,2) [OF k _ first] have len: "length s \<le> length s1" and pre: "take (length s) s1 = s"
    by simp_all
  define extra where "extra = drop (length s) s1"
  have s1: "s1 = s @ extra"
    using pre append_take_drop_id [of "length s" s1] by (simp add: extra_def)
  have lex: "length extra = length s1 - length s" by (simp add: extra_def)
  have rel: "related s extra s s1"
    using closed s1 by (simp add: related_def)
  have json: "relocate (length s) (length extra) json = json"
    using below by (rule relocate_below)
  from simD [OF sim_parseBimJson [OF key, of s extra json opts] rel first]
  obtain r2 s2 where
    second: "parseBimJsonS keyOf json opts s1 = (r2, s2)" and rel2: "related s extra s1 s2"
    and out: "case r of Inl e \<Rightarrow> r2 = Inl e
              | Inr x \<Rightarrow> (\<exists>x'. r2 = Inr x' \<and> x' = relocate (length s) (length extra) x)"
    unfolding json by blast
  from out have "case r of Inl e \<Rightarrow> r2 = Inl e
     | Inr v \<Rightarrow> r2 = Inr (relocate (length s) (length s1 - length s) v)"
    by (simp add: lex split: sum.splits)
  with second rel2 show ?thesis unfolding extra_def by blast
qed

lemma keyStable_primitiveKeyOf: "keyStable primitiveKeyOf"
  unfolding keyStable_def
proof (intro allI impI)
  fix s0 extra s t v
  show "primitiveKeyOf t (relocate (length s0) (length extra) v) = primitiveKeyOf s v"
    by (cases v) (simp_all add: primitiveKeyOf_def)
qed

section \<open>The assembler leaves the document as it was\<close>

text \<open>
  Claim C9. \<^verbatim>\<open>parseBimJson\<close> never mutates the value passed to it. Whatever the
  document, the options and the outcome (a result or an exception), every cell of the
  store that exists before the call, and so every object and array of the document,
  is the same after the call; the document denotes the same tree before and after;
  and the returned model is a cell that did not exist before the call, as is every
  entity that a normalizer returns. So the same value can be parsed again: in a closed
  store that holds the document, with a key conversion that does not depend on the
  place of the new cells, the second call has the outcome of the first (the same
  exception, or a result), it appends to the store a copy of the cells that the first
  call created, and its result is the copy of the first result and denotes the same
  tree.
\<close>

theorem parseBimJson_no_mutation:
  assumes "parseBimJsonS keyOf json opts s = (r, s')"
  shows "length s \<le> length s' \<and> take (length s) s' = s \<and>
         (\<forall>a < length s. s' ! a = s ! a) \<and>
         (\<forall>d j. decodeS d s json = Some j \<longrightarrow> decodeS d s' json = Some j) \<and>
         (\<forall>v. r = Inr v \<longrightarrow> (\<exists>a. v = HRef a \<and> length s \<le> a)) \<and>
         createsEntity (parseDataModelSchemaS m inc) \<and>
         createsEntity (parseCultureS inc c) \<and>
         createsEntity (parseAnnotationS c) \<and>
         createsEntity (parseTableS keyOf c hid) \<and>
         createsEntity (parseColumnS keyOf c) \<and>
         createsEntity (parsePartitionS c) \<and>
         createsEntity (parseMeasureS c) \<and>
         createsEntity (parseRelationshipS c tm) \<and>
         (closedStore s \<and> refBelow (length s) json \<and> keyStable keyOf \<longrightarrow>
            (\<exists>r2 s2. parseBimJsonS keyOf json opts s' = (r2, s2) \<and>
               s2 = s' @ map (relocateCell (length s) (length s' - length s)) (drop (length s) s') \<and>
               (case r of
                  Inl e \<Rightarrow> r2 = Inl e
                | Inr v \<Rightarrow>
                    r2 = Inr (relocate (length s) (length s' - length s) v) \<and>
                    (\<forall>d. decodeS d s2 (relocate (length s) (length s' - length s) v)
                           = decodeS d s' v))))"
proof -
  have entities:
    "createsEntity (parseDataModelSchemaS m inc)" "createsEntity (parseCultureS inc c)"
    "createsEntity (parseAnnotationS c)" "createsEntity (parseTableS keyOf c hid)"
    "createsEntity (parseColumnS keyOf c)" "createsEntity (parsePartitionS c)"
    "createsEntity (parseMeasureS c)" "createsEntity (parseRelationshipS c tm)"
    by (intro createsEntityI keeps_parseDataModelSchema keeps_parseCulture keeps_parseAnnotation
          keeps_parseTable keeps_parseColumn keeps_parsePartition keeps_parseMeasure
          keeps_parseRelationship; assumption)+
  have k: "keeps (length s) (parseBimJsonS keyOf json opts) (\<lambda>v. \<exists>a. v = HRef a \<and> length s \<le> a)"
    by (rule keeps_parseBimJson) simp
  from keepsD [OF k _ assms] have
    len: "length s \<le> length s'" and pre: "take (length s) s' = s"
    and res: "\<And>v. r = Inr v \<Longrightarrow> \<exists>a. v = HRef a \<and> length s \<le> a"
    by simp_all
  have same: "s' ! a = s ! a" if "a < length s" for a
    using that pre nth_take [of a "length s" s'] by simp
  have doc: "decodeS d s' json = Some j" if "decodeS d s json = Some j" for d j
    using decodeS_extend [OF len pre that] .
  have again: "\<exists>r2 s2. parseBimJsonS keyOf json opts s' = (r2, s2) \<and>
       s2 = s' @ map (relocateCell (length s) (length s' - length s)) (drop (length s) s') \<and>
       (case r of
          Inl e \<Rightarrow> r2 = Inl e
        | Inr v \<Rightarrow>
            r2 = Inr (relocate (length s) (length s' - length s) v) \<and>
            (\<forall>d. decodeS d s2 (relocate (length s) (length s' - length s) v) = decodeS d s' v))"
    if closed: "closedStore s" and below: "refBelow (length s) json" and key: "keyStable keyOf"
  proof -
    from parseBimJson_again [OF closed below key assms] obtain r2 s2 where
      second: "parseBimJsonS keyOf json opts s' = (r2, s2)"
      and rel: "related s (drop (length s) s') s' s2"
      and out: "case r of Inl e \<Rightarrow> r2 = Inl e
                | Inr v \<Rightarrow> r2 = Inr (relocate (length s) (length s' - length s) v)"
      by blast
    have lex: "length (drop (length s) s') = length s' - length s" by simp
    have parts: "s' = s @ drop (length s) s'"
      using pre append_take_drop_id [of "length s" s'] by simp
    from rel obtain new where
      new: "s' = s @ new"
      and s2: "s2 = s @ drop (length s) s' @
                 map (relocateCell (length s) (length (drop (length s) s'))) new"
      unfolding related_def by blast
    from new have "new = drop (length s) s'" by simp
    with s2 have "s2 = (s @ drop (length s) s') @
        map (relocateCell (length s) (length s' - length s)) (drop (length s) s')"
      by (simp only: lex append_assoc)
    with parts have s2': "s2 = s' @
        map (relocateCell (length s) (length s' - length s)) (drop (length s) s')"
      by simp
    have dec: "decodeS d s2 (relocate (length s) (length s' - length s) v) = decodeS d s' v" for d v
      using decodeS_related [OF rel, of d v] by (simp only: lex)
    from out dec have "case r of
          Inl e \<Rightarrow> r2 = Inl e
        | Inr v \<Rightarrow>
            r2 = Inr (relocate (length s) (length s' - length s) v) \<and>
            (\<forall>d. decodeS d s2 (relocate (length s) (length s' - length s) v) = decodeS d s' v)"
      by (simp split: sum.splits)
    with second s2' show ?thesis by blast
  qed
  from len pre same doc res entities again show ?thesis by blast
qed

text \<open>
  The example: the sample document is parsed in its store, which is closed. The store
  grows from 6 to 27 cells, the six cells of the document are unchanged, the document
  denotes the same tree, and the new cell 26 is the model. The model it denotes agrees
  with what the value model computes for the same document. Parsing the document again
  in the store of 27 cells returns the new cell 47, which denotes the same model.
\<close>

theorem parseBimJson_no_mutation_witness:
  "fst (parseBimJsonS primitiveKeyOf (HRef 0) None sampleStore) = Inr (HRef 26) \<and>
   length (snd (parseBimJsonS primitiveKeyOf (HRef 0) None sampleStore)) = 27 \<and>
   take 6 (snd (parseBimJsonS primitiveKeyOf (HRef 0) None sampleStore)) = sampleStore \<and>
   decodeS 7 sampleStore (HRef 0) = Some sampleDocument \<and>
   decodeS 7 (snd (parseBimJsonS primitiveKeyOf (HRef 0) None sampleStore)) (HRef 0)
     = Some sampleDocument \<and>
   decodeS 6 (snd (parseBimJsonS primitiveKeyOf (HRef 0) None sampleStore)) (HRef 26) =
     Some (JObj
       [(''model'',
         JObj [(''name'', JStr ''S''), (''compatibilityLevel'', JNum 0),
               (''cultures'', JArr []), (''annotations'', JArr [])]),
        (''tables'',
         JArr [JObj [(''name'', JStr ''T''), (''description'', JUndefined),
                     (''isHidden'', JUndefined),
                     (''columns'',
                      JArr [JObj [(''name'', JStr ''C''), (''dataType'', JStr ''Int64''),
                                  (''isHidden'', JUndefined), (''description'', JUndefined),
                                  (''formatString'', JStr ''0'')]]),
                     (''partitions'', JArr []), (''measures'', JArr [])]]),
        (''relationships'', JArr [])]) \<and>
   parseBimJson sampleDocument None =
     Inr \<lparr>TabularModel.model =
            \<lparr>DataModelSchema.name = JStr ''S'', DataModelSchema.compatibilityLevel = JNum 0,
             DataModelSchema.cultures = [], DataModelSchema.annotations = []\<rparr>,
          TabularModel.tables =
            [\<lparr>Table.name = JStr ''T'', Table.description = JUndefined,
              Table.isHidden = JUndefined,
              Table.columns =
                [\<lparr>Column.name = JStr ''C'', Column.dataType = Member DataType.Int64,
                  Column.isHidden = JUndefined, Column.description = JUndefined,
                  Column.expression = None, Column.formatString = Some (JStr ''0''),
                  Column.summarization = None\<rparr>],
              Table.partitions = [], Table.measures = []\<rparr>],
          TabularModel.relationships = []\<rparr> \<and>
   closedStore sampleStore \<and> refBelow (length sampleStore) (HRef 0) \<and>
   keyStable primitiveKeyOf \<and>
   fst (parseBimJsonS primitiveKeyOf (HRef 0) None
          (snd (parseBimJsonS primitiveKeyOf (HRef 0) None sampleStore))) = Inr (HRef 47) \<and>
   length (snd (parseBimJsonS primitiveKeyOf (HRef 0) None
          (snd (parseBimJsonS primitiveKeyOf (HRef 0) None sampleStore)))) = 48 \<and>
   decodeS 6 (snd (parseBimJsonS primitiveKeyOf (HRef 0) None
          (snd (parseBimJsonS primitiveKeyOf (HRef 0) None sampleStore)))) (HRef 47) =
     decodeS 6 (snd (parseBimJsonS primitiveKeyOf (HRef 0) None sampleStore)) (HRef 26)"
proof -
  let ?run = "parseBimJsonS primitiveKeyOf (HRef 0) None sampleStore"
  let ?again = "parseBimJsonS primitiveKeyOf (HRef 0) None (snd ?run)"
  have run: "?run = (fst ?run, snd ?run)" by simp
  note frame = parseBimJson_no_mutation [OF run]
  have len: "length sampleStore = 6" by (simp add: sampleStore_def)
  have doc: "decodeS 7 sampleStore (HRef 0) = Some sampleDocument" by code_simp
  have res: "fst ?run = Inr (HRef 26)" by code_simp
  have size: "length (snd ?run) = 27" by code_simp
  from frame have "take (length sampleStore) (snd ?run) = sampleStore" by blast
  then have pre: "take 6 (snd ?run) = sampleStore" by (simp add: len)
  from frame doc have same: "decodeS 7 (snd ?run) (HRef 0) = Some sampleDocument" by blast
  have out: "decodeS 6 (snd ?run) (HRef 26) =
     Some (JObj
       [(''model'',
         JObj [(''name'', JStr ''S''), (''compatibilityLevel'', JNum 0),
               (''cultures'', JArr []), (''annotations'', JArr [])]),
        (''tables'',
         JArr [JObj [(''name'', JStr ''T''), (''description'', JUndefined),
                     (''isHidden'', JUndefined),
                     (''columns'',
                      JArr [JObj [(''name'', JStr ''C''), (''dataType'', JStr ''Int64''),
                                  (''isHidden'', JUndefined), (''description'', JUndefined),
                                  (''formatString'', JStr ''0'')]]),
                     (''partitions'', JArr []), (''measures'', JArr [])]]),
        (''relationships'', JArr [])])"
    by code_simp
  have val: "parseBimJson sampleDocument None =
     Inr \<lparr>TabularModel.model =
            \<lparr>DataModelSchema.name = JStr ''S'', DataModelSchema.compatibilityLevel = JNum 0,
             DataModelSchema.cultures = [], DataModelSchema.annotations = []\<rparr>,
          TabularModel.tables =
            [\<lparr>Table.name = JStr ''T'', Table.description = JUndefined,
              Table.isHidden = JUndefined,
              Table.columns =
                [\<lparr>Column.name = JStr ''C'', Column.dataType = Member DataType.Int64,
                  Column.isHidden = JUndefined, Column.description = JUndefined,
                  Column.expression = None, Column.formatString = Some (JStr ''0''),
                  Column.summarization = None\<rparr>],
              Table.partitions = [], Table.measures = []\<rparr>],
          TabularModel.relationships = []\<rparr>"
    by code_simp
  have closed: "closedStore sampleStore" by code_simp
  have below: "refBelow (length sampleStore) (HRef 0)" by (simp add: len)
  have key: "keyStable primitiveKeyOf" by (rule keyStable_primitiveKeyOf)
  from frame closed below key obtain r2 s2 where
    second: "?again = (r2, s2)"
    and s2: "s2 = snd ?run @ map (relocateCell (length sampleStore)
                (length (snd ?run) - length sampleStore)) (drop (length sampleStore) (snd ?run))"
    and outcome: "case fst ?run of
          Inl e \<Rightarrow> r2 = Inl e
        | Inr v \<Rightarrow>
            r2 = Inr (relocate (length sampleStore) (length (snd ?run) - length sampleStore) v) \<and>
            (\<forall>d. decodeS d s2 (relocate (length sampleStore)
                     (length (snd ?run) - length sampleStore) v)
                   = decodeS d (snd ?run) v)"
    by blast
  from outcome have r2: "r2 = Inr (HRef 47)"
    and tree: "decodeS 6 s2 (HRef 47) = decodeS 6 (snd ?run) (HRef 26)"
    by (simp_all add: res size len)
  from second r2 have res2: "fst ?again = Inr (HRef 47)" by simp
  from s2 have "length s2 = 48" by (simp add: size len)
  with second have size2: "length (snd ?again) = 48" by simp
  from second tree have tree2: "decodeS 6 (snd ?again) (HRef 47) = decodeS 6 (snd ?run) (HRef 26)"
    by simp
  from res size pre doc same out val closed below key res2 size2 tree2
  show ?thesis by (intro conjI)
qed

end
